(* ===== verification/Prelude.thy ===== *)
theory Prelude
  imports Main "HOL-Library.Word" "HOL-Library.Monad_Syntax" "HOL-Library.Char_ord"
    "HOL-Library.List_Lexorder"
begin

text \<open>
  Shared vocabulary of the development.

  A Rust \<open>u8\<close> is a \<open>char\<close> and a byte string (\<open>&[u8]\<close>, \<open>Bytes\<close>, \<open>BytesMut\<close>, \<open>&str\<close>,
  \<open>ByteString\<close>, \<open>String\<close>) is a list of them, so that a Rust literal is an Isabelle string literal.
  A computation that may panic is an \<open>option\<close>, where \<open>None\<close> is the panic, written in the
  \<open>do\<close> notation; a Rust \<open>Result\<close> is a sum whose left injection is the error. The \<open>?\<close> operator is
  \<open>and_then\<close>, and \<open>and_then_p\<close> is the same operator inside a computation that may panic.
\<close>

named_theorems result_simps
named_theorems text_simps

type_synonym byte = char
type_synonym bytes = "char list"
type_synonym u16 = "16 word"
type_synonym u32 = "32 word"
type_synonym u64 = "64 word"
type_synonym usize = "64 word"

abbreviation CR :: byte where "CR \<equiv> CHR 0x0D"
abbreviation LF :: byte where "LF \<equiv> CHR 0x0A"
abbreviation TAB :: byte where "TAB \<equiv> CHR 0x09"
abbreviation SP :: byte where "SP \<equiv> CHR 0x20"
abbreviation CRLF :: bytes where "CRLF \<equiv> [CHR 0x0D, CHR 0x0A]"

abbreviation byte_val :: "byte \<Rightarrow> nat" where "byte_val c \<equiv> of_char c"

section \<open>Results\<close>

abbreviation Err :: "'e \<Rightarrow> 'e + 'a" where "Err \<equiv> Inl"
abbreviation Ok :: "'a \<Rightarrow> 'e + 'a" where "Ok \<equiv> Inr"

definition and_then :: "('e + 'a) \<Rightarrow> ('a \<Rightarrow> 'e + 'b) \<Rightarrow> 'e + 'b" where
  "and_then r f = (case r of Inl e \<Rightarrow> Inl e | Inr a \<Rightarrow> f a)"

definition and_then_p :: "('e + 'a) option \<Rightarrow> ('a \<Rightarrow> ('e + 'b) option) \<Rightarrow> ('e + 'b) option" where
  "and_then_p r f = Option.bind r (\<lambda>x. case x of Inl e \<Rightarrow> Some (Inl e) | Inr a \<Rightarrow> f a)"

definition map_err :: "('e \<Rightarrow> 'f) \<Rightarrow> ('e + 'a) \<Rightarrow> 'f + 'a" where
  "map_err g r = (case r of Inl e \<Rightarrow> Inl (g e) | Inr a \<Rightarrow> Inr a)"

definition map_ok :: "('a \<Rightarrow> 'b) \<Rightarrow> ('e + 'a) \<Rightarrow> 'e + 'b" where
  "map_ok g r = (case r of Inl e \<Rightarrow> Inl e | Inr a \<Rightarrow> Inr (g a))"

definition ok_or :: "'e \<Rightarrow> 'a option \<Rightarrow> 'e + 'a" where
  "ok_or e x = (case x of None \<Rightarrow> Inl e | Some a \<Rightarrow> Inr a)"

definition is_ok :: "('e + 'a) \<Rightarrow> bool" where
  "is_ok r = (case r of Inl _ \<Rightarrow> False | Inr _ \<Rightarrow> True)"

text \<open>\<open>Option<Result<T, E>>::transpose\<close>.\<close>

definition transpose :: "('e + 'a) option \<Rightarrow> 'e + 'a option" where
  "transpose x = (case x of None \<Rightarrow> Inr None | Some (Inl e) \<Rightarrow> Inl e | Some (Inr a) \<Rightarrow> Inr (Some a))"

lemma and_then_simps [simp, result_simps]:
  "and_then (Inl e) f = Inl e" "and_then (Inr a) f = f a"
  by (simp_all add: and_then_def)

lemma and_then_p_simps [simp, result_simps]:
  "and_then_p None g = None" "and_then_p (Some (Inl e)) g = Some (Inl e)"
  "and_then_p (Some (Inr a)) g = g a"
  by (simp_all add: and_then_p_def)

lemma map_err_simps [simp, result_simps]:
  "map_err g (Inl e) = Inl (g e)" "map_err g (Inr a) = Inr a"
  by (simp_all add: map_err_def)

lemma map_ok_simps [simp, result_simps]:
  "map_ok g (Inl e) = Inl e" "map_ok g (Inr a) = Inr (g a)"
  by (simp_all add: map_ok_def)

lemma ok_or_simps [simp, result_simps]: "ok_or e None = Inl e" "ok_or e (Some a) = Inr a"
  by (simp_all add: ok_or_def)

lemma is_ok_simps [simp, result_simps]: "is_ok (Inl e) = False" "is_ok (Inr a) = True"
  by (simp_all add: is_ok_def)

lemma transpose_simps [simp, result_simps]:
  "transpose None = Inr None" "transpose (Some (Inl e)) = Inl e"
  "transpose (Some (Inr a)) = Inr (Some a)"
  by (simp_all add: transpose_def)

lemma and_then_Inr_iff: "and_then r f = Inr b \<longleftrightarrow> (\<exists>a. r = Inr a \<and> f a = Inr b)"
  by (cases r) auto

lemma map_err_Inr_iff [simp]: "map_err g r = Inr a \<longleftrightarrow> r = Inr a"
  by (cases r) auto

lemma ok_or_Inr_iff [simp]: "ok_or e x = Inr a \<longleftrightarrow> x = Some a"
  by (cases x) auto

lemma map_ok_Inr_iff: "map_ok g r = Inr b \<longleftrightarrow> (\<exists>a. r = Inr a \<and> b = g a)"
  by (cases r) auto

lemma and_then_cong [fundef_cong]:
  "r = r' \<Longrightarrow> (\<And>a. r' = Inr a \<Longrightarrow> f a = f' a) \<Longrightarrow> and_then r f = and_then r' f'"
  by (cases r') auto

lemma and_then_p_None_iff:
  "and_then_p r f = None \<longleftrightarrow> r = None \<or> (\<exists>a. r = Some (Inr a) \<and> f a = None)"
  by (auto simp: and_then_p_def Option.bind_eq_None_conv split: sum.splits bind_splits)

lemma bind_SomeE:
  assumes "Option.bind x f = Some y"
  obtains z where "x = Some z" and "f z = Some y"
  using assms by (cases x) simp_all

section \<open>Panicking primitives\<close>

text \<open>\<open>assert!\<close>, and \<open>debug_assert!\<close> in a build where \<open>cfg!(debug_assertions)\<close> is \<open>dbg\<close>.\<close>

definition assert_p :: "bool \<Rightarrow> unit option" where
  "assert_p b = (if b then Some () else None)"

definition debug_assert :: "bool \<Rightarrow> bool \<Rightarrow> unit option" where
  "debug_assert dbg b = (if dbg \<and> \<not> b then None else Some ())"

text \<open>\<open>Buf::advance\<close>, \<open>Bytes::split_to\<close> and \<open>Bytes::truncate\<close> on a contiguous buffer: the first
  two panic when asked for more bytes than there are, the third does nothing then.\<close>

definition advance :: "nat \<Rightarrow> bytes \<Rightarrow> bytes option" where
  "advance n b = (if n \<le> length b then Some (drop n b) else None)"

definition split_to :: "nat \<Rightarrow> bytes \<Rightarrow> (bytes \<times> bytes) option" where
  "split_to n b = (if n \<le> length b then Some (take n b, drop n b) else None)"

definition truncate_to :: "nat \<Rightarrow> bytes \<Rightarrow> bytes" where
  "truncate_to n b = take n b"

text \<open>Unsigned subtraction that panics (or, in release, must not be reached) on underflow.\<close>

definition sub_p :: "nat \<Rightarrow> nat \<Rightarrow> nat option" where
  "sub_p a b = (if b \<le> a then Some (a - b) else None)"

lemma assert_p_simps [simp]: "assert_p True = Some ()" "assert_p False = None"
  by (simp_all add: assert_p_def)

lemma debug_assert_simps [simp]:
  "debug_assert False b = Some ()" "debug_assert True b = assert_p b" "debug_assert dbg True = Some ()"
  by (simp_all add: debug_assert_def assert_p_def)

lemma advance_Some [simp]: "n \<le> length b \<Longrightarrow> advance n b = Some (drop n b)"
  by (simp add: advance_def)

lemma split_to_Some [simp]: "n \<le> length b \<Longrightarrow> split_to n b = Some (take n b, drop n b)"
  by (simp add: split_to_def)

lemma sub_p_Some [simp]: "b \<le> a \<Longrightarrow> sub_p a b = Some (a - b)"
  by (simp add: sub_p_def)

section \<open>Lists\<close>

lemma takeWhile_all: "\<forall>x\<in>set xs. P x \<Longrightarrow> takeWhile P xs = xs"
  by (induction xs) auto

lemma dropWhile_all: "\<forall>x\<in>set xs. P x \<Longrightarrow> dropWhile P xs = []"
  by (induction xs) auto

lemma takeWhile_append_stop: "\<not> P x \<Longrightarrow> (\<forall>y\<in>set xs. P y) \<Longrightarrow> takeWhile P (xs @ x # ys) = xs"
  by (induction xs) auto

lemma dropWhile_append_stop: "\<not> P x \<Longrightarrow> (\<forall>y\<in>set xs. P y) \<Longrightarrow> dropWhile P (xs @ x # ys) = x # ys"
  by (induction xs) auto

lemma length_dropWhile_less: "xs \<noteq> [] \<Longrightarrow> P (hd xs) \<Longrightarrow> length (dropWhile P xs) < length xs"
  by (cases xs) (auto simp: length_dropWhile_le le_imp_less_Suc)

end
