(* ===== verification/Rust_Std.thy ===== *)
theory Rust_Std
  imports Prelude
begin

text \<open>
  The parts of the Rust standard library the sources use on bytes and strings: ASCII classes,
  \<open>starts_with\<close> and its kin, decimal printing, UTF-8 validation and \<open>str::trim\<close>, \<open>str::split\<close>,
  checked and saturating machine arithmetic, and \<open>std::task::Poll\<close>.
\<close>

datatype 'a poll = Pending | Ready 'a

section \<open>ASCII\<close>

definition is_ascii_digit :: "byte \<Rightarrow> bool" where
  "is_ascii_digit c \<longleftrightarrow> 48 \<le> byte_val c \<and> byte_val c \<le> 57"

definition is_ascii_whitespace :: "byte \<Rightarrow> bool" where
  "is_ascii_whitespace c \<longleftrightarrow> c = SP \<or> c = TAB \<or> c = LF \<or> c = CHR 0x0C \<or> c = CR"

definition to_ascii_lowercase :: "byte \<Rightarrow> byte" where
  "to_ascii_lowercase c =
     (if 65 \<le> byte_val c \<and> byte_val c \<le> 90 then char_of (byte_val c + 32) else c)"

definition eq_ignore_ascii_case :: "bytes \<Rightarrow> bytes \<Rightarrow> bool" where
  "eq_ignore_ascii_case a b \<longleftrightarrow> map to_ascii_lowercase a = map to_ascii_lowercase b"

definition trim_ascii :: "bytes \<Rightarrow> bytes" where
  "trim_ascii b = rev (dropWhile is_ascii_whitespace (rev (dropWhile is_ascii_whitespace b)))"

section \<open>Prefixes, suffixes, search\<close>

definition starts_with :: "bytes \<Rightarrow> bytes \<Rightarrow> bool" where
  "starts_with b p \<longleftrightarrow> take (length p) b = p"

definition ends_with :: "bytes \<Rightarrow> bytes \<Rightarrow> bool" where
  "ends_with b p \<longleftrightarrow> length p \<le> length b \<and> drop (length b - length p) b = p"

definition strip_prefix :: "bytes \<Rightarrow> bytes \<Rightarrow> bytes option" where
  "strip_prefix b p = (if starts_with b p then Some (drop (length p) b) else None)"

definition strip_suffix :: "bytes \<Rightarrow> bytes \<Rightarrow> bytes option" where
  "strip_suffix b p = (if ends_with b p then Some (take (length b - length p) b) else None)"

text \<open>\<open><[u8]>::get(a..b)\<close>.\<close>

definition get_range :: "nat \<Rightarrow> nat \<Rightarrow> bytes \<Rightarrow> bytes option" where
  "get_range a b xs = (if a \<le> b \<and> b \<le> length xs then Some (take (b - a) (drop a xs)) else None)"

text \<open>Index of the first byte with a property, and of the first occurrence of a substring.\<close>

fun find_byte :: "(byte \<Rightarrow> bool) \<Rightarrow> bytes \<Rightarrow> nat option" where
  "find_byte P [] = None"
| "find_byte P (x # xs) = (if P x then Some 0 else map_option Suc (find_byte P xs))"

fun find_sub :: "bytes \<Rightarrow> bytes \<Rightarrow> nat option" where
  "find_sub n [] = (if n = [] then Some 0 else None)"
| "find_sub n (x # xs) = (if starts_with (x # xs) n then Some 0 else map_option Suc (find_sub n xs))"

text \<open>\<open>str::split(c)\<close>: the pieces between the separators; an empty string has one empty piece.\<close>

fun split_on :: "byte \<Rightarrow> bytes \<Rightarrow> bytes list" where
  "split_on c [] = [[]]"
| "split_on c (x # xs) =
     (if x = c then [] # split_on c xs
      else (case split_on c xs of [] \<Rightarrow> [[x]] | t # ts \<Rightarrow> (x # t) # ts))"

section \<open>Decimal printing\<close>

definition digit :: "nat \<Rightarrow> byte" where
  "digit d = char_of (48 + d)"

fun dec :: "nat \<Rightarrow> bytes" where
  "dec n = (if n < 10 then [digit n] else dec (n div 10) @ [digit (n mod 10)])"

declare dec.simps [simp del]

section \<open>Machine arithmetic\<close>

definition checked_mul :: "'a::len word \<Rightarrow> 'a word \<Rightarrow> 'a word option" where
  "checked_mul a b = (if unat a * unat b < 2 ^ LENGTH('a) then Some (a * b) else None)"

definition checked_add :: "'a::len word \<Rightarrow> 'a word \<Rightarrow> 'a word option" where
  "checked_add a b = (if unat a + unat b < 2 ^ LENGTH('a) then Some (a + b) else None)"

definition checked_sub :: "'a::len word \<Rightarrow> 'a word \<Rightarrow> 'a word option" where
  "checked_sub a b = (if b \<le> a then Some (a - b) else None)"

definition saturating_add :: "'a::len word \<Rightarrow> 'a word \<Rightarrow> 'a word" where
  "saturating_add a b = (if unat a + unat b < 2 ^ LENGTH('a) then a + b else - 1)"

definition saturating_sub :: "'a::len word \<Rightarrow> 'a word \<Rightarrow> 'a word" where
  "saturating_sub a b = (if b \<le> a then a - b else 0)"

section \<open>UTF-8\<close>

text \<open>Well-formed UTF-8 as \<open>core::str::from_utf8\<close> accepts it: no overlong forms, no surrogates,
  nothing above U+10FFFF.\<close>

definition cont :: "byte \<Rightarrow> bool" where
  "cont c \<longleftrightarrow> 128 \<le> byte_val c \<and> byte_val c \<le> 191"

definition between :: "nat \<Rightarrow> nat \<Rightarrow> byte \<Rightarrow> bool" where
  "between lo hi c \<longleftrightarrow> lo \<le> byte_val c \<and> byte_val c \<le> hi"

text \<open>The length of the well-formed sequence a byte string starts with, 0 if there is none.\<close>

definition utf8_head :: "bytes \<Rightarrow> nat" where
  "utf8_head b = (case b of [] \<Rightarrow> 0 | b1 # r1 \<Rightarrow>
     if byte_val b1 < 128 then 1
     else (case r1 of [] \<Rightarrow> 0 | b2 # r2 \<Rightarrow>
       if between 194 223 b1 \<and> cont b2 then 2
       else (case r2 of [] \<Rightarrow> 0 | b3 # r3 \<Rightarrow>
         if (byte_val b1 = 224 \<and> between 160 191 b2 \<or> between 225 236 b1 \<and> cont b2 \<or>
             byte_val b1 = 237 \<and> between 128 159 b2 \<or> between 238 239 b1 \<and> cont b2) \<and> cont b3 then 3
         else (case r3 of [] \<Rightarrow> 0 | b4 # r4 \<Rightarrow>
           if (byte_val b1 = 240 \<and> between 144 191 b2 \<or> between 241 243 b1 \<and> cont b2 \<or>
               byte_val b1 = 244 \<and> between 128 143 b2) \<and> cont b3 \<and> cont b4 then 4
           else 0))))"

function utf8_valid :: "bytes \<Rightarrow> bool" where
  "utf8_valid b = (if b = [] then True
     else if utf8_head b = 0 then False else utf8_valid (drop (utf8_head b) b))"
  by pat_completeness auto
termination by (relation "measure length") auto

declare utf8_valid.simps [simp del]

text \<open>\<open>str::from_utf8\<close> and \<open>ByteString::try_from\<close>, whose error the callers replace.\<close>

definition decode_utf8 :: "'e \<Rightarrow> bytes \<Rightarrow> 'e + bytes" where
  "decode_utf8 err b = (if utf8_valid b then Ok b else Err err)"

lemma utf8_valid_Nil [simp]: "utf8_valid []"
  by (simp add: utf8_valid.simps)

text \<open>\<open>str::trim\<close> strips the characters with the Unicode property \<open>White_Space\<close>; these are their
  UTF-8 encodings (U+0009..U+000D, U+0020, U+0085, U+00A0, U+1680, U+2000..U+200A, U+2028, U+2029,
  U+202F, U+205F, U+3000).\<close>

definition white_space :: "bytes list" where
  "white_space =
     [[CHR 0x09], [CHR 0x0A], [CHR 0x0B], [CHR 0x0C], [CHR 0x0D], [CHR 0x20],
      [CHR 0xC2, CHR 0x85], [CHR 0xC2, CHR 0xA0], [CHR 0xE1, CHR 0x9A, CHR 0x80],
      [CHR 0xE2, CHR 0x80, CHR 0x80], [CHR 0xE2, CHR 0x80, CHR 0x81], [CHR 0xE2, CHR 0x80, CHR 0x82],
      [CHR 0xE2, CHR 0x80, CHR 0x83], [CHR 0xE2, CHR 0x80, CHR 0x84], [CHR 0xE2, CHR 0x80, CHR 0x85],
      [CHR 0xE2, CHR 0x80, CHR 0x86], [CHR 0xE2, CHR 0x80, CHR 0x87], [CHR 0xE2, CHR 0x80, CHR 0x88],
      [CHR 0xE2, CHR 0x80, CHR 0x89], [CHR 0xE2, CHR 0x80, CHR 0x8A], [CHR 0xE2, CHR 0x80, CHR 0xA8],
      [CHR 0xE2, CHR 0x80, CHR 0xA9], [CHR 0xE2, CHR 0x80, CHR 0xAF], [CHR 0xE2, CHR 0x81, CHR 0x9F],
      [CHR 0xE3, CHR 0x80, CHR 0x80]]"

definition white_space_prefix :: "bytes list \<Rightarrow> bytes \<Rightarrow> nat" where
  "white_space_prefix ws b = (case find (\<lambda>w. starts_with b w) ws of None \<Rightarrow> 0 | Some w \<Rightarrow> length w)"

function strip_all :: "bytes list \<Rightarrow> bytes \<Rightarrow> bytes" where
  "strip_all ws b = (if b = [] \<or> white_space_prefix ws b = 0 then b
     else strip_all ws (drop (white_space_prefix ws b) b))"
  by pat_completeness auto
termination by (relation "measure (\<lambda>(ws, b). length b)") auto

declare strip_all.simps [simp del]

definition str_trim :: "bytes \<Rightarrow> bytes" where
  "str_trim s = rev (strip_all (map rev white_space) (rev (strip_all white_space s)))"

section \<open>Lemmas\<close>

lemma digit_is_ascii_digit [simp]: "d < 10 \<Longrightarrow> is_ascii_digit (digit d)"
  by (simp add: is_ascii_digit_def digit_def)

lemma byte_val_digit [simp]: "d < 10 \<Longrightarrow> byte_val (digit d) = 48 + d"
  by (simp add: digit_def)

lemma dec_nonempty [simp]: "dec n \<noteq> []"
  by (subst dec.simps) simp

lemma dec_digits: "\<forall>c\<in>set (dec n). is_ascii_digit c"
proof (induction n rule: dec.induct)
  case (1 n)
  then show ?case by (subst dec.simps) auto
qed

lemma is_ascii_digit_not_special:
  "is_ascii_digit c \<Longrightarrow> c \<noteq> SP \<and> c \<noteq> TAB \<and> c \<noteq> CR \<and> c \<noteq> LF"
  by (auto simp: is_ascii_digit_def)

lemma dec_not_special: "c \<in> set (dec n) \<Longrightarrow> c \<noteq> SP \<and> c \<noteq> TAB \<and> c \<noteq> CR \<and> c \<noteq> LF"
  using dec_digits is_ascii_digit_not_special by blast

lemma starts_with_append [simp, text_simps]: "starts_with (p @ b) p"
  by (simp add: starts_with_def)

lemma starts_with_Nil [simp, text_simps]: "starts_with b []"
  by (simp add: starts_with_def)

lemma starts_with_Cons [simp, text_simps]:
  "starts_with [] (p # ps) = False"
  "starts_with (x # xs) (p # ps) \<longleftrightarrow> x = p \<and> starts_with xs ps"
  by (auto simp: starts_with_def)

lemma starts_with_iff: "starts_with b p \<longleftrightarrow> (\<exists>r. b = p @ r)"
  by (metis append_take_drop_id starts_with_append starts_with_def)

lemma starts_with_length: "starts_with b p \<Longrightarrow> length p \<le> length b"
  by (auto simp: starts_with_iff)

lemma find_byte_Some_iff:
  "find_byte P xs = Some i \<longleftrightarrow> i < length xs \<and> P (xs ! i) \<and> (\<forall>j<i. \<not> P (xs ! j))"
proof (induction xs arbitrary: i)
  case Nil
  then show ?case by simp
next
  case (Cons x xs)
  then show ?case
    by (cases i) (auto simp: All_less_Suc2)
qed

lemma find_byte_None_iff: "find_byte P xs = None \<longleftrightarrow> (\<forall>x\<in>set xs. \<not> P x)"
  by (induction xs) auto

lemma find_byte_append_stop:
  "\<forall>x\<in>set xs. \<not> P x \<Longrightarrow> P y \<Longrightarrow> find_byte P (xs @ y # ys) = Some (length xs)"
  by (induction xs) auto

lemma find_sub_bound: "find_sub n h = Some i \<Longrightarrow> i + length n \<le> length h"
  by (induction h arbitrary: i) (auto split: if_splits dest: starts_with_length)

lemma find_sub_Some_iff:
  "find_sub n h = Some i \<longleftrightarrow>
     i \<le> length h \<and> starts_with (drop i h) n \<and> (\<forall>j<i. \<not> starts_with (drop j h) n)"
proof (induction h arbitrary: i)
  case Nil
  then show ?case by (cases n) auto
next
  case (Cons x xs)
  then show ?case
    by (cases i) (auto simp: All_less_Suc2)
qed

text \<open>The first CRLF of a text whose first line has no CR.\<close>

lemma find_sub_crlf_line: "CR \<notin> set l \<Longrightarrow> find_sub CRLF (l @ CRLF @ r) = Some (length l)"
  by (induction l) auto

lemma find_sub_crlf_None: "CR \<notin> set l \<Longrightarrow> find_sub CRLF l = None"
  by (induction l) auto

lemma unat_checked_mul: "checked_mul a b = Some c \<Longrightarrow> unat c = unat a * unat b"
  by (auto simp: checked_mul_def unat_word_ariths split: if_splits)

lemma unat_checked_add: "checked_add a b = Some c \<Longrightarrow> unat c = unat a + unat b"
  by (auto simp: checked_add_def unat_word_ariths split: if_splits)

lemma unat_checked_sub: "checked_sub a b = Some c \<Longrightarrow> unat b \<le> unat a \<and> unat c = unat a - unat b"
  by (auto simp: checked_sub_def word_le_nat_alt unat_sub split: if_splits)

lemma unat_saturating_add:
  "unat (saturating_add a b) = min (unat a + unat b) (2 ^ LENGTH('a) - 1)" for a :: "'a::len word"
  by (auto simp: saturating_add_def unat_word_ariths unsigned_minus_1_eq_mask mask_eq_exp_minus_1)

end
