(* ===== verification/Names.thy ===== *)
theory Names
  imports Rust_Std
begin

text \<open>
  The validated strings of \<open>watermelon-proto\<close>: \<open>Subject\<close> (\<open>subject.rs\<close>), \<open>QueueGroup\<close>
  (\<open>queue_group.rs\<close>), \<open>HeaderName\<close> (\<open>headers/name.rs\<close>) and \<open>HeaderValue\<close> (\<open>headers/value.rs\<close>).
  The four share their constructors: \<open>try_from\<close> validates, \<open>from_dangerous_value\<close> validates only in
  a build with debug assertions (\<open>dbg\<close>) and then panics, \<open>from_static\<close> panics on an invalid literal.
  The locale \<open>validated\<close> states that contract once; \<open>wire_word\<close> adds what a word of a control line needs.
\<close>

section \<open>The shared contract\<close>

text \<open>Bytes that end a control line, or separate its words.\<close>

definition is_eol :: "byte \<Rightarrow> bool" where
  "is_eol b \<longleftrightarrow> b = CR \<or> b = LF"

definition is_separator :: "byte \<Rightarrow> bool" where
  "is_separator b \<longleftrightarrow> b = SP \<or> b = TAB \<or> b = CR \<or> b = LF"

text \<open>\<open>Result::expect\<close> inside a computation that may panic.\<close>

definition expect_p :: "('e + 'a) option \<Rightarrow> 'a option" where
  "expect_p r = Option.bind r (\<lambda>x. case x of Inl _ \<Rightarrow> None | Inr a \<Rightarrow> Some a)"

locale validated =
  fixes validate :: "bytes \<Rightarrow> 'e + unit"
    and mk :: "bytes \<Rightarrow> 'a"
    and as_str :: "'a \<Rightarrow> bytes"
    and from_dangerous_value :: "bool \<Rightarrow> bytes \<Rightarrow> 'a option"
    and try_from :: "bool \<Rightarrow> bytes \<Rightarrow> ('e + 'a) option"
    and from_static :: "bool \<Rightarrow> bytes \<Rightarrow> 'a option"
  assumes as_str_mk: "as_str (mk v) = v"
    and from_dangerous_value_eq:
      "from_dangerous_value dbg v = (if dbg \<and> \<not> is_ok (validate v) then None else Some (mk v))"
    and try_from_unfold:
      "try_from dbg v = and_then_p (Some (validate v)) (\<lambda>_. map_option Inr (from_dangerous_value dbg v))"
    and from_static_unfold: "from_static dbg v = expect_p (try_from dbg v)"
    and validate_eol: "validate v = Ok () \<Longrightarrow> b \<in> set v \<Longrightarrow> \<not> is_eol b"
begin

text \<open>The checked constructor never panics, whatever the build, and returns exactly the valid strings.\<close>

lemma try_from_eq: "try_from dbg v = Some (map_ok (\<lambda>_. mk v) (validate v))"
  by (cases "validate v") (simp_all add: try_from_unfold from_dangerous_value_eq)

lemma try_from_Ok_iff: "try_from dbg v = Some (Ok x) \<longleftrightarrow> validate v = Ok () \<and> x = mk v"
  by (cases "validate v") (auto simp: try_from_eq)

lemma try_from_as_str: "try_from dbg v = Some (Ok x) \<Longrightarrow> as_str x = v"
  by (simp add: try_from_Ok_iff as_str_mk)

lemma from_static_eq: "from_static dbg v = (if is_ok (validate v) then Some (mk v) else None)"
  by (cases "validate v") (simp_all add: from_static_unfold try_from_eq expect_p_def)

lemma from_dangerous_value_release: "from_dangerous_value False v = Some (mk v)"
  by (simp add: from_dangerous_value_eq)

lemma validated_no_eol: "try_from dbg v = Some (Ok x) \<Longrightarrow> b \<in> set (as_str x) \<Longrightarrow> \<not> is_eol b"
  using validate_eol by (auto simp: try_from_Ok_iff as_str_mk)

end

text \<open>A word of a control line: not empty, without separators.\<close>

locale wire_word = validated +
  assumes validate_word: "validate v = Ok () \<Longrightarrow> v \<noteq> [] \<and> (\<forall>b\<in>set v. \<not> is_separator b)"
begin

lemma word_as_str:
  "try_from dbg v = Some (Ok x) \<Longrightarrow> as_str x \<noteq> [] \<and> (\<forall>b\<in>set (as_str x). \<not> is_separator b)"
  using validate_word by (auto simp: try_from_Ok_iff as_str_mk)

end

section \<open>\<open>Subject\<close>\<close>

datatype subject = Subject (subject_as_str: bytes)

datatype subject_validate_error =
  Subject_Empty | Subject_IllegalCharacter | Subject_BrokenToken | Subject_BrokenWildcard

fun validate_tokens :: "bytes list \<Rightarrow> subject_validate_error + unit" where
  "validate_tokens [] = Ok ()"
| "validate_tokens (token # tokens) =
     (if token = [] \<or> find_sub ''..'' token \<noteq> None then Err Subject_BrokenToken
      else if length token > 1 \<and> list_ex (\<lambda>c. c = CHR ''*'' \<or> c = CHR ''>'') token
        then Err Subject_BrokenWildcard
      else if token = ''>'' \<and> tokens \<noteq> [] then Err Subject_BrokenWildcard
      else validate_tokens tokens)"

definition validate_subject :: "bytes \<Rightarrow> subject_validate_error + unit" where
  "validate_subject subject =
     (if subject = [] then Err Subject_Empty
      else if list_ex (\<lambda>b. b = SP \<or> b = TAB \<or> b = CR \<or> b = LF) subject
        then Err Subject_IllegalCharacter
      else validate_tokens (split_on CHR ''.'' subject))"

definition subject_from_dangerous_value :: "bool \<Rightarrow> bytes \<Rightarrow> subject option" where
  "subject_from_dangerous_value dbg value = do {
     _ \<leftarrow> debug_assert dbg (is_ok (validate_subject value));
     Some (Subject value) }"

definition subject_try_from :: "bool \<Rightarrow> bytes \<Rightarrow> (subject_validate_error + subject) option" where
  "subject_try_from dbg value =
     and_then_p (Some (validate_subject value)) (\<lambda>_.
       map_option Ok (subject_from_dangerous_value dbg value))"

definition subject_from_static :: "bool \<Rightarrow> bytes \<Rightarrow> subject option" where
  "subject_from_static dbg value = expect_p (subject_try_from dbg value)"

section \<open>\<open>QueueGroup\<close>\<close>

datatype queue_group = QueueGroup (queue_group_as_str: bytes)

datatype queue_group_validate_error = QueueGroup_Empty | QueueGroup_IllegalCharacter

definition validate_queue_group :: "bytes \<Rightarrow> queue_group_validate_error + unit" where
  "validate_queue_group queue_group =
     (if queue_group = [] then Err QueueGroup_Empty
      else if list_ex (\<lambda>b. b = SP \<or> b = TAB \<or> b = CR \<or> b = LF) queue_group
        then Err QueueGroup_IllegalCharacter
      else Ok ())"

definition queue_group_from_dangerous_value :: "bool \<Rightarrow> bytes \<Rightarrow> queue_group option" where
  "queue_group_from_dangerous_value dbg value = do {
     _ \<leftarrow> debug_assert dbg (is_ok (validate_queue_group value));
     Some (QueueGroup value) }"

definition queue_group_try_from ::
    "bool \<Rightarrow> bytes \<Rightarrow> (queue_group_validate_error + queue_group) option" where
  "queue_group_try_from dbg value =
     and_then_p (Some (validate_queue_group value)) (\<lambda>_.
       map_option Ok (queue_group_from_dangerous_value dbg value))"

definition queue_group_from_static :: "bool \<Rightarrow> bytes \<Rightarrow> queue_group option" where
  "queue_group_from_static dbg value = expect_p (queue_group_try_from dbg value)"

section \<open>\<open>HeaderName\<close>\<close>

datatype header_name = HeaderName (header_name_as_str: bytes)

datatype header_name_validate_error = HeaderName_Empty | HeaderName_IllegalCharacter

fun validate_header_name_bytes :: "bytes \<Rightarrow> header_name_validate_error + unit" where
  "validate_header_name_bytes [] = Ok ()"
| "validate_header_name_bytes (b # bs) =
     (if byte_val b \<ge> 128 then Err HeaderName_IllegalCharacter
      else if b = CR \<or> b = LF \<or> b = CHR '':'' then Err HeaderName_IllegalCharacter
      else validate_header_name_bytes bs)"

definition validate_header_name :: "bytes \<Rightarrow> header_name_validate_error + unit" where
  "validate_header_name header_name =
     (if header_name = [] then Err HeaderName_Empty else validate_header_name_bytes header_name)"

definition header_name_from_dangerous_value :: "bool \<Rightarrow> bytes \<Rightarrow> header_name option" where
  "header_name_from_dangerous_value dbg value = do {
     _ \<leftarrow> debug_assert dbg (is_ok (validate_header_name value));
     Some (HeaderName value) }"

definition header_name_try_from ::
    "bool \<Rightarrow> bytes \<Rightarrow> (header_name_validate_error + header_name) option" where
  "header_name_try_from dbg value =
     and_then_p (Some (validate_header_name value)) (\<lambda>_.
       map_option Ok (header_name_from_dangerous_value dbg value))"

definition header_name_from_static :: "bool \<Rightarrow> bytes \<Rightarrow> header_name option" where
  "header_name_from_static dbg value = expect_p (header_name_try_from dbg value)"

text \<open>The constants are built without validation.\<close>

definition header_name_new_internal :: "bytes \<Rightarrow> header_name" where
  "header_name_new_internal value = HeaderName value"

definition header_name_constants :: "header_name list" where
  "header_name_constants = map header_name_new_internal
     [''Nats-Msg-Id'', ''Nats-Expected-Stream'', ''Nats-Expected-Last-Msg-Id'',
      ''Nats-Expected-Last-Sequence'', ''Nats-Rollup'', ''Nats-Stream'', ''Nats-Subject'',
      ''Nats-Sequence'', ''Nats-Last-Sequence'', ''Nats-Time-Stamp'', ''Nats-Stream-Source'',
      ''Nats-Msg-Size'']"

section \<open>\<open>HeaderValue\<close>\<close>

datatype header_value = HeaderValue (header_value_as_bytes: bytes)

datatype header_value_validate_error = HeaderValue_IllegalCharacter

fun validate_header_value_bytes :: "bytes \<Rightarrow> header_value_validate_error + unit" where
  "validate_header_value_bytes [] = Ok ()"
| "validate_header_value_bytes (b # value) =
     (if b = CR \<or> b = LF then Err HeaderValue_IllegalCharacter
      else validate_header_value_bytes value)"

definition header_value_from_dangerous_value :: "bool \<Rightarrow> bytes \<Rightarrow> header_value option" where
  "header_value_from_dangerous_value dbg value = do {
     _ \<leftarrow> debug_assert dbg (is_ok (validate_header_value_bytes value));
     Some (HeaderValue value) }"

definition header_value_from_bytes ::
    "bool \<Rightarrow> bytes \<Rightarrow> (header_value_validate_error + header_value) option" where
  "header_value_from_bytes dbg value =
     and_then_p (Some (validate_header_value_bytes value)) (\<lambda>_.
       map_option Ok (header_value_from_dangerous_value dbg value))"

definition header_value_from_static :: "bool \<Rightarrow> bytes \<Rightarrow> header_value option" where
  "header_value_from_static dbg value = expect_p (header_value_from_bytes dbg value)"

datatype header_value_to_str_error = HeaderValueToStrError

definition header_value_to_str :: "header_value \<Rightarrow> header_value_to_str_error + bytes" where
  "header_value_to_str v =
     (if utf8_valid (header_value_as_bytes v) then Ok (header_value_as_bytes v)
      else Err HeaderValueToStrError)"

definition is_ascii_graphic :: "byte \<Rightarrow> bool" where
  "is_ascii_graphic c \<longleftrightarrow> 33 \<le> byte_val c \<and> byte_val c \<le> 126"

definition hex_digit :: "nat \<Rightarrow> byte" where
  "hex_digit d = char_of (if d < 10 then 48 + d else 87 + d)"

fun header_value_escape :: "bytes \<Rightarrow> bytes" where
  "header_value_escape [] = []"
| "header_value_escape (b # bs) =
     (if is_ascii_graphic b \<or> b = SP then [b]
      else [CHR 0x5C, CHR ''x'', hex_digit (byte_val b div 16), hex_digit (byte_val b mod 16)])
     @ header_value_escape bs"

definition header_value_fmt :: "header_value \<Rightarrow> bytes" where
  "header_value_fmt v = (case header_value_to_str v of
      Inr s \<Rightarrow> s
    | Inl _ \<Rightarrow> header_value_escape (header_value_as_bytes v))"

section \<open>The four types keep the contract\<close>

lemma is_separator_list_ex:
  "list_ex (\<lambda>b. b = SP \<or> b = TAB \<or> b = CR \<or> b = LF) v \<longleftrightarrow> (\<exists>b\<in>set v. is_separator b)"
  by (simp add: list_ex_iff is_separator_def)

lemma is_eol_separator: "is_eol b \<Longrightarrow> is_separator b"
  by (auto simp: is_eol_def is_separator_def)

lemma validate_subject_word:
  "validate_subject v = Ok () \<Longrightarrow> v \<noteq> [] \<and> (\<forall>b\<in>set v. \<not> is_separator b)"
  by (auto simp: validate_subject_def is_separator_list_ex split: if_splits)

lemma validate_queue_group_iff:
  "validate_queue_group v = Ok () \<longleftrightarrow> v \<noteq> [] \<and> (\<forall>b\<in>set v. \<not> is_separator b)"
  by (auto simp: validate_queue_group_def is_separator_list_ex)

lemma validate_header_name_iff:
  "validate_header_name v = Ok () \<longleftrightarrow>
     v \<noteq> [] \<and> (\<forall>b\<in>set v. byte_val b < 128 \<and> b \<noteq> CR \<and> b \<noteq> LF \<and> b \<noteq> CHR '':'')"
proof -
  have "validate_header_name_bytes v = Ok () \<longleftrightarrow>
      (\<forall>b\<in>set v. byte_val b < 128 \<and> b \<noteq> CR \<and> b \<noteq> LF \<and> b \<noteq> CHR '':'')"
    by (induction v) auto
  then show ?thesis by (simp add: validate_header_name_def)
qed

lemma validate_header_value_iff:
  "validate_header_value_bytes v = Ok () \<longleftrightarrow> (\<forall>b\<in>set v. \<not> is_eol b)"
  by (induction v) (auto simp: is_eol_def)

lemma debug_assert_is_ok:
  "Option.bind (debug_assert dbg b) (\<lambda>_. Some x) = (if dbg \<and> \<not> b then None else Some x)"
  by (simp add: debug_assert_def)

interpretation subject: wire_word validate_subject Subject subject_as_str
  subject_from_dangerous_value subject_try_from subject_from_static
  by unfold_locales
    (auto simp: subject_from_dangerous_value_def subject_try_from_def subject_from_static_def
      debug_assert_is_ok dest!: validate_subject_word dest: is_eol_separator)

interpretation queue_group: wire_word validate_queue_group QueueGroup queue_group_as_str
  queue_group_from_dangerous_value queue_group_try_from queue_group_from_static
  by unfold_locales
    (auto simp: queue_group_from_dangerous_value_def queue_group_try_from_def
      queue_group_from_static_def debug_assert_is_ok validate_queue_group_iff dest: is_eol_separator)

interpretation header_name: validated validate_header_name HeaderName header_name_as_str
  header_name_from_dangerous_value header_name_try_from header_name_from_static
  by unfold_locales
    (auto simp: header_name_from_dangerous_value_def header_name_try_from_def
      header_name_from_static_def debug_assert_is_ok validate_header_name_iff is_eol_def)

interpretation header_value: validated validate_header_value_bytes HeaderValue
  header_value_as_bytes header_value_from_dangerous_value header_value_from_bytes
  header_value_from_static
  by unfold_locales
    (auto simp: header_value_from_dangerous_value_def header_value_from_bytes_def
      header_value_from_static_def debug_assert_is_ok validate_header_value_iff)

lemma header_name_constants_valid:
  "list_all (\<lambda>n. validate_header_name (header_name_as_str n) = Ok ()) header_name_constants"
  by code_simp

section \<open>What a subject is\<close>

text \<open>The grammar \<open>validate_subject\<close> decides: no separator byte, dot separated tokens that are not
  empty, a wildcard alone in its token, and \<open>>\<close> in the last token only.\<close>

definition wildcard :: "byte \<Rightarrow> bool" where
  "wildcard c \<longleftrightarrow> c = CHR ''*'' \<or> c = CHR ''>''"

definition token_wf :: "bytes \<Rightarrow> bool" where
  "token_wf t \<longleftrightarrow> t \<noteq> [] \<and> ((\<exists>c\<in>set t. wildcard c) \<longrightarrow> length t = 1)"

definition tokens_wf :: "bytes list \<Rightarrow> bool" where
  "tokens_wf ts \<longleftrightarrow> (\<forall>t\<in>set ts. token_wf t) \<and> ''>'' \<notin> set (butlast ts)"

definition subject_wf :: "bytes \<Rightarrow> bool" where
  "subject_wf s \<longleftrightarrow> (\<forall>b\<in>set s. \<not> is_separator b) \<and> tokens_wf (split_on CHR ''.'' s)"

lemma split_on_nonempty [simp]: "split_on c s \<noteq> []"
  by (induction s) (auto split: list.splits)

lemma split_on_no_sep: "t \<in> set (split_on c s) \<Longrightarrow> c \<notin> set t"
  by (induction s arbitrary: t) (auto split: list.splits if_splits)

lemma split_on_append: "split_on c (a @ c # b) = split_on c a @ split_on c b"
  by (induction a) (auto split: list.splits)

lemma split_on_token: "c \<notin> set t \<Longrightarrow> split_on c t = [t]"
  by (induction t) auto

text \<open>A piece of a split never contains the separator, so the test for \<open>..\<close> inside a token is
  dead code.\<close>

lemma find_sub_absent: "c \<notin> set t \<Longrightarrow> find_sub (c # n) t = None"
  by (induction t) auto

lemma validate_tokens_iff:
  assumes "\<forall>t\<in>set ts. CHR ''.'' \<notin> set t"
  shows "validate_tokens ts = Ok () \<longleftrightarrow> tokens_wf ts"
  using assms
proof (induction ts)
  case Nil
  then show ?case by (simp add: tokens_wf_def)
next
  case (Cons t ts)
  have w: "list_ex (\<lambda>c. c = CHR ''*'' \<or> c = CHR ''>'') t \<longleftrightarrow> (\<exists>c\<in>set t. wildcard c)"
    by (simp add: list_ex_iff wildcard_def)
  have l: "Suc 0 < length t \<longleftrightarrow> t \<noteq> [] \<and> length t \<noteq> 1"
    by (cases t) auto
  from Cons show ?case
    by (cases "ts = []") (auto simp: find_sub_absent w l tokens_wf_def token_wf_def)
qed

lemma validate_subject_Ok_iff: "validate_subject s = Ok () \<longleftrightarrow> s \<noteq> [] \<and> subject_wf s"
  by (auto simp: validate_subject_def is_separator_list_ex subject_wf_def
      validate_tokens_iff [OF ballI [OF split_on_no_sep]])

lemma subject_wf_nonempty: "subject_wf s \<Longrightarrow> s \<noteq> []"
  by (auto simp: subject_wf_def tokens_wf_def token_wf_def)

text \<open>Appending a token to a subject that does not end in the wildcard \<open>>\<close>.\<close>

lemma tokens_wf_snoc:
  "tokens_wf (ts @ [t]) \<longleftrightarrow> (\<forall>u\<in>set ts. token_wf u) \<and> ''>'' \<notin> set ts \<and> token_wf t"
  by (auto simp: tokens_wf_def)

lemma subject_wf_append_token:
  assumes "subject_wf p" and "last (split_on CHR ''.'' p) \<noteq> ''>''"
    and "CHR ''.'' \<notin> set t" and "token_wf t" and "\<forall>b\<in>set t. \<not> is_separator b"
  shows "subject_wf (p @ CHR ''.'' # t)"
proof -
  obtain ts u where tu: "split_on CHR ''.'' p = ts @ [u]"
    using split_on_nonempty [of _ p] by (metis append_butlast_last_id)
  from assms(1,2) tu have "\<forall>u\<in>set (ts @ [u]). token_wf u" "''>'' \<notin> set (ts @ [u])"
    by (auto simp: subject_wf_def tokens_wf_def)
  then have "tokens_wf ((ts @ [u]) @ [t])"
    using assms(4) by (subst tokens_wf_snoc) auto
  with assms tu show ?thesis
    by (auto simp: subject_wf_def split_on_append split_on_token is_separator_def)
qed

lemma not_subject_wf_after_gt:
  assumes "last (split_on CHR ''.'' p) = ''>''"
  shows "\<not> subject_wf (p @ CHR ''.'' # t)"
proof -
  obtain ts where "split_on CHR ''.'' p = ts @ [''>'']"
    using assms split_on_nonempty [of _ p] by (metis append_butlast_last_id)
  then have "''>'' \<in> set (butlast (split_on CHR ''.'' (p @ CHR ''.'' # t)))"
    by (simp add: split_on_append butlast_append)
  then show ?thesis by (auto simp: subject_wf_def tokens_wf_def)
qed

text \<open>A subject that does not end in the wildcard > stays a subject when a well formed token is appended
  to it, as the client does to build inboxes and multiplexed reply subjects.\<close>

lemma subject_append_token:
  assumes "subject_try_from dbg p = Some (Ok x)" and "last (split_on CHR ''.'' p) \<noteq> ''>''"
    and "CHR ''.'' \<notin> set t" and "validate_subject t = Ok ()"
  shows "subject_try_from dbg (p @ CHR ''.'' # t) = Some (Ok (Subject (p @ CHR ''.'' # t)))"
proof -
  from assms(1,4) have "subject_wf p" "subject_wf t"
    by (simp_all add: subject.try_from_Ok_iff validate_subject_Ok_iff)
  with assms(2,3) have "subject_wf (p @ CHR ''.'' # t)"
    by (intro subject_wf_append_token) (simp_all add: subject_wf_def tokens_wf_def split_on_token)
  then show ?thesis by (simp add: subject.try_from_Ok_iff validate_subject_Ok_iff)
qed

section \<open>Properties\<close>

text \<open>C35: A subject is accepted exactly when it is not empty, holds no space, tab or line end, and its
  dot separated tokens are all non-empty, a wildcard being a token of its own and > only the last
  one.\<close>

theorem subject_grammar:
  "validate_subject s = Ok () \<longleftrightarrow> s \<noteq> [] \<and> (\<forall>b\<in>set s. b \<noteq> SP \<and> b \<noteq> TAB \<and> b \<noteq> CR \<and> b \<noteq> LF) \<and>
     (let ts = split_on CHR ''.'' s in
       (\<forall>t\<in>set ts. t \<noteq> [] \<and> (CHR ''*'' \<in> set t \<longrightarrow> t = ''*'') \<and> (CHR ''>'' \<in> set t \<longrightarrow> t = ''>'')) \<and>
       ''>'' \<notin> set (butlast ts))"
proof -
  have "token_wf t \<longleftrightarrow> t \<noteq> [] \<and> (CHR ''*'' \<in> set t \<longrightarrow> t = ''*'') \<and> (CHR ''>'' \<in> set t \<longrightarrow> t = ''>'')" for t
    by (cases t) (auto simp: token_wf_def wildcard_def length_Suc_conv)
  then show ?thesis
    by (simp add: validate_subject_Ok_iff subject_wf_def tokens_wf_def is_separator_def is_eol_def Let_def)
qed

lemma subject_grammar_witness: "validate_subject ''a.*.>'' = Ok () \<and> validate_subject ''a.>.b'' \<noteq> Ok ()"
  unfolding subject_grammar by (simp add: Let_def)

end
