(* ===== verification/Btree_Map.thy ===== *)
theory Btree_Map
  imports Prelude
begin

text \<open>
  \<open>std::collections::BTreeMap\<close>: the entries in key order, as its iterator yields them. The order is
  the one of a key projection, so that a key type whose \<open>Ord\<close> ignores part of the value (a
  case-insensitive header name) is covered: \<open>insert\<close> on a key that is present replaces the value and
  keeps the key that was there, as the standard library does.
\<close>

type_synonym ('k, 'v) btree_map = "('k \<times> 'v) list"

fun bt_get :: "('k \<Rightarrow> 'o::linorder) \<Rightarrow> 'k \<Rightarrow> ('k, 'v) btree_map \<Rightarrow> 'v option" where
  "bt_get key k [] = None"
| "bt_get key k ((k', v) # m) = (if key k = key k' then Some v else bt_get key k m)"

fun bt_insert :: "('k \<Rightarrow> 'o::linorder) \<Rightarrow> 'k \<Rightarrow> 'v \<Rightarrow> ('k, 'v) btree_map \<Rightarrow> ('k, 'v) btree_map" where
  "bt_insert key k v [] = [(k, v)]"
| "bt_insert key k v ((k', v') # m) =
     (if key k < key k' then (k, v) # (k', v') # m
      else if key k = key k' then (k', v) # m
      else (k', v') # bt_insert key k v m)"

fun bt_remove :: "('k \<Rightarrow> 'o::linorder) \<Rightarrow> 'k \<Rightarrow> ('k, 'v) btree_map \<Rightarrow> ('k, 'v) btree_map" where
  "bt_remove key k [] = []"
| "bt_remove key k ((k', v') # m) =
     (if key k = key k' then m else (k', v') # bt_remove key k m)"

definition bt_wf :: "('k \<Rightarrow> 'o::linorder) \<Rightarrow> ('k, 'v) btree_map \<Rightarrow> bool" where
  "bt_wf key m \<longleftrightarrow> sorted_wrt (<) (map (\<lambda>p. key (fst p)) m)"

lemma bt_wf_Nil [simp]: "bt_wf key []"
  by (simp add: bt_wf_def)

lemma bt_wf_Cons [simp]: "bt_wf key ((k, v) # m) \<longleftrightarrow> (\<forall>p\<in>set m. key k < key (fst p)) \<and> bt_wf key m"
  by (auto simp: bt_wf_def)

lemma bt_wf_snoc: "bt_wf key (m @ [(k, v)]) \<longleftrightarrow> (\<forall>p\<in>set m. key (fst p) < key k) \<and> bt_wf key m"
  by (auto simp: bt_wf_def sorted_wrt_append)

lemma set_bt_insert_keys:
  "(\<lambda>p. key (fst p)) ` set (bt_insert key k v m) = insert (key k) ((\<lambda>p. key (fst p)) ` set m)"
proof (induction m)
  case (Cons p m)
  then show ?case by (cases p) (simp add: insert_commute)
qed simp

lemma ball_keys: "(\<forall>p\<in>set m. P (key (fst p))) \<longleftrightarrow> (\<forall>o'\<in>(\<lambda>p. key (fst p)) ` set m. P o')"
  by simp

lemma ball_bt_insert:
  "(\<forall>p\<in>set (bt_insert key k v m). P (key (fst p))) \<longleftrightarrow> P (key k) \<and> (\<forall>p\<in>set m. P (key (fst p)))"
  unfolding ball_keys [where m = "bt_insert key k v m"] set_bt_insert_keys by simp

lemma bt_wf_insert: "bt_wf key m \<Longrightarrow> bt_wf key (bt_insert key k v m)"
proof (induction m)
  case (Cons p m)
  obtain k' v' where p: "p = (k', v')" by (cases p)
  consider "key k < key k'" | "key k = key k'" | "key k' < key k" by (rule linorder_less_linear [THEN disjE]) auto
  then show ?case
    by cases (use Cons p less_trans in \<open>auto simp: ball_bt_insert [where P = "\<lambda>x. key k' < x"]\<close>)
qed simp

lemma set_bt_remove: "set (bt_remove key k m) \<subseteq> set m"
  by (induction m) (auto split: if_splits)

lemma bt_wf_remove: "bt_wf key m \<Longrightarrow> bt_wf key (bt_remove key k m)"
proof (induction m)
  case (Cons p m)
  then show ?case using set_bt_remove [of key k m] by (cases p) auto
qed simp

lemma bt_get_None: "\<forall>p\<in>set m. key (fst p) \<noteq> key k \<Longrightarrow> bt_get key k m = None"
  by (induction m) auto

lemma bt_get_insert [simp]:
  "bt_wf key m \<Longrightarrow> bt_get key k' (bt_insert key k v m) = (if key k' = key k then Some v else bt_get key k' m)"
  by (induction m) (auto dest: bt_get_None)

lemma bt_get_remove [simp]:
  "bt_wf key m \<Longrightarrow> bt_get key k' (bt_remove key k m) = (if key k' = key k then None else bt_get key k' m)"
proof (induction m)
  case (Cons p m)
  then have "key (fst p) = key k' \<Longrightarrow> bt_get key k' m = None"
    by (cases p) (force intro: bt_get_None)
  with Cons show ?case by (cases p) auto
qed simp

lemma bt_insert_last: "\<forall>p\<in>set m. key (fst p) < key k \<Longrightarrow> bt_insert key k v m = m @ [(k, v)]"
  by (induction m) auto

lemma bt_insert_replace_last:
  "\<forall>p\<in>set m. key (fst p) < key k \<Longrightarrow> bt_insert key k v (m @ [(k, w)]) = m @ [(k, v)]"
  by (induction m) auto

lemma bt_get_last: "\<forall>p\<in>set m. key (fst p) < key k \<Longrightarrow> bt_get key k (m @ [(k, w)]) = Some w"
  by (induction m) auto

lemma bt_get_new: "\<forall>p\<in>set m. key (fst p) < key k \<Longrightarrow> bt_get key k m = None"
  by (rule bt_get_None) auto

lemma bt_get_in_set: "bt_get key k m = Some v \<Longrightarrow> \<exists>k'. key k' = key k \<and> (k', v) \<in> set m"
  by (induction m) (auto split: if_splits)

lemma bt_in_set_get: "bt_wf key m \<Longrightarrow> (k, v) \<in> set m \<Longrightarrow> bt_get key k m = Some v"
  by (induction m) force+

lemma bt_insert_set: "p \<in> set (bt_insert key k v m) \<Longrightarrow> snd p = v \<or> p \<in> set m"
  by (induction m) (auto split: if_splits)

text \<open>A sum over the values changes by the value that leaves and the value that enters.\<close>

definition opt_sum :: "('v \<Rightarrow> nat) \<Rightarrow> 'v option \<Rightarrow> nat" where
  "opt_sum f x = (case x of None \<Rightarrow> 0 | Some v \<Rightarrow> f v)"

lemma sum_bt_insert:
  "bt_wf key m \<Longrightarrow> sum_list (map (\<lambda>p. f (snd p)) (bt_insert key k v m)) + opt_sum f (bt_get key k m) =
     sum_list (map (\<lambda>p. f (snd p)) m) + f v"
proof (induction m)
  case (Cons p m)
  obtain k' v' where p: "p = (k', v')" by (cases p)
  have "bt_get key k m = None" if "key k < key k'"
    using that Cons.prems p by (intro bt_get_None) force
  with Cons p show ?case by (auto simp: opt_sum_def)
qed (simp add: opt_sum_def)

lemma sum_bt_remove:
  "sum_list (map (\<lambda>p. f (snd p)) (bt_remove key k m)) + opt_sum f (bt_get key k m) =
     sum_list (map (\<lambda>p. f (snd p)) m)"
  by (induction m) (auto simp: opt_sum_def)

lemma length_bt_remove:
  "length (bt_remove key k m) = (if bt_get key k m = None then length m else length m - 1)"
proof (induction m)
  case (Cons p m)
  then show ?case by (cases p; cases m) (auto split: if_splits)
qed simp

end
