(* ===== verification/Header_Map.thy ===== *)
theory Header_Map
  imports Names Btree_Map
begin

text \<open>
  \<open>watermelon-proto/src/headers/map.rs\<close>: \<open>HeaderMap\<close>, a multimap from header names to values that
  counts its values. The keys are compared by \<open>UniCase\<close>, given by the key function \<open>uc\<close>. The
  subtractions of \<open>len\<close> and the \<open>debug_assert!\<close> of \<open>OneOrMany::push\<close> are kept as panics.
\<close>

datatype one_or_many = One header_value | Many "header_value list"

record header_map =
  headers :: "(header_name, one_or_many) btree_map"
  hm_len :: nat

definition hkey :: "(bytes \<Rightarrow> bytes) \<Rightarrow> header_name \<Rightarrow> bytes" where
  "hkey uc n = uc (header_name_as_str n)"

fun one_or_many_len :: "one_or_many \<Rightarrow> nat" where
  "one_or_many_len (One _) = 1"
| "one_or_many_len (Many vec) = length vec"

fun one_or_many_push :: "bool \<Rightarrow> one_or_many \<Rightarrow> header_value \<Rightarrow> one_or_many option" where
  "one_or_many_push dbg (One current_item) item = Some (Many [current_item, item])"
| "one_or_many_push dbg (Many vec) item = do {
     _ \<leftarrow> debug_assert dbg (vec \<noteq> []);
     Some (Many (vec @ [item])) }"

fun one_or_many_iter :: "one_or_many \<Rightarrow> header_value list" where
  "one_or_many_iter (One one) = [one]"
| "one_or_many_iter (Many many) = many"

definition header_map_new :: header_map where
  "header_map_new = \<lparr> headers = [], hm_len = 0 \<rparr>"

definition header_map_get_all :: "(bytes \<Rightarrow> bytes) \<Rightarrow> header_name \<Rightarrow> header_map \<Rightarrow> header_value list" where
  "header_map_get_all uc name m =
     (case bt_get (hkey uc) name (headers m) of None \<Rightarrow> one_or_many_iter (Many [])
      | Some vs \<Rightarrow> one_or_many_iter vs)"

definition header_map_get :: "(bytes \<Rightarrow> bytes) \<Rightarrow> header_name \<Rightarrow> header_map \<Rightarrow> header_value option" where
  "header_map_get uc name m =
     (case header_map_get_all uc name m of [] \<Rightarrow> None | v # _ \<Rightarrow> Some v)"

definition header_map_insert ::
    "(bytes \<Rightarrow> bytes) \<Rightarrow> header_name \<Rightarrow> header_value \<Rightarrow> header_map \<Rightarrow> header_map option" where
  "header_map_insert uc name value m = do {
     n \<leftarrow> (case bt_get (hkey uc) name (headers m) of
             Some prev \<Rightarrow> sub_p (hm_len m) (one_or_many_len prev)
           | None \<Rightarrow> Some (hm_len m));
     Some (m\<lparr>headers := bt_insert (hkey uc) name (One value) (headers m), hm_len := n + 1\<rparr>) }"

definition header_map_append ::
    "bool \<Rightarrow> (bytes \<Rightarrow> bytes) \<Rightarrow> header_name \<Rightarrow> header_value \<Rightarrow> header_map \<Rightarrow> header_map option" where
  "header_map_append dbg uc name value m = do {
     h \<leftarrow> (case bt_get (hkey uc) name (headers m) of
             None \<Rightarrow> Some (bt_insert (hkey uc) name (One value) (headers m))
           | Some occupied \<Rightarrow> do {
               vs \<leftarrow> one_or_many_push dbg occupied value;
               Some (bt_insert (hkey uc) name vs (headers m)) });
     Some (m\<lparr>headers := h, hm_len := hm_len m + 1\<rparr>) }"

definition header_map_remove ::
    "(bytes \<Rightarrow> bytes) \<Rightarrow> header_name \<Rightarrow> header_map \<Rightarrow> header_map option" where
  "header_map_remove uc name m = do {
     n \<leftarrow> (case bt_get (hkey uc) name (headers m) of
             Some prev \<Rightarrow> sub_p (hm_len m) (one_or_many_len prev)
           | None \<Rightarrow> Some (hm_len m));
     Some (m\<lparr>headers := bt_remove (hkey uc) name (headers m), hm_len := n\<rparr>) }"

definition header_map_keys_len :: "header_map \<Rightarrow> nat" where
  "header_map_keys_len m = length (headers m)"

definition header_map_len :: "header_map \<Rightarrow> nat" where
  "header_map_len m = hm_len m"

definition header_map_is_empty :: "header_map \<Rightarrow> bool" where
  "header_map_is_empty m \<longleftrightarrow> headers m = []"

definition header_map_clear :: "header_map \<Rightarrow> header_map" where
  "header_map_clear m = m\<lparr>headers := [], hm_len := 0\<rparr>"

definition header_map_iter :: "header_map \<Rightarrow> (header_name \<times> header_value list) list" where
  "header_map_iter m = map (\<lambda>(name, value). (name, one_or_many_iter value)) (headers m)"

fun header_map_extend ::
    "bool \<Rightarrow> (bytes \<Rightarrow> bytes) \<Rightarrow> (header_name \<times> header_value) list \<Rightarrow> header_map \<Rightarrow> header_map option" where
  "header_map_extend dbg uc [] m = Some m"
| "header_map_extend dbg uc ((name, value) # iter) m = do {
     m \<leftarrow> header_map_append dbg uc name value m;
     header_map_extend dbg uc iter m }"

definition header_map_from_iter ::
    "bool \<Rightarrow> (bytes \<Rightarrow> bytes) \<Rightarrow> (header_name \<times> header_value) list \<Rightarrow> header_map option" where
  "header_map_from_iter dbg uc iter = header_map_extend dbg uc iter header_map_new"

section \<open>Invariant\<close>

text \<open>A \<open>Many\<close> holds at least two values; the keys are in order; \<open>len\<close> is the number of values.\<close>

fun one_or_many_wf :: "one_or_many \<Rightarrow> bool" where
  "one_or_many_wf (One _) = True"
| "one_or_many_wf (Many vec) = (2 \<le> length vec)"

definition total_len :: "(header_name, one_or_many) btree_map \<Rightarrow> nat" where
  "total_len h = sum_list (map (\<lambda>p. one_or_many_len (snd p)) h)"

definition header_map_inv :: "(bytes \<Rightarrow> bytes) \<Rightarrow> header_map \<Rightarrow> bool" where
  "header_map_inv uc m \<longleftrightarrow> bt_wf (hkey uc) (headers m) \<and>
     (\<forall>p\<in>set (headers m). one_or_many_wf (snd p)) \<and> hm_len m = total_len (headers m)"

text \<open>The abstract multimap: the list of values under a key.\<close>

definition header_map_view :: "(bytes \<Rightarrow> bytes) \<Rightarrow> header_map \<Rightarrow> header_name \<Rightarrow> header_value list" where
  "header_map_view uc m n = header_map_get_all uc n m"

lemma one_or_many_iter_length [simp]: "length (one_or_many_iter vs) = one_or_many_len vs"
  by (cases vs) auto

lemma one_or_many_wf_nonempty: "one_or_many_wf vs \<Longrightarrow> one_or_many_iter vs \<noteq> []"
  by (cases vs) auto

lemma one_or_many_push_wf:
  "one_or_many_wf vs \<Longrightarrow> \<exists>vs'. one_or_many_push dbg vs v = Some vs' \<and> one_or_many_wf vs' \<and>
     one_or_many_iter vs' = one_or_many_iter vs @ [v] \<and> one_or_many_len vs' = one_or_many_len vs + 1"
  by (cases vs) (auto simp: debug_assert_def)

lemma header_map_inv_get:
  "header_map_inv uc m \<Longrightarrow> bt_get (hkey uc) n (headers m) = Some vs \<Longrightarrow> one_or_many_wf vs"
  by (auto simp: header_map_inv_def dest!: bt_get_in_set)

lemma total_len_insert:
  "bt_wf (hkey uc) h \<Longrightarrow>
     total_len (bt_insert (hkey uc) n vs h) + opt_sum one_or_many_len (bt_get (hkey uc) n h) =
     total_len h + one_or_many_len vs"
  unfolding total_len_def by (rule sum_bt_insert)

lemma total_len_remove:
  "total_len (bt_remove (hkey uc) n h) + opt_sum one_or_many_len (bt_get (hkey uc) n h) = total_len h"
  unfolding total_len_def by (rule sum_bt_remove)

lemma header_map_inv_insert:
  assumes "header_map_inv uc m" "one_or_many_wf vs"
    and "k + opt_sum one_or_many_len (bt_get (hkey uc) n (headers m)) = hm_len m + one_or_many_len vs"
  shows "header_map_inv uc (m\<lparr>headers := bt_insert (hkey uc) n vs (headers m), hm_len := k\<rparr>)"
  using assms total_len_insert [of uc "headers m" n vs]
  by (auto simp: header_map_inv_def bt_wf_insert dest!: bt_insert_set)

lemma header_map_new_inv [simp]: "header_map_inv uc header_map_new"
  by (simp add: header_map_inv_def header_map_new_def total_len_def)

lemma header_map_clear_inv: "header_map_inv uc (header_map_clear m)"
  by (simp add: header_map_inv_def header_map_clear_def total_len_def)

text \<open>Each operation succeeds on a map that satisfies the invariant, keeps it, and acts on the
  abstract multimap as its documentation says.\<close>

lemma header_map_append_spec:
  assumes inv: "header_map_inv uc m"
  shows "\<exists>m'. header_map_append dbg uc n v m = Some m' \<and> header_map_inv uc m' \<and>
    (\<forall>k. header_map_view uc m' k =
       (if hkey uc k = hkey uc n then header_map_view uc m n @ [v] else header_map_view uc m k)) \<and>
    hm_len m' = hm_len m + 1"
proof (cases "bt_get (hkey uc) n (headers m)")
  case None
  have "header_map_inv uc (m\<lparr>headers := bt_insert (hkey uc) n (One v) (headers m),
      hm_len := hm_len m + 1\<rparr>)"
    by (rule header_map_inv_insert [OF inv]) (simp_all add: None opt_sum_def)
  with inv None show ?thesis
    by (simp add: header_map_append_def header_map_view_def header_map_get_all_def header_map_inv_def)
next
  case (Some vs)
  then obtain vs' where vs': "one_or_many_push dbg vs v = Some vs'" "one_or_many_wf vs'"
      "one_or_many_iter vs' = one_or_many_iter vs @ [v]" "one_or_many_len vs' = one_or_many_len vs + 1"
    using one_or_many_push_wf [OF header_map_inv_get [OF inv]] by metis
  have "header_map_inv uc (m\<lparr>headers := bt_insert (hkey uc) n vs' (headers m),
      hm_len := hm_len m + 1\<rparr>)"
    by (rule header_map_inv_insert [OF inv vs'(2)]) (simp add: Some opt_sum_def vs'(4))
  with inv Some vs' show ?thesis
    by (simp add: header_map_append_def header_map_view_def header_map_get_all_def header_map_inv_def)
qed

lemma opt_sum_le_len:
  assumes "header_map_inv uc m"
  shows "opt_sum one_or_many_len (bt_get (hkey uc) n (headers m)) \<le> hm_len m"
  using total_len_remove [of uc n "headers m"] assms by (simp add: header_map_inv_def)

lemma header_map_insert_spec:
  assumes inv: "header_map_inv uc m"
  shows "\<exists>m'. header_map_insert uc n v m = Some m' \<and> header_map_inv uc m' \<and>
    (\<forall>k. header_map_view uc m' k = (if hkey uc k = hkey uc n then [v] else header_map_view uc m k))"
proof -
  let ?o = "opt_sum one_or_many_len (bt_get (hkey uc) n (headers m))"
  have "header_map_inv uc (m\<lparr>headers := bt_insert (hkey uc) n (One v) (headers m),
      hm_len := hm_len m - ?o + 1\<rparr>)"
    using opt_sum_le_len [OF inv, of n] by (intro header_map_inv_insert [OF inv]) simp_all
  with inv opt_sum_le_len [OF inv, of n] show ?thesis
    by (auto simp: header_map_insert_def header_map_view_def header_map_get_all_def header_map_inv_def
        opt_sum_def split: option.splits)
qed

lemma header_map_remove_spec:
  assumes inv: "header_map_inv uc m"
  shows "\<exists>m'. header_map_remove uc n m = Some m' \<and> header_map_inv uc m' \<and>
    (\<forall>k. header_map_view uc m' k = (if hkey uc k = hkey uc n then [] else header_map_view uc m k))"
proof -
  let ?o = "opt_sum one_or_many_len (bt_get (hkey uc) n (headers m))"
  have "header_map_inv uc (m\<lparr>headers := bt_remove (hkey uc) n (headers m), hm_len := hm_len m - ?o\<rparr>)"
    using inv total_len_remove [of uc n "headers m"] set_bt_remove [of "hkey uc" n "headers m"]
    by (auto simp: header_map_inv_def bt_wf_remove)
  with inv opt_sum_le_len [OF inv, of n] show ?thesis
    by (auto simp: header_map_remove_def header_map_view_def header_map_get_all_def header_map_inv_def
        opt_sum_def split: option.splits)
qed

section \<open>Collecting what was iterated\<close>

text \<open>The flat list of headers, in the order they are written to the wire.\<close>

definition header_map_pairs :: "header_map \<Rightarrow> (header_name \<times> header_value) list" where
  "header_map_pairs m = concat (map (\<lambda>(n, vs). map (Pair n) vs) (header_map_iter m))"

lemma header_map_extend_append:
  "header_map_extend dbg uc (xs @ ys) m =
     Option.bind (header_map_extend dbg uc xs m) (header_map_extend dbg uc ys)"
  by (induction xs arbitrary: m) (auto simp: Option.bind_assoc split: bind_splits)

lemma header_map_extend_total:
  "header_map_inv uc m \<Longrightarrow> \<exists>m'. header_map_extend dbg uc hs m = Some m' \<and> header_map_inv uc m'"
proof (induction hs arbitrary: m)
  case (Cons h hs)
  then show ?case using header_map_append_spec [of uc m dbg "fst h" "snd h"] by (cases h) fastforce
qed simp

lemma extend_many:
  assumes "\<forall>p\<in>set h. hkey uc (fst p) < hkey uc n" and "vec \<noteq> []"
  shows "header_map_extend dbg uc (map (Pair n) vs) \<lparr>headers = h @ [(n, Many vec)], hm_len = k\<rparr> =
    Some \<lparr>headers = h @ [(n, Many (vec @ vs))], hm_len = k + length vs\<rparr>"
  using assms(2)
proof (induction vs arbitrary: vec k)
  case (Cons v vs)
  from Cons.IH [of "vec @ [v]" "k + 1"] Cons.prems show ?case
    by (simp add: header_map_append_def bt_get_last [OF assms(1)] debug_assert_def
        bt_insert_replace_last [OF assms(1)])
qed simp

lemma extend_values:
  assumes lt: "\<forall>p\<in>set h. hkey uc (fst p) < hkey uc n" and "one_or_many_wf vs"
  shows "header_map_extend dbg uc (map (Pair n) (one_or_many_iter vs)) \<lparr>headers = h, hm_len = k\<rparr> =
    Some \<lparr>headers = h @ [(n, vs)], hm_len = k + one_or_many_len vs\<rparr>"
proof (cases vs)
  case (One v)
  then show ?thesis
    by (simp add: header_map_append_def bt_get_new [OF lt] bt_insert_last [OF lt])
next
  case (Many vec)
  with assms(2) obtain a b ws where vec: "vec = a # b # ws"
    by (cases vec; cases "tl vec") auto
  with extend_many [OF lt, of "[a, b]" dbg ws "k + 2"] Many show ?thesis
    by (simp add: header_map_append_def bt_get_new [OF lt] bt_insert_last [OF lt]
        bt_get_last [OF lt] bt_insert_replace_last [OF lt])
qed

lemma header_map_from_iter_pairs:
  assumes "header_map_inv uc m"
  shows "header_map_from_iter dbg uc (header_map_pairs m) = Some m"
proof -
  define h where "h = headers m"
  have "header_map_extend dbg uc (header_map_pairs \<lparr>headers = h, hm_len = k\<rparr>) header_map_new =
      Some \<lparr>headers = h, hm_len = total_len h\<rparr>"
    if "bt_wf (hkey uc) h" "\<forall>p\<in>set h. one_or_many_wf (snd p)" for h k
    using that
  proof (induction h rule: rev_induct)
    case Nil
    then show ?case
      by (simp add: header_map_pairs_def header_map_iter_def header_map_new_def total_len_def)
  next
    case (snoc p h)
    obtain n vs where p: "p = (n, vs)" by (cases p)
    from snoc show ?case
      by (simp add: header_map_pairs_def header_map_iter_def header_map_extend_append p bt_wf_snoc
          extend_values total_len_def)
  qed
  from this [of h "hm_len m"] assms show ?thesis
    by (simp add: header_map_from_iter_def header_map_inv_def h_def header_map_pairs_def
        header_map_iter_def)
qed

text \<open>Collecting the pairs a well formed map iterates over gives back the same map.\<close>

lemma header_map_collect:
  assumes "header_map_inv uc m"
  shows "header_map_from_iter dbg uc (concat (map (\<lambda>(n, vs). map (Pair n) vs) (header_map_iter m))) = Some m"
  using header_map_from_iter_pairs [OF assms, of dbg] unfolding header_map_pairs_def .

text \<open>Inserting a header in a well formed map replaces all the values of the name by the one given,
  removing it removes them all; neither underflows the length, both keep the map well formed and leave
  every other name alone.\<close>

lemma header_map_edit:
  assumes "header_map_inv uc m"
  shows "(\<exists>m'. header_map_insert uc n v m = Some m' \<and> header_map_inv uc m' \<and>
      (\<forall>k. header_map_get_all uc k m' = (if hkey uc k = hkey uc n then [v] else header_map_get_all uc k m))) \<and>
    (\<exists>m'. header_map_remove uc n m = Some m' \<and> header_map_inv uc m' \<and>
      (\<forall>k. header_map_get_all uc k m' = (if hkey uc k = hkey uc n then [] else header_map_get_all uc k m)))"
  using header_map_insert_spec [OF assms, of n v] header_map_remove_spec [OF assms, of n]
  unfolding header_map_view_def by blast

section \<open>Properties\<close>

text \<open>C27: Appending a header to a well formed map does not panic, keeps the map well formed with its
  length one greater, puts the value last among the values of the names equal to it without
  regard to case, and leaves every other name alone.\<close>

theorem header_map_append:
  assumes "header_map_inv uc m"
  shows "\<exists>m'. header_map_append dbg uc n v m = Some m' \<and> header_map_inv uc m' \<and>
    (\<forall>k. header_map_get_all uc k m' =
       (if hkey uc k = hkey uc n then header_map_get_all uc n m @ [v] else header_map_get_all uc k m)) \<and>
    header_map_len m' = header_map_len m + 1"
  using header_map_append_spec [OF assms, of dbg n v] unfolding header_map_view_def header_map_len_def by blast

lemma header_map_append_witness:
  "\<exists>m'. header_map_append True (map to_ascii_lowercase) (HeaderName ''A'') (HeaderValue ''1'') header_map_new = Some m' \<and>
    header_map_get_all (map to_ascii_lowercase) (HeaderName ''a'') m' = [HeaderValue ''1'']"
proof -
  have "hkey (map to_ascii_lowercase) (HeaderName ''a'') = hkey (map to_ascii_lowercase) (HeaderName ''A'')"
    by code_simp
  moreover have "header_map_get_all (map to_ascii_lowercase) (HeaderName ''A'') header_map_new = []"
    by (simp add: header_map_get_all_def header_map_new_def)
  ultimately show ?thesis
    using header_map_append [OF header_map_new_inv, of True "map to_ascii_lowercase" "HeaderName ''A''" "HeaderValue ''1''"]
    by (elim ex_forward) simp
qed

end
