(* ===== verification/Uint.thy ===== *)
theory Uint
  imports Rust_Std
begin

text \<open>
  \<open>watermelon-proto/src/util/uint.rs\<close>: the macro \<open>parse_unsigned!\<close> and its instances, and
  \<open>subscription_id.rs\<close>, which is built on one of them. The macro's body is polymorphic in the width.
\<close>

datatype parse_uint_error = Empty | InvalidByte byte | Overflow

fun parse_unsigned_loop :: "'a::len word \<Rightarrow> bytes \<Rightarrow> parse_uint_error + 'a word" where
  "parse_unsigned_loop val [] = Ok val"
| "parse_unsigned_loop val (b # buf) =
     (if \<not> is_ascii_digit b then Err (InvalidByte b)
      else and_then (ok_or Overflow (checked_mul val 10)) (\<lambda>val.
           and_then (ok_or Overflow (checked_add val (of_nat (byte_val b - 48)))) (\<lambda>val.
           parse_unsigned_loop val buf)))"

definition parse_unsigned :: "bytes \<Rightarrow> parse_uint_error + 'a::len word" where
  "parse_unsigned buf = (if buf = [] then Err Empty else parse_unsigned_loop 0 buf)"

definition parse_u16 :: "bytes \<Rightarrow> parse_uint_error + u16" where
  "parse_u16 buf = parse_unsigned buf"

definition parse_u64 :: "bytes \<Rightarrow> parse_uint_error + u64" where
  "parse_u64 buf = parse_unsigned buf"

definition parse_usize :: "bytes \<Rightarrow> parse_uint_error + usize" where
  "parse_usize buf = parse_unsigned buf"

section \<open>Subscription identifiers\<close>

type_synonym subscription_id = u64

definition subscription_id_min :: subscription_id where "subscription_id_min = 1"
definition subscription_id_max :: subscription_id where "subscription_id_max = - 1"

definition subscription_id_from_ascii_bytes :: "bytes \<Rightarrow> parse_uint_error + subscription_id" where
  "subscription_id_from_ascii_bytes buf = parse_u64 buf"

definition subscription_id_fmt :: "subscription_id \<Rightarrow> bytes" where
  "subscription_id_fmt i = dec (unat i)"

section \<open>The value of a digit string\<close>

definition dec_value_from :: "nat \<Rightarrow> bytes \<Rightarrow> nat" where
  "dec_value_from = foldl (\<lambda>a b. 10 * a + (byte_val b - 48))"

definition dec_value :: "bytes \<Rightarrow> nat" where
  "dec_value = dec_value_from 0"

lemma dec_value_from_simps [simp]:
  "dec_value_from a [] = a"
  "dec_value_from a (b # bs) = dec_value_from (10 * a + (byte_val b - 48)) bs"
  by (simp_all add: dec_value_from_def)

lemma dec_value_from_append [simp]:
  "dec_value_from a (xs @ ys) = dec_value_from (dec_value_from a xs) ys"
  by (simp add: dec_value_from_def)

lemma dec_value_from_mono: "a \<le> dec_value_from a bs"
proof (induction bs arbitrary: a)
  case (Cons b bs)
  from Cons [of "10 * a + (byte_val b - 48)"] show ?case by simp
qed simp

lemma dec_value_dec [simp]: "dec_value (dec n) = n"
  unfolding dec_value_def
proof (induction n rule: dec.induct)
  case (1 n)
  show ?case
  proof (cases "n < 10")
    case True
    then show ?thesis by (subst dec.simps) simp
  next
    case False
    with 1 have "dec_value_from 0 (dec (n div 10)) = n div 10" by simp
    with False show ?thesis by (subst dec.simps) simp
  qed
qed

text \<open>What the loop computes from an accumulator, as one equation over the leading digits.\<close>

lemma digit_value_less: "is_ascii_digit b \<Longrightarrow> byte_val b - 48 < 10"
  unfolding is_ascii_digit_def by linarith

lemma unat_small:
  assumes "4 \<le> LENGTH('a::len)" and "d \<le> 10"
  shows "unat (of_nat d :: 'a word) = d"
proof -
  have "(2::nat) ^ 4 \<le> 2 ^ LENGTH('a)"
    using assms(1) by (rule power_increasing) simp
  with assms(2) show ?thesis by (simp add: unat_of_nat)
qed

lemma parse_unsigned_loop_eq:
  fixes val :: "'a::len word"
  assumes w: "4 \<le> LENGTH('a)"
  shows "parse_unsigned_loop val buf =
    (let ds = takeWhile is_ascii_digit buf; n = dec_value_from (unat val) ds in
     if 2 ^ LENGTH('a) \<le> n then Err Overflow
     else if ds = buf then Ok (of_nat n)
     else Err (InvalidByte (buf ! length ds)))"
proof (induction buf arbitrary: val)
  case Nil
  show ?case by (simp add: Let_def not_le)
next
  case (Cons b buf)
  show ?case
  proof (cases "is_ascii_digit b")
    case False
    then show ?thesis by (simp add: Let_def not_le)
  next
    case True
    define d where "d = byte_val b - 48"
    have d: "d < 10" using True digit_value_less by (simp add: d_def)
    have ten: "unat (10 :: 'a word) = 10" and dw: "unat (of_nat d :: 'a word) = d"
      using unat_small [OF w, of 10] unat_small [OF w, of d] d by simp_all
    have "(10::nat) < 2 ^ LENGTH('a)"
      using power_increasing [OF w, of "2 :: nat"] by simp
    then have tb: "take_bit LENGTH('a) (10::nat) = 10" by (rule take_bit_nat_eq_self)
    have le: "10 * unat val + d \<le> dec_value_from (10 * unat val + d) (takeWhile is_ascii_digit buf)"
      by (rule dec_value_from_mono)
    show ?thesis
    proof (cases "10 * unat val + d < 2 ^ LENGTH('a)")
      case over: False
      with le True show ?thesis
        by (auto simp: checked_mul_def checked_add_def ten tb dw unat_word_ariths d_def [symmetric]
            Let_def mult.commute split: if_splits)
    next
      case fits: True
      then have "unat (val * 10 + of_nat d :: 'a word) = 10 * unat val + d"
        by (simp add: unat_word_ariths ten tb dw mult.commute)
      with fits True Cons.IH [of "val * 10 + of_nat d"] show ?thesis
        by (simp add: checked_mul_def checked_add_def ten tb dw unat_word_ariths d_def [symmetric]
            Let_def mult.commute)
    qed
  qed
qed

text \<open>The reference: reject the empty input, then an overflow of the leading digits, then the
  first byte that is no digit.\<close>

definition parse_unsigned_ref :: "nat \<Rightarrow> bytes \<Rightarrow> parse_uint_error + nat" where
  "parse_unsigned_ref bits buf =
     (let ds = takeWhile is_ascii_digit buf in
      if buf = [] then Err Empty
      else if 2 ^ bits \<le> dec_value ds then Err Overflow
      else if ds \<noteq> buf then Err (InvalidByte (buf ! length ds))
      else Ok (dec_value ds))"

lemma parse_unsigned_eq_ref:
  assumes "4 \<le> LENGTH('a::len)"
  shows "(parse_unsigned buf :: _ + 'a word) = map_ok of_nat (parse_unsigned_ref LENGTH('a) buf)"
  by (simp add: parse_unsigned_def parse_unsigned_loop_eq [OF assms] parse_unsigned_ref_def Let_def
      dec_value_def)

lemma takeWhile_dec [simp]: "takeWhile is_ascii_digit (dec n) = dec n"
  using dec_digits by (simp add: takeWhile_eq_all_conv)

lemma parse_unsigned_dec:
  fixes n :: nat
  assumes "4 \<le> LENGTH('a::len)" and "n < 2 ^ LENGTH('a)"
  shows "(parse_unsigned (dec n) :: _ + 'a word) = Ok (of_nat n)"
proof -
  have "parse_unsigned_ref LENGTH('a) (dec n) = Ok n"
    using assms(2) by (simp add: parse_unsigned_ref_def Let_def)
  then show ?thesis
    by (simp add: parse_unsigned_eq_ref [OF assms(1)])
qed

lemma parse_usize_dec: "n < 2 ^ 64 \<Longrightarrow> parse_usize (dec n) = Ok (of_nat n)"
  by (simp add: parse_usize_def parse_unsigned_dec)

lemma parse_u64_dec: "parse_u64 (dec (unat v)) = Ok v"
  unfolding parse_u64_def
  by (subst parse_unsigned_dec) (simp_all add: unsigned_less [of v, simplified])

lemma parse_u16_dec: "n < 2 ^ 16 \<Longrightarrow> parse_u16 (dec n) = Ok (of_nat n)"
  by (simp add: parse_u16_def parse_unsigned_dec)

section \<open>Properties\<close>

text \<open>C40: The decimal parser, which multiplies and adds with overflow checks byte by byte, agrees on
  every input with the direct description: no input is Empty, a run of leading digits worth 2^64
  or more is Overflow even if an invalid byte follows, otherwise the first byte that is no digit
  is InvalidByte, otherwise the value. So every 64 bit subscription id is printed in decimal and
  read back as itself.\<close>

theorem parse_usize_reference:
  "parse_usize buf = map_ok of_nat (parse_unsigned_ref 64 buf) \<and>
   subscription_id_from_ascii_bytes (subscription_id_fmt sid) = Ok sid"
  by (simp add: parse_usize_def parse_unsigned_eq_ref subscription_id_from_ascii_bytes_def subscription_id_fmt_def
      parse_u64_dec)

end
