(* ===== verification/Status_Code.thy ===== *)
theory Status_Code
  imports Uint
begin

text \<open>\<open>watermelon-proto/src/status_code.rs\<close>: the status code of a message head.\<close>

datatype status_code = StatusCode (status_code_val: u16)

datatype status_code_error = StatusCodeError

definition IDLE_HEARTBEAT :: status_code where "IDLE_HEARTBEAT = StatusCode 100"
definition OK :: status_code where "OK = StatusCode 200"
definition NOT_FOUND :: status_code where "NOT_FOUND = StatusCode 404"
definition TIMEOUT :: status_code where "TIMEOUT = StatusCode 408"
definition CONFLICT :: status_code where "CONFLICT = StatusCode 409"
definition NO_RESPONDERS :: status_code where "NO_RESPONDERS = StatusCode 503"

lemmas status_code_constants =
  IDLE_HEARTBEAT_def OK_def NOT_FOUND_def TIMEOUT_def CONFLICT_def NO_RESPONDERS_def

text \<open>The conversion of a \<open>u16\<close> to a \<open>NonZero<u16>\<close>.\<close>

definition nonzero_u16 :: "u16 \<Rightarrow> status_code_error + u16" where
  "nonzero_u16 v = (if v = 0 then Err StatusCodeError else Ok v)"

definition status_code_from_ascii_bytes :: "bytes \<Rightarrow> status_code_error + status_code" where
  "status_code_from_ascii_bytes buf =
     (if length buf \<noteq> 3 then Err StatusCodeError
      else and_then (map_err (\<lambda>_. StatusCodeError) (parse_u16 buf)) (\<lambda>n.
           map_ok StatusCode (nonzero_u16 n)))"

definition status_code_try_from :: "u16 \<Rightarrow> status_code_error + status_code" where
  "status_code_try_from value =
     (if 100 \<le> value \<and> value < 1000 then Ok (StatusCode value) else Err StatusCodeError)"

definition status_code_fmt :: "status_code \<Rightarrow> bytes" where
  "status_code_fmt c = dec (unat (status_code_val c))"

definition status_code_deserialize :: "('e + u16) \<Rightarrow> ('e \<Rightarrow> 'f) \<Rightarrow> (status_code_error \<Rightarrow> 'f) \<Rightarrow> 'f + status_code" where
  "status_code_deserialize n de custom =
     and_then (map_err de n) (\<lambda>n. map_err custom (status_code_try_from n))"

lemma dec_value_less: "\<forall>b\<in>set ds. is_ascii_digit b \<Longrightarrow> dec_value_from a ds < (a + 1) * 10 ^ length ds"
proof (induction ds arbitrary: a)
  case (Cons b ds)
  define d where "d = byte_val b - 48"
  have "d < 10" unfolding d_def using Cons.prems by (intro digit_value_less) simp
  then have "10 * a + d + 1 \<le> (a + 1) * 10" by simp
  then have "(10 * a + d + 1) * 10 ^ length ds \<le> (a + 1) * 10 * 10 ^ length ds"
    by (rule mult_le_mono1)
  moreover have "dec_value_from (10 * a + d) ds < (10 * a + d + 1) * 10 ^ length ds"
    by (rule Cons.IH) (use Cons.prems in simp)
  ultimately show ?case by (simp add: d_def algebra_simps)
qed simp

lemma status_code_from_ascii_bytes_iff:
  "status_code_from_ascii_bytes buf = Ok c \<longleftrightarrow>
     length buf = 3 \<and> (\<forall>b\<in>set buf. is_ascii_digit b) \<and> dec_value buf \<noteq> 0 \<and>
     c = StatusCode (of_nat (dec_value buf))"
proof (cases "length buf = 3 \<and> (\<forall>b\<in>set buf. is_ascii_digit b)")
  case True
  then have digits: "takeWhile is_ascii_digit buf = buf" and "buf \<noteq> []" by auto
  have small: "dec_value buf < 1000"
    using dec_value_less [of buf 0] True by (simp add: dec_value_def)
  have "parse_unsigned_ref 16 buf = Ok (dec_value buf)"
    unfolding parse_unsigned_ref_def digits Let_def using small \<open>buf \<noteq> []\<close> by simp
  then have "parse_u16 buf = Ok (of_nat (dec_value buf))"
    by (simp add: parse_u16_def parse_unsigned_eq_ref)
  moreover have "(of_nat (dec_value buf) :: u16) = 0 \<longleftrightarrow> dec_value buf = 0"
    using small by (auto simp: word_of_nat_eq_0_iff dest: dvd_imp_le)
  ultimately
  show ?thesis using True
    by (auto simp: status_code_from_ascii_bytes_def nonzero_u16_def)
next
  case False
  then have "length buf = 3 \<Longrightarrow> is_ok (parse_u16 buf) \<Longrightarrow> False"
    using takeWhile_eq_all_conv [of is_ascii_digit buf]
    by (simp add: parse_u16_def parse_unsigned_eq_ref parse_unsigned_ref_def Let_def split: if_splits)
  then have "\<not> is_ok (status_code_from_ascii_bytes buf)"
    by (cases "parse_u16 buf") (auto simp: status_code_from_ascii_bytes_def)
  then show ?thesis
    by (metis False is_ok_simps(2))
qed

text \<open>A status code is read from exactly three decimal digits that are not all zero, and its value is
  their decimal value.\<close>

lemma status_code_parse:
  "status_code_from_ascii_bytes buf = Ok c \<longleftrightarrow>
     length buf = 3 \<and> (\<forall>b\<in>set buf. is_ascii_digit b) \<and> dec_value buf \<noteq> 0 \<and>
     c = StatusCode (of_nat (dec_value buf))"
  by (rule status_code_from_ascii_bytes_iff)

end
