(* ===== verification/Server_Error.thy ===== *)
theory Server_Error
  imports Rust_Std
begin

text \<open>\<open>watermelon-proto/src/server_error.rs\<close>: the errors of \<open>-ERR\<close> lines.\<close>

datatype server_error =
    InvalidSubject | PublishPermissionViolation | SubscribePermissionViolation
  | UnknownProtocolOperation | ConnectionAttemptedToWrongPort
  | AuthorizationViolation | AuthorizationTimeout | InvalidClientProtocol
  | MaximumControlLineExceeded | ParseError | TlsRequired | StaleConnection
  | MaximumConnectionsExceeded | SlowConsumer | MaximumPayloadViolation
  | Other bytes

fun is_fatal :: "server_error \<Rightarrow> bool option" where
  "is_fatal InvalidSubject = Some False"
| "is_fatal PublishPermissionViolation = Some False"
| "is_fatal SubscribePermissionViolation = Some False"
| "is_fatal (Other _) = None"
| "is_fatal _ = Some True"

definition publish_permissions :: bytes where
  "publish_permissions = ''Permissions Violation for Publish''"

definition subscription_permissions :: bytes where
  "subscription_permissions = ''Permissions Violation for Subscription''"

definition matches_prefix :: "bytes \<Rightarrow> bytes \<Rightarrow> bool" where
  "matches_prefix bytes needle \<longleftrightarrow>
     length bytes > length needle \<and> eq_ignore_ascii_case (take (length needle) bytes) needle"

definition server_error_parse :: "bytes \<Rightarrow> server_error" where
  "server_error_parse raw_message =
     (let m = str_trim raw_message in
      if eq_ignore_ascii_case m ''Invalid Subject'' then InvalidSubject
      else if matches_prefix m publish_permissions then PublishPermissionViolation
      else if matches_prefix m subscription_permissions then SubscribePermissionViolation
      else if eq_ignore_ascii_case m ''Unknown Protocol Operation'' then UnknownProtocolOperation
      else if eq_ignore_ascii_case m ''Attempted To Connect To Route Port''
        then ConnectionAttemptedToWrongPort
      else if eq_ignore_ascii_case m ''Authorization Violation'' then AuthorizationViolation
      else if eq_ignore_ascii_case m ''Authorization Timeout'' then AuthorizationTimeout
      else if eq_ignore_ascii_case m ''Invalid Client Protocol'' then InvalidClientProtocol
      else if eq_ignore_ascii_case m ''Maximum Control Line Exceeded'' then MaximumControlLineExceeded
      else if eq_ignore_ascii_case m ''Parser Error'' then ParseError
      else if eq_ignore_ascii_case m ''Secure Connection - TLS Required'' then TlsRequired
      else if eq_ignore_ascii_case m ''Stale Connection'' then StaleConnection
      else if eq_ignore_ascii_case m ''Maximum Connections Exceeded'' then MaximumConnectionsExceeded
      else if eq_ignore_ascii_case m ''Slow Consumer'' then SlowConsumer
      else if eq_ignore_ascii_case m ''Maximum Payload Violation'' then MaximumPayloadViolation
      else Other raw_message)"

text \<open>The texts of the server that name an error by themselves.\<close>

definition exact_messages :: "(bytes \<times> server_error) list" where
  "exact_messages =
     [(''Invalid Subject'', InvalidSubject),
      (''Unknown Protocol Operation'', UnknownProtocolOperation),
      (''Attempted To Connect To Route Port'', ConnectionAttemptedToWrongPort),
      (''Authorization Violation'', AuthorizationViolation),
      (''Authorization Timeout'', AuthorizationTimeout),
      (''Invalid Client Protocol'', InvalidClientProtocol),
      (''Maximum Control Line Exceeded'', MaximumControlLineExceeded),
      (''Parser Error'', ParseError),
      (''Secure Connection - TLS Required'', TlsRequired),
      (''Stale Connection'', StaleConnection),
      (''Maximum Connections Exceeded'', MaximumConnectionsExceeded),
      (''Slow Consumer'', SlowConsumer),
      (''Maximum Payload Violation'', MaximumPayloadViolation)]"

text \<open>A reference: the table first, then the two prefixes, else the raw text.\<close>

definition server_error_ref :: "bytes \<Rightarrow> server_error" where
  "server_error_ref raw =
     (let m = str_trim raw in
      case find (\<lambda>(t, _). eq_ignore_ascii_case m t) exact_messages of
        Some (_, e) \<Rightarrow> e
      | None \<Rightarrow>
          if matches_prefix m publish_permissions then PublishPermissionViolation
          else if matches_prefix m subscription_permissions then SubscribePermissionViolation
          else Other raw)"

lemma eq_ignore_ascii_case_sym: "eq_ignore_ascii_case a b \<longleftrightarrow> eq_ignore_ascii_case b a"
  by (auto simp: eq_ignore_ascii_case_def)

lemma matches_prefix_lower:
  "matches_prefix m p \<longleftrightarrow> length m > length p \<and>
     take (length p) (map to_ascii_lowercase m) = map to_ascii_lowercase p"
  by (auto simp: matches_prefix_def eq_ignore_ascii_case_def take_map)

text \<open>A message of the table is not one of the two permission messages.\<close>

lemma exact_not_prefix:
  "list_all (\<lambda>(t, _). \<not> matches_prefix t publish_permissions \<and>
     \<not> matches_prefix t subscription_permissions) exact_messages"
  by code_simp

lemma matches_prefix_cong:
  "eq_ignore_ascii_case m t \<Longrightarrow> matches_prefix m p \<longleftrightarrow> matches_prefix t p"
  by (simp add: matches_prefix_lower eq_ignore_ascii_case_def) (metis length_map)

lemma server_error_parse_eq_ref: "server_error_parse raw = server_error_ref raw"
proof -
  let ?m = "str_trim raw"
  have np: "\<not> matches_prefix ?m publish_permissions \<and> \<not> matches_prefix ?m subscription_permissions"
    if "(t, e) \<in> set exact_messages" "eq_ignore_ascii_case ?m t" for t e
    using that exact_not_prefix matches_prefix_cong [OF that(2)] by (fastforce simp: list_all_iff)
  have "\<not> matches_prefix ?m publish_permissions" "\<not> matches_prefix ?m subscription_permissions"
    if "\<exists>(t, e)\<in>set exact_messages. eq_ignore_ascii_case ?m t"
    using that np by blast+
  then show ?thesis
    by (auto simp: server_error_parse_def server_error_ref_def exact_messages_def Let_def)
qed

text \<open>The error messages of the server are classified, without regard to case and surrounding white space,
  as a table of exact messages followed by the two permission prefixes does, and what matches none is
  kept verbatim.\<close>

lemma server_error_reference: "server_error_parse raw = server_error_ref raw"
  by (rule server_error_parse_eq_ref)

end
