(* ===== verification/Std_Net.thy ===== *)
theory Std_Net
  imports Uint
begin

text \<open>
  \<open>std::net::IpAddr\<close>: addresses, their text, and the parser of \<open>FromStr\<close>. An IPv4 address is its four
  octets, an IPv6 address the list of its eight segments. A parser takes the input and returns the
  value read and the rest, or \<open>None\<close>; like the library's it gives nothing back on failure.
\<close>

datatype ip_addr = V4 "8 word" "8 word" "8 word" "8 word" | V6 "u16 list"

section \<open>Text\<close>

definition ipv4_fmt :: "8 word \<Rightarrow> 8 word \<Rightarrow> 8 word \<Rightarrow> 8 word \<Rightarrow> bytes" where
  "ipv4_fmt a b c d = dec (unat a) @ ''.'' @ dec (unat b) @ ''.'' @ dec (unat c) @ ''.'' @ dec (unat d)"

definition hex_char :: "nat \<Rightarrow> byte" where
  "hex_char d = char_of (if d < 10 then 48 + d else 87 + d)"

fun hex :: "nat \<Rightarrow> bytes" where
  "hex n = (if n < 16 then [hex_char n] else hex (n div 16) @ [hex_char (n mod 16)])"

declare hex.simps [simp del]

fun join_segments :: "u16 list \<Rightarrow> bytes" where
  "join_segments [] = []"
| "join_segments [s] = hex (unat s)"
| "join_segments (s # ss) = hex (unat s) @ '':'' @ join_segments ss"

text \<open>The longest run of zero segments, the first one of that length: its start and length.\<close>

fun longest_zeroes :: "u16 list \<Rightarrow> nat \<Rightarrow> nat \<times> nat \<Rightarrow> nat \<times> nat \<Rightarrow> nat \<times> nat" where
  "longest_zeroes [] i current longest = longest"
| "longest_zeroes (s # ss) i current longest =
     (if s = 0 then
        (let current = (if snd current = 0 then i else fst current, snd current + 1) in
         longest_zeroes ss (i + 1) current (if snd current > snd longest then current else longest))
      else longest_zeroes ss (i + 1) (0, 0) longest)"

definition ipv6_fmt :: "u16 list \<Rightarrow> bytes" where
  "ipv6_fmt ss =
     (if length ss = 8 \<and> take 6 ss = [0, 0, 0, 0, 0, 0xFFFF] then
        ''::ffff:'' @ ipv4_fmt (ucast (drop_bit 8 (ss ! 6))) (ucast (ss ! 6))
          (ucast (drop_bit 8 (ss ! 7))) (ucast (ss ! 7))
      else let (start, n) = longest_zeroes ss 0 (0, 0) (0, 0) in
        if n > 1 then join_segments (take start ss) @ ''::'' @ join_segments (drop (start + n) ss)
        else join_segments ss)"

definition ip_addr_fmt :: "ip_addr \<Rightarrow> bytes" where
  "ip_addr_fmt ip = (case ip of V4 a b c d \<Rightarrow> ipv4_fmt a b c d | V6 ss \<Rightarrow> ipv6_fmt ss)"

section \<open>Parser\<close>

definition read_char :: "byte \<Rightarrow> bytes \<Rightarrow> bytes option" where
  "read_char c b = (case b of x # xs \<Rightarrow> (if x = c then Some xs else None) | [] \<Rightarrow> None)"

definition read_octet :: "bytes \<Rightarrow> (8 word \<times> bytes) option" where
  "read_octet b =
     (let ds = takeWhile is_ascii_digit b in
      if ds = [] \<or> length ds > 3 \<or> (hd ds = CHR ''0'' \<and> length ds > 1) \<or> dec_value ds > 255 then None
      else Some (of_nat (dec_value ds), drop (length ds) b))"

definition read_ipv4 :: "bytes \<Rightarrow> ((8 word \<times> 8 word \<times> 8 word \<times> 8 word) \<times> bytes) option" where
  "read_ipv4 b = do {
     (w, b) \<leftarrow> read_octet b; b \<leftarrow> read_char CHR ''.'' b;
     (x, b) \<leftarrow> read_octet b; b \<leftarrow> read_char CHR ''.'' b;
     (y, b) \<leftarrow> read_octet b; b \<leftarrow> read_char CHR ''.'' b;
     (z, b) \<leftarrow> read_octet b;
     Some ((w, x, y, z), b) }"

definition hex_val :: "byte \<Rightarrow> nat option" where
  "hex_val c = (let n = byte_val c in
     if 48 \<le> n \<and> n \<le> 57 then Some (n - 48)
     else if 97 \<le> n \<and> n \<le> 102 then Some (n - 87)
     else if 65 \<le> n \<and> n \<le> 70 then Some (n - 55) else None)"

definition read_group :: "bytes \<Rightarrow> (u16 \<times> bytes) option" where
  "read_group b =
     (let hs = takeWhile (\<lambda>c. hex_val c \<noteq> None) b in
      if hs = [] \<or> length hs > 4 then None
      else Some (of_nat (foldl (\<lambda>n c. 16 * n + the (hex_val c)) 0 hs), drop (length hs) b))"

definition read_separated :: "nat \<Rightarrow> (bytes \<Rightarrow> ('a \<times> bytes) option) \<Rightarrow> bytes \<Rightarrow> ('a \<times> bytes) option" where
  "read_separated i p b = (if i > 0 then Option.bind (read_char CHR '':'' b) p else p b)"

text \<open>Up to \<open>n\<close> groups from index \<open>i\<close>; a dotted IPv4 address may take the last two.\<close>

fun read_groups :: "nat \<Rightarrow> nat \<Rightarrow> bytes \<Rightarrow> u16 list \<times> bool \<times> bytes" where
  "read_groups i 0 b = ([], False, b)"
| "read_groups i (Suc n) b =
     (case (if n > 0 then read_separated i read_ipv4 b else None) of
        Some ((w, x, y, z), r) \<Rightarrow>
          ([push_bit 8 (ucast w) + ucast x, push_bit 8 (ucast y) + ucast z], True, r)
      | None \<Rightarrow> (case read_separated i read_group b of
            Some (g, r) \<Rightarrow> (let (gs, v4, r') = read_groups (i + 1) n r in (g # gs, v4, r'))
          | None \<Rightarrow> ([], False, b)))"

definition read_ipv6 :: "bytes \<Rightarrow> (u16 list \<times> bytes) option" where
  "read_ipv6 b =
     (let (head, head_v4, b) = read_groups 0 8 b in
      if length head = 8 then Some (head, b)
      else if head_v4 then None
      else do {
        b \<leftarrow> read_char CHR '':'' b;
        b \<leftarrow> read_char CHR '':'' b;
        let (tail, _, b) = read_groups 0 (8 - (length head + 1)) b;
        Some (head @ replicate (8 - length head - length tail) 0 @ tail, b) })"

definition ip_addr_parse :: "bytes \<Rightarrow> ip_addr option" where
  "ip_addr_parse s =
     (case read_ipv4 s of
        Some ((a, b, c, d), r) \<Rightarrow> (if r = [] then Some (V4 a b c d) else None)
      | None \<Rightarrow> (case read_ipv6 s of
            Some (ss, r) \<Rightarrow> (if r = [] then Some (V6 ss) else None)
          | None \<Rightarrow> None))"

section \<open>An IPv4 address is read back\<close>

lemma dec_length_byte: "n < 256 \<Longrightarrow> length (dec n) \<le> 3"
  by (subst dec.simps, subst dec.simps, subst dec.simps) simp

lemma dec_hd_zero: "hd (dec n) = CHR ''0'' \<Longrightarrow> n = 0"
proof (induction n rule: dec.induct)
  case (1 n)
  show ?case
  proof (cases "n < 10")
    case True
    with 1 have "byte_val (digit n) = 48" by (simp add: dec.simps [of n])
    with True show ?thesis by simp
  next
    case False
    with 1 show ?thesis by (simp add: dec.simps [of n])
  qed
qed

lemma dec_leading_zero: "hd (dec n) = CHR ''0'' \<Longrightarrow> length (dec n) = 1"
  using dec_hd_zero [of n] by (simp add: dec.simps [of 0])

lemma read_octet_dec:
  assumes "r = [] \<or> \<not> is_ascii_digit (hd r)"
  shows "read_octet (dec (unat x) @ r) = Some (x, r)"
proof -
  have "unat x < 256" using unsigned_less [of x] by simp
  moreover have "takeWhile is_ascii_digit (dec (unat x) @ r) = dec (unat x)"
    using assms dec_digits [of "unat x"] by (cases r) (simp_all add: takeWhile_append takeWhile_all)
  ultimately show ?thesis
    using dec_leading_zero [of "unat x"] dec_length_byte [of "unat x"]
    by (auto simp: read_octet_def Let_def)
qed

lemma ip_addr_parse_v4: "ip_addr_parse (ipv4_fmt a b c d) = Some (V4 a b c d)"
proof -
  have "\<not> is_ascii_digit CHR ''.''" by (simp add: is_ascii_digit_def)
  then have "read_ipv4 (ipv4_fmt a b c d) = Some ((a, b, c, d), [])"
    using read_octet_dec [of "[]" d]
    by (simp add: read_ipv4_def ipv4_fmt_def read_octet_dec read_char_def)
  then show ?thesis by (simp add: ip_addr_parse_def)
qed

lemma ip_addr_parse_v6_examples:
  "ip_addr_parse ''::1'' = Some (V6 [0, 0, 0, 0, 0, 0, 0, 1])"
  "ip_addr_parse ''example.com'' = None"
  by code_simp+

end
