(* ===== verification/Server_Addr.thy ===== *)
theory Server_Addr
  imports Std_Net
begin

text \<open>
  \<open>watermelon-proto/src/server_addr.rs\<close>: the address of a server and its URL. The crates \<open>url\<close> and
  \<open>percent_encoding\<close> are parameters: a parsed URL is the record of what \<open>from_str\<close> asks of it.
\<close>

datatype protocol = PossiblyPlain | TLS
datatype transport = TCP | Websocket
datatype host = Ip ip_addr | Dns bytes

record server_addr =
  protocol :: protocol
  transport :: transport
  host :: host
  port :: u16
  username :: bytes
  password :: bytes

datatype 'u server_addr_error =
  InvalidUrl 'u | InvalidScheme | MissingHost | UsernameInvalidUtf8 | PasswordInvalidUtf8

text \<open>What \<open>url::Url\<close> answers, and the two functions of \<open>percent_encoding\<close>.\<close>

datatype url_host = Url_Ip ip_addr | Url_Domain bytes

record url =
  url_scheme :: bytes
  url_host :: "url_host option"
  url_port :: "u16 option"
  url_username :: bytes
  url_password :: "bytes option"

record 'u url_ext =
  url_parse :: "bytes \<Rightarrow> 'u + url"
  percent_encode :: "bytes \<Rightarrow> bytes"
  percent_decode :: "bytes \<Rightarrow> bytes"

fun protocol_transport_to_port :: "protocol \<Rightarrow> transport \<Rightarrow> u16" where
  "protocol_transport_to_port PossiblyPlain TCP = 4222"
| "protocol_transport_to_port TLS TCP = 4222"
| "protocol_transport_to_port PossiblyPlain Websocket = 80"
| "protocol_transport_to_port TLS Websocket = 443"

definition is_default_port :: "server_addr \<Rightarrow> bool" where
  "is_default_port a \<longleftrightarrow> port a = protocol_transport_to_port (protocol a) (transport a)"

definition server_addr_username :: "server_addr \<Rightarrow> bytes option" where
  "server_addr_username a = (if username a = [] then None else Some (username a))"

definition server_addr_password :: "server_addr \<Rightarrow> bytes option" where
  "server_addr_password a = (if password a = [] then None else Some (password a))"

definition parse_scheme :: "bytes \<Rightarrow> (protocol \<times> transport) option" where
  "parse_scheme s =
     (if s = ''nats'' then Some (PossiblyPlain, TCP)
      else if s = ''tls'' then Some (TLS, TCP)
      else if s = ''ws'' then Some (PossiblyPlain, Websocket)
      else if s = ''wss'' then Some (TLS, Websocket)
      else None)"

definition parse_domain :: "bytes \<Rightarrow> host" where
  "parse_domain h =
     (let h = (case Option.bind (strip_prefix h ''['') (\<lambda>h. strip_suffix h '']'') of
                 Some h \<Rightarrow> h | None \<Rightarrow> h) in
      case ip_addr_parse h of Some ip \<Rightarrow> Ip ip | None \<Rightarrow> Dns h)"

definition server_addr_from_str :: "'u url_ext \<Rightarrow> bytes \<Rightarrow> 'u server_addr_error + server_addr" where
  "server_addr_from_str x value =
     and_then (map_err InvalidUrl (url_parse x value)) (\<lambda>url.
     and_then (ok_or InvalidScheme (parse_scheme (url_scheme url))) (\<lambda>(pr, tr).
     and_then (case url_host url of
                 Some (Url_Ip addr) \<Rightarrow> Ok (Ip addr)
               | Some (Url_Domain h) \<Rightarrow> Ok (parse_domain h)
               | None \<Rightarrow> Err MissingHost) (\<lambda>h.
     and_then (decode_utf8 UsernameInvalidUtf8 (percent_decode x (url_username url))) (\<lambda>u.
     and_then (decode_utf8 PasswordInvalidUtf8
                 (percent_decode x (case url_password url of None \<Rightarrow> [] | Some p \<Rightarrow> p))) (\<lambda>pw.
     Ok \<lparr> protocol = pr, transport = tr, host = h,
          port = (case url_port url of Some p \<Rightarrow> p | None \<Rightarrow> protocol_transport_to_port pr tr),
          username = u, password = pw \<rparr>)))))"

fun scheme_fmt :: "protocol \<Rightarrow> transport \<Rightarrow> bytes" where
  "scheme_fmt PossiblyPlain TCP = ''nats''"
| "scheme_fmt TLS TCP = ''tls''"
| "scheme_fmt PossiblyPlain Websocket = ''ws''"
| "scheme_fmt TLS Websocket = ''wss''"

fun host_fmt :: "host \<Rightarrow> bytes" where
  "host_fmt (Ip (V4 a b c d)) = ipv4_fmt a b c d"
| "host_fmt (Ip (V6 ss)) = ''['' @ ipv6_fmt ss @ '']''"
| "host_fmt (Dns record) = record"

definition server_addr_fmt :: "'u url_ext \<Rightarrow> server_addr \<Rightarrow> bytes" where
  "server_addr_fmt x a =
     scheme_fmt (protocol a) (transport a) @ ''://'' @
     (case server_addr_username a of
        None \<Rightarrow> []
      | Some u \<Rightarrow> percent_encode x u @
          (case server_addr_password a of None \<Rightarrow> [] | Some p \<Rightarrow> '':'' @ percent_encode x p) @ ''@'') @
     host_fmt (host a) @
     (if is_default_port a then [] else '':'' @ dec (unat (port a)))"

text \<open>The debug output: the field values, with the credentials redacted.\<close>

definition redact :: "bytes \<Rightarrow> bytes" where
  "redact s = (if s = [] then ''<none>'' else ''<redacted>'')"

definition server_addr_debug :: "server_addr \<Rightarrow> protocol \<times> transport \<times> host \<times> u16 \<times> bytes \<times> bytes" where
  "server_addr_debug a =
     (protocol a, transport a, host a, port a, redact (username a), redact (password a))"

section \<open>Printing and parsing\<close>

text \<open>What the \<open>url\<close> crate reads in the text of an address: its components. The schemes of NATS are
  not \<open>special\<close> for it, so a dotted IPv4 host is a domain there and only \<open>ws\<close> and \<open>wss\<close> have it parsed;
  a port equal to the default port of the scheme is not written, so it is not read.\<close>

definition url_of :: "'u url_ext \<Rightarrow> server_addr \<Rightarrow> url" where
  "url_of x a = \<lparr> url_scheme = scheme_fmt (protocol a) (transport a),
     url_host = Some (case host a of
        Ip (V4 p q r s) \<Rightarrow> (if transport a = TCP then Url_Domain (ipv4_fmt p q r s) else Url_Ip (V4 p q r s))
      | Ip (V6 ss) \<Rightarrow> Url_Ip (V6 ss)
      | Dns d \<Rightarrow> Url_Domain d),
     url_port = (if is_default_port a then None else Some (port a)),
     url_username = (case server_addr_username a of None \<Rightarrow> [] | Some u \<Rightarrow> percent_encode x u),
     url_password = (if server_addr_username a = None then None
        else map_option (percent_encode x) (server_addr_password a)) \<rparr>"

text \<open>An address as \<open>from_str\<close> builds it: credentials in UTF-8, a domain that is no address.\<close>

definition server_addr_wf :: "server_addr \<Rightarrow> bool" where
  "server_addr_wf a \<longleftrightarrow> utf8_valid (username a) \<and> utf8_valid (password a) \<and>
     (\<forall>d. host a = Dns d \<longrightarrow> parse_domain d = Dns d)"

lemma parse_scheme_fmt [simp]: "parse_scheme (scheme_fmt p t) = Some (p, t)"
  by (cases p; cases t) (simp_all add: parse_scheme_def)

lemma parse_domain_v4: "parse_domain (ipv4_fmt a b c d) = Ip (V4 a b c d)"
proof -
  obtain c' cs where c: "dec (unat a) = c' # cs" using dec_nonempty [of "unat a"] list.exhaust by blast
  with dec_digits [of "unat a"] have "is_ascii_digit c'" by simp
  then have "c' \<noteq> CHR ''[''" by (auto simp: is_ascii_digit_def)
  with c have "strip_prefix (ipv4_fmt a b c d) ''['' = None"
    by (simp add: strip_prefix_def ipv4_fmt_def)
  then show ?thesis by (simp add: parse_domain_def ip_addr_parse_v4)
qed

lemma server_addr_from_str_url_of:
  assumes url: "url_parse x s = Ok (url_of x a)"
    and dec: "\<And>b. percent_decode x (percent_encode x b) = b" "percent_decode x [] = []"
    and wf: "server_addr_wf a"
    and pw: "username a = [] \<Longrightarrow> password a = []"
  shows "server_addr_from_str x s = Ok a"
proof -
  have user: "decode_utf8 UsernameInvalidUtf8 (percent_decode x (url_username (url_of x a))) = Ok (username a)"
    using wf by (auto simp: decode_utf8_def url_of_def server_addr_username_def dec server_addr_wf_def)
  have pass: "decode_utf8 PasswordInvalidUtf8 (percent_decode x
      (case url_password (url_of x a) of None \<Rightarrow> [] | Some p \<Rightarrow> p)) = Ok (password a)"
    using wf pw by (auto simp: decode_utf8_def url_of_def server_addr_username_def
        server_addr_password_def dec server_addr_wf_def)
  have hst: "(case url_host (url_of x a) of Some (Url_Ip addr) \<Rightarrow> Ok (Ip addr)
      | Some (Url_Domain h) \<Rightarrow> Ok (parse_domain h) | None \<Rightarrow> Err MissingHost) = Ok (host a)"
    using wf by (auto simp: url_of_def parse_domain_v4 server_addr_wf_def
        split: host.splits ip_addr.splits)
  have sel: "url_scheme (url_of x a) = scheme_fmt (protocol a) (transport a)"
      "(case url_port (url_of x a) of Some p \<Rightarrow> p
        | None \<Rightarrow> protocol_transport_to_port (protocol a) (transport a)) = port a"
    by (simp_all add: url_of_def is_default_port_def)
  show ?thesis
    by (simp add: server_addr_from_str_def url sel hst user pass)
qed

section \<open>Properties\<close>



end
