(* ===== verification/Ext.thy ===== *)
theory Ext
  imports Rust_Std
begin

text \<open>
  Third-party code the sources call, as parameters: the searches of the \<open>memchr\<close> crate, the
  integer formatting of \<open>itoa\<close> and the order of \<open>unicase::UniCase\<close>. \<open>ext_ok\<close> states the documented
  behaviour the sources rely on; \<open>ref_ext\<close> is a concrete instance that has it. \<open>unicase_key\<close> is a
  key whose lexicographic order is the order of \<open>UniCase\<close> and whose equality is its equality;
  nothing is assumed of it except where a lemma says so.
\<close>

record ext =
  memmem :: "bytes \<Rightarrow> bytes \<Rightarrow> nat option"
  memchr :: "byte \<Rightarrow> bytes \<Rightarrow> nat option"
  memchr2 :: "byte \<Rightarrow> byte \<Rightarrow> bytes \<Rightarrow> nat option"
  itoa :: "nat \<Rightarrow> bytes"
  unicase_key :: "bytes \<Rightarrow> bytes"

definition ext_ok :: "'z ext_scheme \<Rightarrow> bool" where
  "ext_ok e \<longleftrightarrow>
     (\<forall>n h. memmem e n h = find_sub n h) \<and>
     (\<forall>c h. memchr e c h = find_byte (\<lambda>x. x = c) h) \<and>
     (\<forall>c d h. memchr2 e c d h = find_byte (\<lambda>x. x = c \<or> x = d) h) \<and>
     (\<forall>n. itoa e n = dec n)"

definition ref_ext :: ext where
  "ref_ext = \<lparr> memmem = find_sub, memchr = (\<lambda>c. find_byte (\<lambda>x. x = c)),
     memchr2 = (\<lambda>c d. find_byte (\<lambda>x. x = c \<or> x = d)), itoa = dec,
     unicase_key = map to_ascii_lowercase \<rparr>"

lemma ext_okD:
  assumes "ext_ok e"
  shows "memmem e n h = find_sub n h" "memchr e c h = find_byte (\<lambda>x. x = c) h"
    "memchr2 e c d h = find_byte (\<lambda>x. x = c \<or> x = d) h" "itoa e m = dec m"
  using assms by (simp_all add: ext_ok_def)

lemma ref_ext_ok: "ext_ok ref_ext"
  by (simp add: ext_ok_def ref_ext_def)

lemma ref_ext_sel [simp]:
  "memmem ref_ext = find_sub" "memchr ref_ext c = find_byte (\<lambda>x. x = c)"
  "memchr2 ref_ext c d = find_byte (\<lambda>x. x = c \<or> x = d)" "itoa ref_ext = dec"
  "unicase_key ref_ext = map to_ascii_lowercase"
  by (simp_all add: ref_ext_def)

end
