(* ===== verification/Proto_Types.thy ===== *)
theory Proto_Types
  imports Header_Map Status_Code Server_Error Server_Addr Ext
begin

text \<open>
  The messages of the protocol: \<open>message.rs\<close>, \<open>connect.rs\<close>, \<open>server_info.rs\<close>, \<open>proto/server.rs\<close> and
  \<open>proto/client.rs\<close> of \<open>watermelon-proto\<close>. JSON is \<open>serde_json\<close>: the two conversions the protocol uses
  are fields of \<open>json_ext\<close>. The field \<open>zstd\<close> is that of the feature \<open>non-standard-zstd\<close>.
\<close>

record message_base =
  msg_subject :: subject
  msg_reply_subject :: "subject option"
  msg_headers :: header_map
  msg_payload :: bytes

record server_message =
  status_code :: "status_code option"
  status_description :: "bytes option"
  subscription_id :: subscription_id
  base :: message_base

record connect =
  verbose :: bool
  pedantic :: bool
  require_tls :: bool
  auth_token :: "bytes option"
  con_username :: "bytes option"
  con_password :: "bytes option"
  client_name :: "bytes option"
  client_lang :: bytes
  client_version :: bytes
  con_protocol :: "8 word"
  echo :: bool
  signature :: "bytes option"
  jwt :: "bytes option"
  supports_no_responders :: bool
  con_supports_headers :: bool
  con_nkey :: "bytes option"
  con_zstd :: bool

definition non_standard_connect_default :: bool where
  "non_standard_connect_default = False"

definition skip_serializing_if_false :: "bool \<Rightarrow> bool" where
  "skip_serializing_if_false val \<longleftrightarrow> \<not> val"

record server_info =
  info_id :: bytes
  info_name :: bytes
  info_version :: bytes
  go_version :: bytes
  info_host :: ip_addr
  info_port :: u16
  supports_headers :: bool
  max_payload :: u32
  protocol_version :: u32
  client_id :: "u64 option"
  auth_required :: bool
  tls_required :: bool
  tls_verify :: bool
  tls_available :: bool
  connect_urls :: "server_addr list"
  websocket_connect_urls :: "server_addr list"
  lame_duck_mode :: bool
  git_commit :: "bytes option"
  supports_jetstream :: bool
  info_ip :: "ip_addr option"
  client_ip :: "ip_addr option"
  nonce :: "bytes option"
  cluster_name :: "bytes option"
  domain :: "bytes option"
  info_zstd :: bool

datatype server_op =
    S_Info server_info
  | S_Message server_message
  | S_Success
  | S_Error server_error
  | S_Ping
  | S_Pong

datatype client_op =
    C_Connect connect
  | C_Publish message_base
  | C_Subscribe subscription_id subject "queue_group option"
  | C_Unsubscribe subscription_id "u64 option"
  | C_Ping
  | C_Pong

record 'j json_ext = ext +
  from_json_info :: "bytes \<Rightarrow> 'j + server_info"
  to_json_connect :: "connect \<Rightarrow> bytes"

text \<open>The concrete instance of the searches, with any two JSON functions.\<close>

definition ref_json :: "(bytes \<Rightarrow> 'j + server_info) \<Rightarrow> (connect \<Rightarrow> bytes) \<Rightarrow> 'j json_ext" where
  "ref_json f t = ext.extend ref_ext \<lparr>from_json_info = f, to_json_connect = t\<rparr>"

lemma ref_json_sel [simp]:
  "memmem (ref_json f t) = find_sub" "memchr (ref_json f t) c = find_byte (\<lambda>x. x = c)"
  "memchr2 (ref_json f t) c d = find_byte (\<lambda>x. x = c \<or> x = d)" "itoa (ref_json f t) = dec"
  "unicase_key (ref_json f t) = map to_ascii_lowercase"
  "from_json_info (ref_json f t) = f" "to_json_connect (ref_json f t) = t"
  by (simp_all add: ref_json_def ext.defs ref_ext_def)

lemma ref_json_ok: "ext_ok (ref_json f t)"
  by (simp add: ext_ok_def)

text \<open>A message built without panics: its headers satisfy the invariant of the map.\<close>

definition message_base_wf :: "(bytes \<Rightarrow> bytes) \<Rightarrow> message_base \<Rightarrow> bool" where
  "message_base_wf uc m \<longleftrightarrow> header_map_inv uc (msg_headers m) \<and>
     (\<forall>(n, v)\<in>set (header_map_pairs (msg_headers m)).
        validate_header_name (header_name_as_str n) = Ok () \<and>
        validate_header_value_bytes (header_value_as_bytes v) = Ok ())"

end
