(* ===== verification/Text_Split.thy ===== *)
theory Text_Split
  imports Ext
begin

text \<open>
  \<open>watermelon-proto/src/util\<close>: \<open>CrlfFinder\<close>, the iterators \<open>lines_iter\<close> and \<open>split_spaces\<close>. An iterator
  is its \<open>next\<close> function on the bytes it still holds; the outer \<open>None\<close> is a panic. \<open>lines_iter\<close> is also
  given as the list of all its items, and \<open>split_take\<close> is a number of \<open>next\<close> calls in a row, as in the
  tuples of calls of the decoder.
\<close>

section \<open>CRLF\<close>

definition crlf_find :: "'z ext_scheme \<Rightarrow> bytes \<Rightarrow> nat option" where
  "crlf_find e haystack = memmem e CRLF haystack"

section \<open>Lines\<close>

definition lines_next :: "'z ext_scheme \<Rightarrow> bytes \<Rightarrow> (bytes option \<times> bytes) option" where
  "lines_next e bytes =
     (if bytes = [] then Some (None, bytes)
      else case crlf_find e bytes of
        Some i \<Rightarrow> do {
          (chunk, bytes) \<leftarrow> split_to i bytes;
          bytes \<leftarrow> advance (length CRLF) bytes;
          Some (Some chunk, bytes) }
      | None \<Rightarrow> Some (Some bytes, []))"

lemma lines_next_less: "lines_next e b = Some (Some c, b') \<Longrightarrow> length b' < length b"
  by (auto simp: lines_next_def split_to_def advance_def split: if_splits option.splits
      bind_splits)

function lines_iter :: "'z ext_scheme \<Rightarrow> bytes \<Rightarrow> bytes list option" where
  "lines_iter e bytes =
     (case lines_next e bytes of
        None \<Rightarrow> None
      | Some (None, _) \<Rightarrow> Some []
      | Some (Some chunk, rest) \<Rightarrow> map_option ((#) chunk) (lines_iter e rest))"
  by pat_completeness auto
termination
  by (relation "measure (\<lambda>(e, b). length b)") (auto intro: lines_next_less)

declare lines_iter.simps [simp del]

section \<open>Words\<close>

definition is_blank :: "byte \<Rightarrow> bool" where
  "is_blank b \<longleftrightarrow> b = SP \<or> b = TAB"

definition split_next :: "'z ext_scheme \<Rightarrow> bool \<Rightarrow> bytes \<Rightarrow> (bytes option \<times> bytes) option" where
  "split_next e dbg bytes =
     (if bytes = [] then Some (None, bytes)
      else case memchr2 e SP TAB bytes of
        None \<Rightarrow> Some (Some bytes, [])
      | Some i \<Rightarrow> do {
          (chunk, bytes) \<leftarrow> split_to i bytes;
          let spaces = length (takeWhile is_blank bytes);
          _ \<leftarrow> debug_assert dbg (spaces > 0);
          bytes \<leftarrow> advance spaces bytes;
          Some (Some chunk, bytes) })"

fun split_take :: "'z ext_scheme \<Rightarrow> bool \<Rightarrow> nat \<Rightarrow> bytes \<Rightarrow> bytes option list option" where
  "split_take e dbg 0 bytes = Some []"
| "split_take e dbg (Suc n) bytes = do {
     (chunk, bytes) \<leftarrow> split_next e dbg bytes;
     chunks \<leftarrow> split_take e dbg n bytes;
     Some (chunk # chunks) }"

section \<open>What the iterators yield\<close>

lemma lines_next_eq:
  assumes "ext_ok e"
  shows "lines_next e b = Some
    (if b = [] then (None, [])
     else case find_sub CRLF b of
       Some i \<Rightarrow> (Some (take i b), drop (i + 2) b)
     | None \<Rightarrow> (Some b, []))"
  by (auto simp: lines_next_def crlf_find_def ext_okD [OF assms] split: option.splits
      dest: find_sub_bound)

text \<open>A block of lines without CR, each ended by CRLF, is read back line by line; the last line may
  lack its CRLF if it is not empty.\<close>

lemma lines_iter_Nil: "lines_iter e [] = Some []"
  by (subst lines_iter.simps) (simp add: lines_next_def)

lemma lines_iter_step:
  assumes "ext_ok e" and "CR \<notin> set l"
  shows "lines_iter e (l @ CRLF @ r) = map_option ((#) l) (lines_iter e r)"
  using find_sub_crlf_line [OF assms(2), of r]
  by (subst lines_iter.simps) (simp add: lines_next_eq [OF assms(1)])

lemma lines_iter_total:
  assumes "ext_ok e"
  shows "lines_iter e b \<noteq> None"
proof (induction "length b" arbitrary: b rule: less_induct)
  case less
  then show ?case
    by (subst lines_iter.simps)
       (auto simp: lines_next_eq [OF assms] split: option.splits if_splits dest: find_sub_bound)
qed

lemma lines_iter_concat:
  assumes "ext_ok e" and "\<forall>l\<in>set ls. CR \<notin> set l"
  shows "lines_iter e (concat (map (\<lambda>l. l @ CRLF) ls)) = Some ls"
  using assms(2)
proof (induction ls)
  case Nil
  then show ?case by (simp add: lines_iter_Nil)
next
  case (Cons l ls)
  then show ?case
    using lines_iter_step [OF assms(1), of l] by simp
qed

text \<open>The words of a line: maximal runs of bytes that are not blanks, after a first word that is
  empty when the line starts with a blank.\<close>

function words :: "bytes \<Rightarrow> bytes list" where
  "words b = (if b = [] then []
     else takeWhile (\<lambda>x. \<not> is_blank x) b #
       words (dropWhile is_blank (dropWhile (\<lambda>x. \<not> is_blank x) b)))"
  by pat_completeness auto
termination
proof (relation "measure length", simp_all)
  fix b :: bytes assume "b \<noteq> []"
  show "length (dropWhile is_blank (dropWhile (\<lambda>x. \<not> is_blank x) b)) < length b"
  proof (cases "is_blank (hd b)")
    case True
    with \<open>b \<noteq> []\<close> show ?thesis
      by (cases b) (auto simp: le_imp_less_Suc length_dropWhile_le)
  next
    case False
    with \<open>b \<noteq> []\<close> have "length (dropWhile (\<lambda>x. \<not> is_blank x) b) < length b"
      by (intro length_dropWhile_less) simp_all
    then show ?thesis
      using length_dropWhile_le [of is_blank] le_less_trans by blast
  qed
qed

declare words.simps [simp del]

lemma words_Nil [simp]: "words [] = []"
  by (subst words.simps) simp

lemma find_byte_takeWhile:
  "find_byte P b = (if \<forall>x\<in>set b. \<not> P x then None else Some (length (takeWhile (\<lambda>x. \<not> P x) b)))"
  by (induction b) auto

lemma split_next_eq:
  assumes "ext_ok e"
  shows "split_next e dbg b = Some
    (if b = [] then (None, [])
     else (Some (takeWhile (\<lambda>x. \<not> is_blank x) b),
           dropWhile is_blank (dropWhile (\<lambda>x. \<not> is_blank x) b)))"
proof -
  have b: "(\<lambda>x. x = SP \<or> x = TAB) = is_blank"
    by (simp add: is_blank_def fun_eq_iff)
  show ?thesis
  proof (cases "\<forall>x\<in>set b. \<not> is_blank x")
    case True
    then show ?thesis
      by (simp add: split_next_def ext_okD [OF assms] b find_byte_takeWhile takeWhile_all
          dropWhile_all)
  next
    case False
    let ?w = "takeWhile (\<lambda>x. \<not> is_blank x) b"
    let ?d = "dropWhile (\<lambda>x. \<not> is_blank x) b"
    have d: "drop (length ?w) b = ?d" by (rule dropWhile_eq_drop [symmetric])
    have t: "take (length ?w) b = ?w" by (rule takeWhile_eq_take [symmetric])
    from False have "?d \<noteq> []" by (simp add: dropWhile_eq_Nil_conv)
    then have "is_blank (hd ?d)" using hd_dropWhile [of "\<lambda>x. \<not> is_blank x" b] by auto
    with \<open>?d \<noteq> []\<close> have "0 < length (takeWhile is_blank ?d)" by (cases ?d) auto
    with False show ?thesis
      by (auto simp: split_next_def ext_okD [OF assms] b find_byte_takeWhile d t
          length_takeWhile_le dropWhile_eq_drop [of is_blank])
  qed
qed

text \<open>\<open>n\<close> calls of \<open>next\<close> give the first \<open>n\<close> words, and then \<open>None\<close>.\<close>

fun pad :: "nat \<Rightarrow> 'a list \<Rightarrow> 'a option list" where
  "pad 0 xs = []"
| "pad (Suc n) [] = None # pad n []"
| "pad (Suc n) (x # xs) = Some x # pad n xs"

lemma split_take_words:
  assumes "ext_ok e"
  shows "split_take e dbg n b = Some (pad n (words b))"
proof (induction n arbitrary: b)
  case (Suc n)
  then show ?case
    by (cases "b = []") (simp_all add: split_next_eq [OF assms] words.simps [of b])
qed simp

lemma words_word:
  assumes "\<forall>x\<in>set w. \<not> is_blank x" and "is_blank c"
  shows "words (w @ c # r) = w # words (dropWhile is_blank r)"
  using assms
  by (subst words.simps) (simp add: takeWhile_append_stop dropWhile_append_stop)

lemma words_last:
  assumes "\<forall>x\<in>set w. \<not> is_blank x" and "w \<noteq> []"
  shows "words w = [w]"
  using assms by (subst words.simps) (simp add: takeWhile_all dropWhile_all)

lemma words_nonblank: "w \<in> set (words b) \<Longrightarrow> \<forall>x\<in>set w. \<not> is_blank x"
proof (induction b rule: words.induct)
  case (1 b)
  show ?case
  proof (cases "b = []")
    case True
    with 1 show ?thesis by simp
  next
    case False
    from "1.prems" [unfolded words.simps [of b]] False have "w = takeWhile (\<lambda>x. \<not> is_blank x) b \<or>
        w \<in> set (words (dropWhile is_blank (dropWhile (\<lambda>x. \<not> is_blank x) b)))"
      by simp
    then show ?thesis
    proof
      assume "w = takeWhile (\<lambda>x. \<not> is_blank x) b"
      then show ?thesis using set_takeWhileD [of _ "\<lambda>x. \<not> is_blank x" b] by blast
    next
      assume "w \<in> set (words (dropWhile is_blank (dropWhile (\<lambda>x. \<not> is_blank x) b)))"
      with False show ?thesis by (rule "1.IH")
    qed
  qed
qed

end
