(* ===== verification/Decoder.thy ===== *)
theory Decoder
  imports Proto_Types Text_Split
begin

text \<open>
  \<open>watermelon-proto/src/proto/decoder\<close>: the decoder of server operations. \<open>decode\<close> works on a status
  and a read buffer; it returns its result with the new status and the bytes left, or \<open>None\<close> for a
  panic. Lengths declared by the server are \<open>usize\<close> words, lengths of buffers are naturals.
\<close>

definition MAX_HEAD_LEN :: nat where "MAX_HEAD_LEN = 128 * 1024"
definition MAX_MSG_LEN :: nat where "MAX_MSG_LEN = 128 * 1024 * 1024"

datatype decoder_status =
    ControlLine nat
  | Headers subscription_id subject "subject option" usize usize
  | Payload subscription_id subject "subject option" "status_code option" "bytes option" header_map usize
  | Poisoned

datatype 'j decoder_error =
    HeadTooLong nat
  | InvalidCommand
  | InvalidMsgArgsCount
  | InvalidHmsgArgsCount
  | SubjectInvalidUtf8
  | ReplySubjectInvalidUtf8
  | D_SubscriptionId parse_uint_error
  | InvalidHeaderLength parse_uint_error
  | InvalidPayloadLength parse_uint_error
  | InvalidTotalLength
  | MissingHead
  | InvalidHead
  | InvalidHeaderLine
  | D_StatusCode status_code_error
  | StatusDescriptionInvalidUtf8
  | HeaderNameInvalidUtf8
  | D_HeaderName header_name_validate_error
  | D_HeaderValue header_value_validate_error
  | InvalidInfo 'j
  | InvalidErrorMessage
  | D_Poisoned

section \<open>Control lines\<close>

text \<open>A subject sent by the server: checked for UTF-8, not for the grammar of subjects (unless in a
  build with debug assertions).\<close>

definition decode_subject :: "bool \<Rightarrow> 'e \<Rightarrow> bytes \<Rightarrow> ('e + subject) option" where
  "decode_subject dbg err b =
     and_then_p (Some (decode_utf8 err b)) (\<lambda>s. map_option Ok (subject_from_dangerous_value dbg s))"

fun decode_reply_subject :: "bool \<Rightarrow> 'e \<Rightarrow> bytes option \<Rightarrow> ('e + subject option) option" where
  "decode_reply_subject dbg err None = Some (Ok None)"
| "decode_reply_subject dbg err (Some b) = map_option (map_ok Some) (decode_subject dbg err b)"

definition decode_msg :: "'z ext_scheme \<Rightarrow> bool \<Rightarrow> bytes \<Rightarrow> ('j decoder_error + decoder_status) option" where
  "decode_msg e dbg control_line = do {
     control_line \<leftarrow> advance (length ''MSG '') control_line;
     chunks \<leftarrow> split_take e dbg 5 control_line;
     and_then_p (Some (case chunks of
         [Some subject, Some sid, Some reply, Some plen, None] \<Rightarrow> Ok (subject, sid, Some reply, plen)
       | [Some subject, Some sid, Some plen, None, None] \<Rightarrow> Ok (subject, sid, None, plen)
       | _ \<Rightarrow> Err InvalidMsgArgsCount)) (\<lambda>(subject, sid, reply, plen).
     and_then_p (decode_subject dbg SubjectInvalidUtf8 subject) (\<lambda>subject.
     and_then_p (Some (map_err D_SubscriptionId (subscription_id_from_ascii_bytes sid))) (\<lambda>sid.
     and_then_p (decode_reply_subject dbg ReplySubjectInvalidUtf8 reply) (\<lambda>reply.
     and_then_p (Some (map_err InvalidPayloadLength (parse_usize plen))) (\<lambda>plen.
     if unat plen > MAX_MSG_LEN then Some (Err (InvalidPayloadLength Overflow))
     else Some (Ok (Payload sid subject reply None None header_map_new plen))))))) }"

definition decode_hmsg :: "'z ext_scheme \<Rightarrow> bool \<Rightarrow> bytes \<Rightarrow> ('j decoder_error + decoder_status) option" where
  "decode_hmsg e dbg control_line = do {
     control_line \<leftarrow> advance (length ''HMSG '') control_line;
     chunks \<leftarrow> split_take e dbg 6 control_line;
     and_then_p (Some (case chunks of
         [Some subject, Some sid, Some reply, Some hlen, Some tlen, None] \<Rightarrow>
           Ok (subject, sid, Some reply, hlen, tlen)
       | [Some subject, Some sid, Some hlen, Some tlen, None, None] \<Rightarrow>
           Ok (subject, sid, None, hlen, tlen)
       | _ \<Rightarrow> Err InvalidHmsgArgsCount)) (\<lambda>(subject, sid, reply, hlen, tlen).
     and_then_p (decode_subject dbg SubjectInvalidUtf8 subject) (\<lambda>subject.
     and_then_p (Some (map_err D_SubscriptionId (subscription_id_from_ascii_bytes sid))) (\<lambda>sid.
     and_then_p (decode_reply_subject dbg ReplySubjectInvalidUtf8 reply) (\<lambda>reply.
     and_then_p (Some (map_err InvalidHeaderLength (parse_usize hlen))) (\<lambda>hlen.
     and_then_p (Some (map_err InvalidPayloadLength (parse_usize tlen))) (\<lambda>tlen.
     if unat tlen > MAX_MSG_LEN then Some (Err (InvalidPayloadLength Overflow))
     else and_then_p (Some (ok_or InvalidTotalLength (checked_sub tlen hlen))) (\<lambda>plen.
     Some (Ok (Headers sid subject reply hlen plen))))))))) }"

section \<open>Headers\<close>

definition decode_header_line ::
    "'z ext_scheme \<Rightarrow> bool \<Rightarrow> bytes \<Rightarrow> ('j decoder_error + header_name \<times> header_value) option" where
  "decode_header_line e dbg line =
     and_then_p (Some (ok_or InvalidHeaderLine (memchr e CHR '':'' line))) (\<lambda>i. do {
       (name, line) \<leftarrow> split_to i line;
       line \<leftarrow> advance 1 line;
       value \<leftarrow> (case line of
           b # _ \<Rightarrow> (if is_ascii_whitespace b then advance 1 line else Some line)
         | [] \<Rightarrow> Some line);
       and_then_p (Some (decode_utf8 HeaderNameInvalidUtf8 name)) (\<lambda>name.
       and_then_p (map_option (map_err D_HeaderName) (header_name_try_from dbg name)) (\<lambda>name.
       and_then_p (map_option (map_err D_HeaderValue) (header_value_from_bytes dbg value)) (\<lambda>value.
       Some (Ok (name, value))))) })"

text \<open>The header lines, collected into a map until the first error.\<close>

function decode_header_lines ::
    "'z ext_scheme \<Rightarrow> bool \<Rightarrow> bytes \<Rightarrow> header_map \<Rightarrow> ('j decoder_error + header_map) option" where
  "decode_header_lines e dbg bytes m =
     (case lines_next e bytes of
        None \<Rightarrow> None
      | Some (None, _) \<Rightarrow> Some (Ok m)
      | Some (Some line, rest) \<Rightarrow>
          if line = [] then decode_header_lines e dbg rest m
          else and_then_p (decode_header_line e dbg line) (\<lambda>(name, value). do {
            m \<leftarrow> header_map_append dbg (unicase_key e) name value m;
            decode_header_lines e dbg rest m }))"
  by pat_completeness auto
termination
  by (relation "measure (\<lambda>(e, dbg, b, m). length b)") (auto intro: lines_next_less)

declare decode_header_lines.simps [simp del]

definition decode_status_line :: "bytes \<Rightarrow> 'j decoder_error + status_code option \<times> bytes option" where
  "decode_status_line status_line =
     and_then (case get_range 1 4 status_line of
         Some code \<Rightarrow> map_ok Some (map_err D_StatusCode (status_code_from_ascii_bytes code))
       | None \<Rightarrow> Ok None) (\<lambda>code.
     and_then (case get_range 4 (length status_line) status_line of
         Some (separator # description) \<Rightarrow>
           if \<not> is_ascii_whitespace separator then Err InvalidHead
           else if trim_ascii description = [] then Ok None
           else map_ok Some (decode_utf8 StatusDescriptionInvalidUtf8 (trim_ascii description))
       | _ \<Rightarrow> Ok None) (\<lambda>description.
     Ok (code, description)))"

definition decode_headers ::
    "'z ext_scheme \<Rightarrow> bool \<Rightarrow> bytes \<Rightarrow> decoder_status \<Rightarrow>
     (('j decoder_error + unit) \<times> decoder_status \<times> bytes) option" where
  "decode_headers e dbg read_buf status =
     (case status of
        Headers sid subject reply hlen plen \<Rightarrow> do {
          (header, read_buf) \<leftarrow> split_to (unat hlen) read_buf;
          (head, rest) \<leftarrow> lines_next e header;
          r \<leftarrow> and_then_p (Some (ok_or MissingHead head)) (\<lambda>head.
               and_then_p (Some (ok_or InvalidHead (strip_prefix head ''NATS/1.0''))) (\<lambda>line.
               and_then_p (Some (decode_status_line line)) (\<lambda>(code, description).
               and_then_p (decode_header_lines e dbg rest header_map_new) (\<lambda>m.
               Some (Ok (code, description, m))))));
          (case r of
             Inl x \<Rightarrow> Some (Err x, Poisoned, read_buf)
           | Inr (code, description, m) \<Rightarrow>
               Some (Ok (), Payload sid subject reply code description m plen, read_buf)) }
      | _ \<Rightarrow> None)"

section \<open>Operations\<close>

text \<open>The operations that are a control line alone.\<close>

definition decode_err :: "bytes \<Rightarrow> ('j decoder_error + server_op option) option" where
  "decode_err control_line = do {
     control_line \<leftarrow> advance (length ''-ERR '') control_line;
     if length control_line < 2 \<or> \<not> starts_with control_line [CHR 0x27] \<or>
        \<not> ends_with control_line [CHR 0x27]
     then Some (Err InvalidErrorMessage)
     else do {
       control_line \<leftarrow> advance 1 control_line;
       n \<leftarrow> sub_p (length control_line) 1;
       Some (map_ok (\<lambda>raw. Some (S_Error (server_error_parse raw)))
         (decode_utf8 InvalidErrorMessage (truncate_to n control_line))) } }"

definition decode_info :: "('j, 'z) json_ext_scheme \<Rightarrow> bytes \<Rightarrow> 'j decoder_error + server_op option" where
  "decode_info e info = map_ok (\<lambda>info. Some (S_Info info)) (map_err InvalidInfo (from_json_info e info))"

text \<open>What a control line leads to: a new status to continue with, or the result of the call.\<close>

definition decode_control_line ::
    "('j, 'z) json_ext_scheme \<Rightarrow> bool \<Rightarrow> bytes \<Rightarrow>
     ('j decoder_error + decoder_status + server_op option) option" where
  "decode_control_line e dbg control_line =
     (if starts_with control_line ''MSG '' then
        and_then_p (decode_msg e dbg control_line) (\<lambda>st. Some (Ok (Inl st)))
      else if starts_with control_line ''HMSG '' then
        and_then_p (decode_hmsg e dbg control_line) (\<lambda>st. Some (Ok (Inl st)))
      else if starts_with control_line ''PING'' then Some (Ok (Inr (Some S_Ping)))
      else if starts_with control_line ''PONG'' then Some (Ok (Inr (Some S_Pong)))
      else if starts_with control_line ''+OK'' then Some (Ok (Inr (Some S_Success)))
      else if starts_with control_line ''-ERR '' then
        map_option (map_ok Inr) (decode_err control_line)
      else (case strip_prefix control_line ''INFO '' of
          Some info \<Rightarrow> Some (map_ok Inr (decode_info e info))
        | None \<Rightarrow> Some (Err InvalidCommand)))"

fun status_rank :: "decoder_status \<Rightarrow> nat" where
  "status_rank (ControlLine _) = 3"
| "status_rank (Headers _ _ _ _ _) = 2"
| "status_rank (Payload _ _ _ _ _ _ _) = 1"
| "status_rank Poisoned = 0"

lemma and_then_p_Some_Ok:
  "and_then_p r f = Some (Inr b) \<longleftrightarrow> (\<exists>a. r = Some (Inr a) \<and> f a = Some (Inr b))"
  by (auto simp: and_then_p_def split: bind_splits sum.splits)

lemma decode_msg_Payload:
  "decode_msg e dbg l = Some (Ok st) \<Longrightarrow>
     \<exists>sid s r n. st = Payload sid s r None None header_map_new n \<and> unat n \<le> MAX_MSG_LEN"
  by (auto simp: decode_msg_def and_then_p_Some_Ok split: bind_splits if_splits)

lemma decode_hmsg_Headers:
  "decode_hmsg e dbg l = Some (Ok st) \<Longrightarrow>
     \<exists>sid s r h n. st = Headers sid s r h n \<and> unat h + unat n \<le> MAX_MSG_LEN"
  by (auto simp: decode_hmsg_def and_then_p_Some_Ok split: bind_splits if_splits
      dest!: unat_checked_sub)

lemma decode_control_line_rank:
  "decode_control_line e dbg l = Some (Ok (Inl st)) \<Longrightarrow> status_rank st < 3"
  by (auto simp: decode_control_line_def and_then_p_Some_Ok map_ok_Inr_iff
      split: if_splits option.splits dest!: decode_msg_Payload decode_hmsg_Headers)

lemma decode_headers_rank:
  "decode_headers e dbg b (Headers sid s r h n) = Some (Inr u, st, b') \<Longrightarrow> status_rank st = 1"
  by (auto simp: decode_headers_def split: bind_splits sum.splits)

text \<open>\<open>decode\<close>: the loop over the status. The outcome of a call that returns from the loop is a result, the
  status and the buffer left behind; the two \<open>continue\<close> paths call the loop again.\<close>

function decode ::
    "('j, 'z) json_ext_scheme \<Rightarrow> bool \<Rightarrow> decoder_status \<Rightarrow> bytes \<Rightarrow>
     (('j decoder_error + server_op option) \<times> decoder_status \<times> bytes) option" where
  "decode e dbg (ControlLine last_bytes_read) read_buf =
     (if starts_with read_buf (''+OK'' @ CRLF) then do {
        _ \<leftarrow> debug_assert dbg (last_bytes_read = 0);
        read_buf \<leftarrow> advance (length (''+OK'' @ CRLF)) read_buf;
        Some (Ok (Some S_Success), ControlLine last_bytes_read, read_buf) }
      else if last_bytes_read = length read_buf then
        Some (Ok None, ControlLine last_bytes_read, read_buf)
      else case crlf_find e read_buf of
        None \<Rightarrow>
          if length read_buf < MAX_HEAD_LEN
          then Some (Ok None, ControlLine (length read_buf), read_buf)
          else Some (Err (HeadTooLong (length read_buf)), ControlLine last_bytes_read, read_buf)
      | Some i \<Rightarrow>
          (case split_to (i + length CRLF) read_buf of
             None \<Rightarrow> None
           | Some (control_line, read_buf) \<Rightarrow>
               (case Option.bind (sub_p (length control_line) 2)
                       (\<lambda>n. decode_control_line e dbg (truncate_to n control_line)) of
                  None \<Rightarrow> None
                | Some (Inl x) \<Rightarrow> Some (Err x, ControlLine last_bytes_read, read_buf)
                | Some (Inr (Inl status)) \<Rightarrow> decode e dbg status read_buf
                | Some (Inr (Inr r)) \<Rightarrow> Some (Ok r, ControlLine last_bytes_read, read_buf))))"
| "decode e dbg (Headers sid subject reply hlen plen) read_buf =
     (if length read_buf < unat hlen then
        Some (Ok None, Headers sid subject reply hlen plen, read_buf)
      else case decode_headers e dbg read_buf (Headers sid subject reply hlen plen) of
        None \<Rightarrow> None
      | Some (Inl x, status, read_buf) \<Rightarrow> Some (Err x, status, read_buf)
      | Some (Inr _, status, read_buf) \<Rightarrow> decode e dbg status read_buf)"
| "decode e dbg (Payload sid subject reply code description hdrs plen) read_buf =
     (if length read_buf < unat (saturating_add plen 2) then
        Some (Ok None, Payload sid subject reply code description hdrs plen, read_buf)
      else do {
        (payload, read_buf) \<leftarrow> split_to (unat plen) read_buf;
        read_buf \<leftarrow> advance (length CRLF) read_buf;
        Some (Ok (Some (S_Message
            \<lparr> status_code = code, status_description = description, subscription_id = sid,
              base = \<lparr> msg_subject = subject, msg_reply_subject = reply, msg_headers = hdrs,
                       msg_payload = payload \<rparr> \<rparr>)), ControlLine 0, read_buf) })"
| "decode e dbg Poisoned read_buf = Some (Err D_Poisoned, Poisoned, read_buf)"
  by pat_completeness auto

termination
  by (relation "measure (\<lambda>(e, dbg, st, b). status_rank st)")
     (auto dest: decode_control_line_rank decode_headers_rank split: bind_splits)

section \<open>The stream decoder and \<open>decode_frame\<close>\<close>

record stream_decoder =
  sd_read_buf :: bytes
  sd_status :: decoder_status

definition stream_decoder_new :: stream_decoder where
  "stream_decoder_new = \<lparr> sd_read_buf = [], sd_status = ControlLine 0 \<rparr>"

text \<open>Bytes put into \<open>read_buf()\<close> by the reader of the socket.\<close>

definition stream_decoder_put :: "bytes \<Rightarrow> stream_decoder \<Rightarrow> stream_decoder" where
  "stream_decoder_put b d = d\<lparr>sd_read_buf := sd_read_buf d @ b\<rparr>"

definition stream_decoder_decode ::
    "('j, 'z) json_ext_scheme \<Rightarrow> bool \<Rightarrow> stream_decoder \<Rightarrow>
     (('j decoder_error + server_op option) \<times> stream_decoder) option" where
  "stream_decoder_decode e dbg d = do {
     (r, status, read_buf) \<leftarrow> decode e dbg (sd_status d) (sd_read_buf d);
     Some (r, d\<lparr>sd_read_buf := read_buf, sd_status := status\<rparr>) }"

datatype 'j frame_decoder_error = IncompleteFrame | FrameDecoder "'j decoder_error"

definition decode_frame ::
    "('j, 'z) json_ext_scheme \<Rightarrow> bool \<Rightarrow> bytes \<Rightarrow> (('j frame_decoder_error + server_op) \<times> bytes) option" where
  "decode_frame e dbg frame = do {
     (r, _, frame) \<leftarrow> decode e dbg (ControlLine 0) frame;
     Some (case r of
         Inr (Some op) \<Rightarrow> Ok op
       | Inr None \<Rightarrow> Err IncompleteFrame
       | Inl err \<Rightarrow> Err (FrameDecoder err), frame) }"

end
