(* ===== verification/Decoder_Spec.thy ===== *)
theory Decoder_Spec
  imports Decoder
begin

text \<open>
  Properties of the decoder: it does not panic in a release build, keeps the bounds on the lengths it
  has accepted, consumes a prefix of its buffer, can be resumed when more bytes arrive, and reads
  well-formed frames.
\<close>

section \<open>Control lines\<close>

lemma decode_subject_release [simp]:
  "decode_subject False err b = Some (map_ok Subject (decode_utf8 err b))"
  by (cases "decode_utf8 err b") (simp_all add: decode_subject_def subject_from_dangerous_value_def)

lemma decode_reply_subject_release [simp]:
  "decode_reply_subject False err r =
     Some (case r of None \<Rightarrow> Ok None | Some b \<Rightarrow> map_ok (\<lambda>s. Some (Subject s)) (decode_utf8 err b))"
  by (cases r; cases "decode_utf8 err (the r)") simp_all

lemma and_then_p_total: "r \<noteq> None \<Longrightarrow> (\<And>a. r = Some (Inr a) \<Longrightarrow> f a \<noteq> None) \<Longrightarrow> and_then_p r f \<noteq> None"
  by (auto simp: and_then_p_None_iff)

lemma and_then_p_pure: "and_then_p (Some r) (\<lambda>x. Some (g x)) = Some (and_then r g)"
  by (cases r) simp_all

lemma decode_msg_total:
  assumes "ext_ok e" and "4 \<le> length l"
  shows "(decode_msg e False l :: ('j decoder_error + _) option) \<noteq> None"
  unfolding decode_msg_def using assms(2)
  by (auto simp: split_take_words [OF assms(1)] and_then_p_None_iff simp del: not_None_eq)

lemma decode_hmsg_total:
  assumes "ext_ok e" and "5 \<le> length l"
  shows "(decode_hmsg e False l :: ('j decoder_error + _) option) \<noteq> None"
  unfolding decode_hmsg_def using assms(2)
  by (auto simp: split_take_words [OF assms(1)] and_then_p_None_iff simp del: not_None_eq)

lemma decode_err_total: "5 \<le> length l \<Longrightarrow> decode_err l \<noteq> None"
  by (auto simp: decode_err_def Let_def)

lemma decode_control_line_total:
  fixes e :: "('j, 'z) json_ext_scheme"
  assumes "ext_ok e"
  shows "\<exists>r. decode_control_line e False l = Some r"
proof -
  have "\<exists>x :: 'j decoder_error + _. decode_msg e False l = Some x" if "starts_with l ''MSG ''"
    using decode_msg_total [OF assms, of l] starts_with_length [OF that] by simp
  moreover have "\<exists>x :: 'j decoder_error + _. decode_hmsg e False l = Some x" if "starts_with l ''HMSG ''"
    using decode_hmsg_total [OF assms, of l] starts_with_length [OF that] by simp
  moreover have "\<exists>x :: 'j decoder_error + _. decode_err l = Some x" if "starts_with l ''-ERR ''"
    using decode_err_total [of l] starts_with_length [OF that] by simp
  ultimately show ?thesis
    by (auto simp: decode_control_line_def and_then_p_pure split: option.splits)
qed

section \<open>Headers\<close>

text \<open>A header line without the panics: the bytes before the first colon, and those after it less one
  leading white space.\<close>

definition skip_white_space :: "bytes \<Rightarrow> bytes" where
  "skip_white_space b = (case b of [] \<Rightarrow> [] | c # r \<Rightarrow> (if is_ascii_whitespace c then r else b))"

definition header_pair :: "bytes \<Rightarrow> bytes \<Rightarrow> 'j decoder_error + header_name \<times> header_value" where
  "header_pair name value =
     and_then (decode_utf8 HeaderNameInvalidUtf8 name) (\<lambda>name.
     and_then (map_err D_HeaderName (map_ok (\<lambda>_. HeaderName name) (validate_header_name name))) (\<lambda>n.
     and_then (map_err D_HeaderValue (map_ok (\<lambda>_. HeaderValue value) (validate_header_value_bytes value))) (\<lambda>v.
     Ok (n, v))))"

lemma decode_header_line_eq:
  assumes "ext_ok e"
  shows "decode_header_line e dbg line = Some (case find_byte (\<lambda>x. x = CHR '':'') line of
      None \<Rightarrow> Err InvalidHeaderLine
    | Some i \<Rightarrow> header_pair (take i line) (skip_white_space (drop (Suc i) line)))"
proof (cases "find_byte (\<lambda>x. x = CHR '':'') line")
  case None
  then show ?thesis by (simp add: decode_header_line_def ext_okD [OF assms])
next
  case (Some i)
  then have "i < length line" by (simp add: find_byte_Some_iff)
  moreover have "(case b of [] \<Rightarrow> Some b | c # _ \<Rightarrow> if is_ascii_whitespace c then advance 1 b else Some b) =
      Some (skip_white_space b)" for b
    by (cases b) (simp_all add: skip_white_space_def)
  ultimately show ?thesis using Some
    by (simp add: decode_header_line_def ext_okD [OF assms] header_name.try_from_eq
        header_value.try_from_eq and_then_p_pure header_pair_def)
qed

lemma decode_header_line_total: "ext_ok e \<Longrightarrow> decode_header_line e dbg line \<noteq> None"
  by (simp add: decode_header_line_eq)

lemma decode_header_lines_safe:
  assumes "ext_ok e" and "header_map_inv (unicase_key e) m"
  shows "\<exists>r :: 'j decoder_error + header_map. decode_header_lines e dbg b m = Some r \<and>
    (\<forall>m'. r = Ok m' \<longrightarrow> header_map_inv (unicase_key e) m')"
  using assms
proof (induction e dbg b m rule: decode_header_lines.induct)
  case (1 e dbg b m)
  obtain h r where n: "lines_next e b = Some (h, r)"
    using lines_next_eq [OF "1.prems"(1), of b] by fastforce
  show ?case
  proof (cases h)
    case None
    with n "1.prems" show ?thesis by (subst decode_header_lines.simps) simp
  next
    case (Some line)
    show ?thesis
    proof (cases "line = []")
      case True
      with "1.IH"(1) [OF n [unfolded Some] _ refl _ "1.prems"] n Some show ?thesis
        by (subst decode_header_lines.simps) simp
    next
      case False
      obtain x :: "'j decoder_error + _" where x: "decode_header_line e dbg line = Some x"
        using decode_header_line_total [OF "1.prems"(1), of dbg line] by auto
      show ?thesis
      proof (cases x)
        case (Inl err)
        with n Some False x show ?thesis by (subst decode_header_lines.simps) simp
      next
        case (Inr nv)
        obtain name v where nv: "nv = (name, v)" by (cases nv)
        obtain m' where m': "header_map_append dbg (unicase_key e) name v m = Some m'"
            "header_map_inv (unicase_key e) m'"
          using header_map_append_spec [OF "1.prems"(2)] by blast
        from "1.IH"(2) [OF n [unfolded Some] refl refl False] m' "1.prems"(1) n Some False x Inr nv
        show ?thesis
          by (subst decode_header_lines.simps) simp
      qed
    qed
  qed
qed

section \<open>The loop\<close>

text \<open>One turn of the loop on a control line, with the searches and slices evaluated.\<close>

lemma decode_ControlLine:
  assumes "ext_ok e"
  shows "decode e dbg (ControlLine n) b =
    (if starts_with b (''+OK'' @ CRLF) then
       (if dbg \<and> n \<noteq> 0 then None else Some (Ok (Some S_Success), ControlLine n, drop 5 b))
     else if n = length b then Some (Ok None, ControlLine n, b)
     else case find_sub CRLF b of
       None \<Rightarrow> if length b < MAX_HEAD_LEN then Some (Ok None, ControlLine (length b), b)
               else Some (Err (HeadTooLong (length b)), ControlLine n, b)
     | Some i \<Rightarrow> (case decode_control_line e dbg (take i b) of
           None \<Rightarrow> None
         | Some (Inl x) \<Rightarrow> Some (Err x, ControlLine n, drop (Suc (Suc i)) b)
         | Some (Inr (Inl st)) \<Rightarrow> decode e dbg st (drop (Suc (Suc i)) b)
         | Some (Inr (Inr r)) \<Rightarrow> Some (Ok r, ControlLine n, drop (Suc (Suc i)) b)))"
proof (cases "starts_with b (''+OK'' @ CRLF)"; cases "find_sub CRLF b")
  case ok: True
  then obtain r where "b = (''+OK'' @ CRLF) @ r" by (auto simp only: starts_with_iff)
  then show "?thesis" "?thesis" by (simp_all add: debug_assert_def)
next
  case ok: False
  case None
  with ok show ?thesis
    by (simp add: crlf_find_def ext_okD [OF assms])
next
  case ok: False
  case (Some i)
  then have i: "i + 2 \<le> length b" using find_sub_bound [of CRLF b i] by simp
  then have "Option.bind (sub_p (length (take (i + 2) b)) 2)
      (\<lambda>n. decode_control_line e dbg (truncate_to n (take (i + 2) b))) =
      decode_control_line e dbg (take i b)"
    by (simp add: truncate_to_def min_def)
  with Some i show ?thesis
    using ok by (simp add: crlf_find_def ext_okD [OF assms])
qed

declare decode.simps(1) [simp del]

text \<open>The bounds the decoder has accepted so far.\<close>

fun status_inv :: "(bytes \<Rightarrow> bytes) \<Rightarrow> decoder_status \<Rightarrow> bool" where
  "status_inv uc (ControlLine _) \<longleftrightarrow> True"
| "status_inv uc (Headers _ _ _ hlen plen) \<longleftrightarrow> unat hlen + unat plen \<le> MAX_MSG_LEN"
| "status_inv uc (Payload _ _ _ _ _ m plen) \<longleftrightarrow> header_map_inv uc m \<and> unat plen \<le> MAX_MSG_LEN"
| "status_inv uc Poisoned \<longleftrightarrow> True"

fun op_inv :: "(bytes \<Rightarrow> bytes) \<Rightarrow> server_op \<Rightarrow> bool" where
  "op_inv uc (S_Message m) \<longleftrightarrow> length (msg_payload (base m)) \<le> MAX_MSG_LEN \<and>
     header_map_inv uc (msg_headers (base m))"
| "op_inv uc _ \<longleftrightarrow> True"

lemma decode_control_line_inv:
  "decode_control_line e dbg l = Some (Ok (Inl st)) \<Longrightarrow> status_inv uc st"
  by (auto simp: decode_control_line_def and_then_p_Some_Ok map_ok_Inr_iff split: if_splits option.splits
      dest!: decode_msg_Payload decode_hmsg_Headers)

lemma decode_control_line_op_inv:
  "decode_control_line e dbg l = Some (Ok (Inr (Some x))) \<Longrightarrow> op_inv uc x"
  by (auto simp: decode_control_line_def and_then_p_Some_Ok map_ok_Inr_iff decode_err_def decode_info_def
      split: if_splits option.splits bind_splits)

lemma unat_saturating_add_2:
  "unat n \<le> MAX_MSG_LEN \<Longrightarrow> unat (saturating_add n 2) = unat n + 2" for n :: usize
  by (simp add: unat_saturating_add MAX_MSG_LEN_def)

lemma decode_headers_safe:
  fixes e :: "('j, 'z) json_ext_scheme"
  assumes "ext_ok e" and "unat hlen \<le> length b" and "unat hlen + unat plen \<le> MAX_MSG_LEN"
  shows "\<exists>(r :: 'j decoder_error + unit) st. decode_headers e dbg b (Headers sid s r' hlen plen) =
      Some (r, st, drop (unat hlen) b) \<and> status_inv (unicase_key e) st \<and> (is_ok r \<or> st = Poisoned)"
proof -
  obtain h rest where n: "lines_next e (take (unat hlen) b) = Some (h, rest)"
    using lines_next_eq [OF assms(1), of "take (unat hlen) b"] by fastforce
  obtain m :: "'j decoder_error + _" where m: "decode_header_lines e dbg rest header_map_new = Some m"
      "\<forall>m'. m = Ok m' \<longrightarrow> header_map_inv (unicase_key e) m'"
    using decode_header_lines_safe [OF assms(1) header_map_new_inv, of dbg rest] by blast
  show ?thesis
  proof (cases m)
    case (Inl x)
    with n m assms(2) show ?thesis
      by (auto simp: decode_headers_def and_then_p_def split: sum.splits option.splits)
  next
    case (Inr m')
    with n m assms(2,3) show ?thesis
      by (auto simp: decode_headers_def and_then_p_def split: sum.splits option.splits)
  qed
qed

text \<open>What a call must return: not a panic, a status within the bounds, an operation within the bounds, and
  a buffer from which a prefix has been taken.\<close>

fun result_inv :: "(bytes \<Rightarrow> bytes) \<Rightarrow> 'e + server_op option \<Rightarrow> bool" where
  "result_inv uc (Inr (Some x)) \<longleftrightarrow> op_inv uc x"
| "result_inv uc _ \<longleftrightarrow> True"

definition sound_outcome ::
    "(bytes \<Rightarrow> bytes) \<Rightarrow> bytes \<Rightarrow>
     (('j decoder_error + server_op option) \<times> decoder_status \<times> bytes) option \<Rightarrow> bool" where
  "sound_outcome uc b res \<longleftrightarrow> (\<exists>r st b'. res = Some (r, st, b') \<and> status_inv uc st \<and>
     result_inv uc r \<and> (\<exists>c. b = c @ b'))"

lemma sound_outcome_drop: "sound_outcome uc (drop n b) res \<Longrightarrow> sound_outcome uc b res"
  unfolding sound_outcome_def using append_take_drop_id [of n b] by (metis append.assoc)

lemma sound_outcome_Some [simp]:
  "sound_outcome uc b (Some (r, st, b)) \<longleftrightarrow> status_inv uc st \<and> result_inv uc r"
  "sound_outcome uc b (Some (r, st, drop n b)) \<longleftrightarrow> status_inv uc st \<and> result_inv uc r"
  unfolding sound_outcome_def using append_take_drop_id [of n b, symmetric] by (auto intro: exI [of _ "take n b"])

lemma decode_payload_sound:
  assumes "status_inv uc (Payload sid s r c d m n)"
  shows "sound_outcome uc b (decode e dbg (Payload sid s r c d m n) b)"
proof (cases "length b < unat n + 2")
  case True
  with assms show ?thesis
    by (simp add: unat_saturating_add_2)
next
  case False
  with assms have "decode e dbg (Payload sid s r c d m n) b =
      Some (Ok (Some (S_Message \<lparr>status_code = c, status_description = d, subscription_id = sid,
        base = \<lparr>msg_subject = s, msg_reply_subject = r, msg_headers = m, msg_payload = take (unat n) b\<rparr>\<rparr>)),
        ControlLine 0, drop (unat n + 2) b)"
    by (simp add: unat_saturating_add_2)
  with assms show ?thesis
    by (simp only: sound_outcome_Some) (auto simp: min_def)
qed

lemma decode_headers_sound:
  fixes e :: "('j, 'z) json_ext_scheme"
  assumes "ext_ok e" and "status_inv (unicase_key e) (Headers sid s r h n)"
  shows "sound_outcome (unicase_key e) b (decode e dbg (Headers sid s r h n) b)"
proof (cases "length b < unat h")
  case True
  with assms show ?thesis by simp
next
  case False
  with decode_headers_safe [OF assms(1), of h b n dbg sid s r] assms(2)
  obtain x :: "'j decoder_error + unit" and st where x: "decode_headers e dbg b (Headers sid s r h n) = Some (x, st, drop (unat h) b)"
      "status_inv (unicase_key e) st" "is_ok x \<or> st = Poisoned"
    by auto
  show ?thesis
  proof (cases x)
    case (Inl y)
    with x False show ?thesis by simp
  next
    case (Inr u)
    with x(1) have "status_rank st = 1" using decode_headers_rank by blast
    with x(2) have "sound_outcome (unicase_key e) (drop (unat h) b) (decode e dbg st (drop (unat h) b))"
      by (cases st) (auto simp del: decode.simps intro: decode_payload_sound)
    then have "sound_outcome (unicase_key e) b (decode e dbg st (drop (unat h) b))"
      by (rule sound_outcome_drop)
    with x(1) Inr False show ?thesis by simp
  qed
qed

lemma decode_sound:
  fixes e :: "('j, 'z) json_ext_scheme"
  assumes "ext_ok e" and inv: "status_inv (unicase_key e) st"
  shows "sound_outcome (unicase_key e) b (decode e False st b)"
proof (cases st)
  case (ControlLine n)
  show ?thesis
  proof (cases "find_sub CRLF b")
    case None
    then show ?thesis
      unfolding ControlLine decode_ControlLine [OF assms(1)]
      by simp
  next
    case (Some i)
    obtain r where r: "decode_control_line e False (take i b) = Some r"
      using decode_control_line_total [OF assms(1)] by blast
    have "sound_outcome (unicase_key e) b (case r of
        Inl x \<Rightarrow> Some (Err x, ControlLine n, drop (Suc (Suc i)) b)
      | Inr (Inl st) \<Rightarrow> decode e False st (drop (Suc (Suc i)) b)
      | Inr (Inr r) \<Rightarrow> Some (Ok r, ControlLine n, drop (Suc (Suc i)) b))"
    proof (cases r)
      case (Inl x)
      then show ?thesis by simp
    next
      case Ok: (Inr y)
      show ?thesis
      proof (cases y)
        case (Inl st')
        with r Ok have "status_inv (unicase_key e) st'" "status_rank st' < 3"
          using decode_control_line_inv decode_control_line_rank by blast+
        then have "sound_outcome (unicase_key e) (drop (Suc (Suc i)) b)
            (decode e False st' (drop (Suc (Suc i)) b))"
          by (cases st') (auto simp del: decode.simps(2,3)
              intro: decode_payload_sound decode_headers_sound [OF assms(1)])
        then have "sound_outcome (unicase_key e) b (decode e False st' (drop (Suc (Suc i)) b))"
          by (rule sound_outcome_drop)
        with Ok Inl show ?thesis by simp
      next
        case (Inr x)
        with r Ok show ?thesis
          using decode_control_line_op_inv [of e False "take i b"] by (cases x) auto
      qed
    qed
    with Some r show ?thesis
      unfolding ControlLine decode_ControlLine [OF assms(1)]
      by simp
  qed
next
  case (Headers sid s r h n)
  with decode_headers_sound [OF assms(1)] inv show ?thesis by blast
next
  case (Payload sid s r c d m n)
  with decode_payload_sound inv show ?thesis by blast
next
  case Poisoned
  then show ?thesis by simp
qed

section \<open>Resuming\<close>

text \<open>The count of bytes seen is only a hint for the next call: outcomes are compared without it.\<close>

fun forget_count :: "decoder_status \<Rightarrow> decoder_status" where
  "forget_count (ControlLine _) = ControlLine 0"
| "forget_count st = st"

definition forget_counts ::
    "(('j decoder_error + server_op option) \<times> decoder_status \<times> bytes) option \<Rightarrow>
     (('j decoder_error + server_op option) \<times> decoder_status \<times> bytes) option" where
  "forget_counts = map_option (\<lambda>(r, st, b). (r, forget_count st, b))"

lemma starts_with_append_iff: "length n \<le> length h \<Longrightarrow> starts_with (h @ s) n \<longleftrightarrow> starts_with h n"
  by (simp add: starts_with_def)

lemma find_sub_append: "find_sub n h = Some i \<Longrightarrow> find_sub n (h @ s) = Some i"
proof (induction h arbitrary: i)
  case Nil
  then show ?case by (cases s) (auto split: if_splits)
next
  case (Cons x h)
  have "length n \<le> length (x # h)" using find_sub_bound [OF Cons.prems] by simp
  with starts_with_append_iff [OF this, of s] Cons show ?case by (auto split: if_splits)
qed

lemma find_sub_ok_line:
  assumes "find_sub CRLF p = Some i"
  shows "starts_with (p @ s) (''+OK'' @ CRLF) \<longleftrightarrow> starts_with p (''+OK'' @ CRLF)"
proof
  assume "starts_with (p @ s) (''+OK'' @ CRLF)"
  then obtain r where r: "p @ s = ''+OK'' @ CRLF @ r" by (auto simp: starts_with_iff)
  then have "find_sub CRLF (p @ s) = Some 3" by simp
  with find_sub_append [OF assms, of s] have "i = 3" by simp
  with find_sub_bound [OF assms] have "5 \<le> length p" by simp
  then have "starts_with (p @ s) (''+OK'' @ CRLF) \<longleftrightarrow> starts_with p (''+OK'' @ CRLF)"
    by (intro starts_with_append_iff) simp
  with r show "starts_with p (''+OK'' @ CRLF)" by simp
next
  assume "starts_with p (''+OK'' @ CRLF)"
  then show "starts_with (p @ s) (''+OK'' @ CRLF)" by (auto simp: starts_with_iff)
qed

lemma decode_control_line_result: "decode_control_line e dbg l \<noteq> Some (Ok (Inr None))"
  by (auto simp: decode_control_line_def and_then_p_Some_Ok map_ok_Inr_iff decode_err_def decode_info_def
      split: if_splits option.splits bind_splits)

lemma decode_headers_append:
  assumes "unat hlen \<le> length b"
  shows "decode_headers e dbg (b @ s) (Headers sid su r hlen plen) =
    map_option (\<lambda>(x, st, b). (x, st, b @ s)) (decode_headers e dbg b (Headers sid su r hlen plen))"
  using assms by (auto simp: decode_headers_def split: option.splits sum.splits bind_splits)

lemma decode_counts_irrelevant:
  assumes "ext_ok e" and "n \<noteq> length b" and "m \<noteq> length b"
  shows "forget_counts (decode e False (ControlLine n) b) = forget_counts (decode e False (ControlLine m) b)"
  unfolding decode_ControlLine [OF assms(1)] using assms(2,3)
  by (auto simp: forget_counts_def split: option.splits sum.splits)

lemma decode_resume_message:
  fixes e :: "('j, 'z) json_ext_scheme"
  assumes "decode e dbg st p = Some (Ok None, st', p')" and "status_rank st < 3"
  shows "decode e dbg st (p @ s) = decode e dbg st' (p' @ s)"
proof (cases st)
  case (Headers sid su r h n)
  show ?thesis
  proof (cases "length p < unat h")
    case True
    with assms Headers show ?thesis by simp
  next
    case False
    with assms(1) Headers obtain st1 q u where d: "(decode_headers e dbg p st :: (('j decoder_error + _) \<times> _) option) = Some (Inr u, st1, q)"
        and n: "decode e dbg st1 q = Some (Ok None, st', p')"
      by (auto split: option.splits sum.splits prod.splits)
    then have "status_rank st1 = 1" using Headers decode_headers_rank by blast
    with n have "st' = st1" "p' = q"
      by (cases st1; auto split: if_splits bind_splits)+
    with False Headers d show ?thesis
      by (simp add: decode_headers_append)
  qed
next
  case (Payload sid su r c d m n)
  with assms(1) show ?thesis by (auto split: if_splits bind_splits)
qed (use assms in simp_all)

lemma decode_resume_lemma:
  assumes e: "ext_ok e" and d: "decode e False st p = Some (Ok None, st', p')"
    and "s \<noteq> []" and n: "\<And>n. st = ControlLine n \<Longrightarrow> n \<le> length p"
  shows "forget_counts (decode e False st' (p' @ s)) = forget_counts (decode e False st (p @ s))"
proof (cases "\<exists>n. st = ControlLine n")
  case False
  with d have "status_rank st < 3" by (cases st) simp_all
  with decode_resume_message [OF d] show ?thesis by simp
next
  case True
  then obtain n where st: "st = ControlLine n" by blast
  note d' = d [unfolded st decode_ControlLine [OF e]]
  show ?thesis
  proof (cases "find_sub CRLF p")
    case None
    with d' have "p' = p" "st' = ControlLine n \<or> st' = ControlLine (length p)"
      by (auto split: if_splits)
    moreover have "n \<noteq> length (p @ s)" "length p \<noteq> length (p @ s)"
      using n [OF st] \<open>s \<noteq> []\<close> by (cases s; simp)+
    ultimately show ?thesis
      using st decode_counts_irrelevant [OF e, of n "p @ s" "length p"] by auto
  next
    case (Some i)
    show ?thesis
    proof (cases "n = length p")
      case True
      with d' st show ?thesis by (auto split: if_splits)
    next
      case ne: False
      from Some have i: "i + 2 \<le> length p" using find_sub_bound [of CRLF p i] by simp
      from d' Some ne decode_control_line_result [of e False "take i p"]
      obtain st1 where c: "decode_control_line e False (take i p) = Some (Ok (Inl st1))"
          and r: "decode e False st1 (drop (Suc (Suc i)) p) = Some (Ok None, st', p')"
          and nok: "\<not> starts_with p (''+OK'' @ CRLF)"
        by (auto split: if_splits option.splits sum.splits)
      have "n \<noteq> length (p @ s)" using n [OF st] \<open>s \<noteq> []\<close> by (cases s) simp_all
      then have "decode e False st (p @ s) = decode e False st1 (drop (Suc (Suc i)) p @ s)"
        unfolding st decode_ControlLine [OF e]
        using nok i c by (simp add: find_sub_append [OF Some] find_sub_ok_line [OF Some, simplified])
      with decode_resume_message [OF r decode_control_line_rank [OF c]] show ?thesis by simp
    qed
  qed
qed

section \<open>Bytes after an operation\<close>

text \<open>Bytes that follow the ones an operation was read from do not change what is read.\<close>

lemma decode_extend_message:
  fixes e :: "('j, 'z) json_ext_scheme"
  assumes "decode e dbg st p = Some (Ok (Some op), st', p')" and "status_rank st < 3"
  shows "decode e dbg st (p @ s) = Some (Ok (Some op), st', p' @ s)"
proof -
  have payload: "decode e dbg (Payload sid su r c d m n) (p @ s) = Some (Ok (Some op), st', p' @ s)"
    if "decode e dbg (Payload sid su r c d m n) p = Some (Ok (Some op), st', p')" for sid su r c d m n p
    using that by (auto split: if_splits bind_splits simp: split_to_def advance_def)
  show ?thesis
  proof (cases st)
    case (Headers sid su r h n)
    with assms(1) obtain st1 q u where len: "\<not> length p < unat h"
        and d: "(decode_headers e dbg p st :: (('j decoder_error + _) \<times> _) option) = Some (Inr u, st1, q)"
        and n: "decode e dbg st1 q = Some (Ok (Some op), st', p')"
      by (auto split: option.splits sum.splits prod.splits if_splits)
    then have "status_rank st1 = 1" using Headers decode_headers_rank by blast
    with n have "decode e dbg st1 (q @ s) = Some (Ok (Some op), st', p' @ s)"
      by (cases st1) (simp_all del: decode.simps add: payload)
    with len Headers d show ?thesis by (simp add: decode_headers_append)
  next
    case (Payload sid su r c d m n)
    with assms(1) show ?thesis using payload by blast
  qed (use assms in simp_all)
qed

lemma decode_extend:
  assumes e: "ext_ok e" and d: "decode e False st p = Some (Ok (Some op), st', p')"
    and n: "\<And>n. st = ControlLine n \<Longrightarrow> n \<le> length p"
  shows "decode e False st (p @ s) = Some (Ok (Some op), st', p' @ s)"
proof (cases "\<exists>n. st = ControlLine n")
  case False
  with d have "status_rank st < 3" by (cases st) simp_all
  with decode_extend_message [OF d] show ?thesis by simp
next
  case True
  then obtain n where st: "st = ControlLine n" by blast
  note d' = d [unfolded st decode_ControlLine [OF e]]
  show ?thesis
  proof (cases "starts_with p (''+OK'' @ CRLF)")
    case True
    then obtain r where "p = (''+OK'' @ CRLF) @ r" by (auto simp only: starts_with_iff)
    with d' show ?thesis unfolding st decode_ControlLine [OF e] by simp
  next
    case False
    with d' have ne: "n \<noteq> length p" by (auto split: if_splits)
    obtain i where i: "find_sub CRLF p = Some i"
      using d' False ne by (auto split: if_splits option.splits)
    then have le: "Suc (Suc i) \<le> length p" using find_sub_bound [of CRLF p i] by simp
    have "n \<noteq> length (p @ s)" using n [OF st] ne by (cases s) simp_all
    then have whole: "decode e False st (p @ s) =
      (case decode_control_line e False (take i p) of
           None \<Rightarrow> None
         | Some (Inl x) \<Rightarrow> Some (Err x, ControlLine n, drop (Suc (Suc i)) p @ s)
         | Some (Inr (Inl st)) \<Rightarrow> decode e False st (drop (Suc (Suc i)) p @ s)
         | Some (Inr (Inr r)) \<Rightarrow> Some (Ok r, ControlLine n, drop (Suc (Suc i)) p @ s))"
      unfolding st decode_ControlLine [OF e] using False le
      by (simp add: find_sub_append [OF i] find_sub_ok_line [OF i, simplified] cong: option.case_cong sum.case_cong)
    from d' False ne i consider st1 where "decode_control_line e False (take i p) = Some (Ok (Inl st1))"
        "decode e False st1 (drop (Suc (Suc i)) p) = Some (Ok (Some op), st', p')"
      | "decode_control_line e False (take i p) = Some (Ok (Inr (Some op)))" "st' = ControlLine n"
        "p' = drop (Suc (Suc i)) p"
      by (auto split: option.splits sum.splits)
    then show ?thesis
    proof cases
      case 1
      with whole decode_extend_message [OF 1(2) decode_control_line_rank [OF 1(1)]] show ?thesis by simp
    next
      case 2
      with whole show ?thesis by simp
    qed
  qed
qed

text \<open>A decoder that has consumed nothing of an operation yet, and waits for more, has counted at most
  the bytes it holds.\<close>

lemma decode_waiting_count:
  fixes e :: "('j, 'z) json_ext_scheme"
  assumes "ext_ok e" and "decode e False st p = Some (Ok None, ControlLine n, p')"
    and "\<And>n. st = ControlLine n \<Longrightarrow> n \<le> length p"
  shows "n \<le> length p'"
proof -
  have message: False if "decode e False st1 q = Some (Ok None, ControlLine n, p')" "status_rank st1 < 3" for st1 q
  proof -
    have pl: "decode e False (Payload a b c d f g h) q \<noteq> Some (Ok None, ControlLine n, p')" for a b c d f g h q
      by (auto split: if_splits bind_splits)
    with that show False
    proof (cases st1)
      case (Headers a b c d f)
      with that(1) obtain st2 u q2 where "decode e False st2 q2 = Some (Ok None, ControlLine n, p')"
        and "(decode_headers e False q st1 :: (('j decoder_error + _) \<times> _) option) = Some (Inr u, st2, q2)"
        by (auto split: if_splits option.splits sum.splits prod.splits)
      moreover from this have "status_rank st2 = 1" using Headers decode_headers_rank by blast
      ultimately show False using pl by (cases st2) (auto simp del: decode.simps)
    qed auto
  qed
  show ?thesis
  proof (cases st)
    case (ControlLine m)
    have "decode_control_line e False l = Some (Ok (Inl st1)) \<Longrightarrow> decode e False st1 q = Some (Ok None, ControlLine n, p')
        \<Longrightarrow> False" for l st1 q
      by (rule message [OF _ decode_control_line_rank])
    with assms(2,3) show ?thesis
      unfolding ControlLine decode_ControlLine [OF assms(1)]
      using decode_control_line_result [of e False]
      by (auto simp del: decode.simps split: if_splits option.splits sum.splits)
  qed (use message [OF assms(2)] in auto)
qed

section \<open>Chunks\<close>

text \<open>A decoder that is given its input in chunks, until it yields something.\<close>

fun feed ::
    "('j, 'z) json_ext_scheme \<Rightarrow> decoder_status \<Rightarrow> bytes \<Rightarrow> bytes list \<Rightarrow>
     (('j decoder_error + server_op option) \<times> decoder_status \<times> bytes \<times> bytes list) option" where
  "feed e st b cs =
     (case decode e False st b of
        None \<Rightarrow> None
      | Some (r, st', b') \<Rightarrow>
          (case cs of
             c # cs' \<Rightarrow> if r = Ok None then feed e st' (b' @ c) cs' else Some (r, st', b', cs)
           | [] \<Rightarrow> Some (r, st', b', [])))"

declare feed.simps [simp del]

lemma forget_counts_Some:
  "forget_counts x = Some (r, st, b) \<Longrightarrow> \<exists>st'. x = Some (r, st', b) \<and> forget_count st' = st"
  by (auto simp: forget_counts_def)

lemma feed_chunks:
  assumes "ext_ok e" and "feed e st b cs = Some (Ok x, st', b', rest)"
    and "\<And>n. st = ControlLine n \<Longrightarrow> n \<le> length b" and "[] \<notin> set cs"
  shows "forget_counts (decode e False st (b @ concat cs)) =
    Some (Ok x, forget_count st', b' @ concat rest)"
  using assms(2-)
proof (induction cs arbitrary: st b)
  case Nil
  then show ?case by (auto simp: feed.simps forget_counts_def split: option.splits)
next
  case (Cons c cs)
  obtain r st1 b1 where d: "decode e False st b = Some (r, st1, b1)"
    using Cons.prems(1) by (auto simp: feed.simps split: option.splits)
  show ?case
  proof (cases "r = Ok None")
    case False
    with Cons.prems(1) d obtain op where "x = Some op" "r = Ok (Some op)" "st1 = st'" "b1 = b'" "rest = c # cs"
      by (cases x) (auto simp: feed.simps split: if_splits)
    with decode_extend [OF assms(1), of st b op st1 b1 "concat (c # cs)"] d Cons.prems(2) show ?thesis
      by (simp add: forget_counts_def)
  next
    case True
    with Cons.prems(1) d have f: "feed e st1 (b1 @ c) cs = Some (Ok x, st', b', rest)"
      by (simp add: feed.simps [of e st b])
    have "forget_counts (decode e False st1 ((b1 @ c) @ concat cs)) =
        Some (Ok x, forget_count st', b' @ concat rest)"
    proof (rule Cons.IH [OF f])
      show "n \<le> length (b1 @ c)" if "st1 = ControlLine n" for n
        using decode_waiting_count [OF assms(1), of st b n b1] d True that Cons.prems(2) by simp
      show "[] \<notin> set cs" using Cons.prems(3) by simp
    qed
    moreover have "c @ concat cs \<noteq> []" using Cons.prems(3) by auto
    ultimately show ?thesis
      using decode_resume_lemma [OF assms(1), of st b st1 b1 "c @ concat cs"] d True Cons.prems(2) by simp
  qed
qed

section \<open>Waiting\<close>

text \<open>A decoder waits for a bounded number of bytes, and each byte it gets brings it nearer to an outcome:
  its status advances, or its buffer has grown.\<close>

definition waiting_limit :: nat where "waiting_limit = MAX_MSG_LEN + 2"

fun count_ok :: "decoder_status \<Rightarrow> bool" where
  "count_ok (ControlLine n) \<longleftrightarrow> n < MAX_HEAD_LEN"
| "count_ok _ \<longleftrightarrow> True"

definition waiting_measure :: "decoder_status \<Rightarrow> bytes \<Rightarrow> nat" where
  "waiting_measure st b = status_rank st * (waiting_limit + 1) + (waiting_limit - length b)"

lemma decode_waiting_message:
  fixes e :: "('j, 'z) json_ext_scheme"
  assumes e: "ext_ok e" and inv: "status_inv (unicase_key e) st" and rank: "status_rank st < 3"
    and d: "decode e dbg st p = Some (Ok None, st', p')"
  shows "length p' < waiting_limit \<and> status_rank st' < 3 \<and> (status_rank st' < status_rank st \<or> st' = st \<and> p' = p)"
proof -
  have payload: "length p' < waiting_limit \<and> st' = Payload a b c d f g n \<and> p' = q"
    if "decode e dbg (Payload a b c d f g n) q = Some (Ok None, st', p')"
      and "status_inv (unicase_key e) (Payload a b c d f g n)" for a b c d f g n q
    using that by (auto simp: unat_saturating_add_2 waiting_limit_def split: if_splits bind_splits)
  show ?thesis
  proof (cases st)
    case (Headers sid s r h n)
    show ?thesis
    proof (cases "length p < unat h")
      case True
      with Headers d inv show ?thesis by (auto simp: waiting_limit_def)
    next
      case False
      with decode_headers_safe [OF e, of h p n dbg sid s r] inv Headers
      obtain x :: "'j decoder_error + unit" and st2 where x: "decode_headers e dbg p (Headers sid s r h n) = Some (x, st2, drop (unat h) p)"
        "status_inv (unicase_key e) st2" by auto
      with d False Headers obtain u where u: "x = Inr u" by (cases x) auto
      with x(1) have "status_rank st2 = 1" using decode_headers_rank by blast
      then obtain a b c k f g m where st2: "st2 = Payload a b c k f g m" by (cases st2) auto
      from d False Headers u x(1) have "decode e dbg st2 (drop (unat h) p) = Some (Ok None, st', p')" by simp
      from payload [OF this [unfolded st2]] x(2) st2 Headers show ?thesis by auto
    qed
  next
    case (Payload a b c d' f g n)
    from payload [OF d [unfolded Payload] inv [unfolded Payload]] Payload show ?thesis by auto
  qed (use rank d in auto)
qed

lemma decode_waiting:
  fixes e :: "('j, 'z) json_ext_scheme"
  assumes e: "ext_ok e" and inv: "status_inv (unicase_key e) st" and c: "count_ok st"
    and d: "decode e False st p = Some (Ok None, st', p')"
  shows "length p' < waiting_limit \<and> count_ok st' \<and>
    (status_rank st' < status_rank st \<or> status_rank st' = status_rank st \<and> p' = p)"
proof (cases st)
  case (ControlLine n)
  note d' = d [unfolded ControlLine decode_ControlLine [OF e]]
  have lim: "MAX_HEAD_LEN < waiting_limit" by (simp add: waiting_limit_def MAX_HEAD_LEN_def MAX_MSG_LEN_def)
  show ?thesis
  proof (cases "\<exists>m. st' = ControlLine m")
    case True
    then obtain m where m: "st' = ControlLine m" by blast
    have "\<not> (decode_control_line e False l = Some (Ok (Inl st1)) \<and> decode e False st1 q = Some (Ok None, st', p'))" for l st1 q
    proof (rule notI, elim conjE)
      assume a: "decode_control_line e False l = Some (Ok (Inl st1))" "decode e False st1 q = Some (Ok None, st', p')"
      with decode_waiting_message [OF e decode_control_line_inv [OF a(1)] decode_control_line_rank [OF a(1)] a(2)] m
      show False by simp
    qed
    with d' m c ControlLine lim decode_control_line_result [of e False] show ?thesis
      by (auto simp del: decode.simps split: if_splits option.splits sum.splits)
  next
    case False
    with d' obtain l st1 q where a: "decode_control_line e False l = Some (Ok (Inl st1))"
        "decode e False st1 q = Some (Ok None, st', p')"
      using decode_control_line_result [of e False]
      by (auto simp del: decode.simps split: if_splits option.splits sum.splits)
    from decode_waiting_message [OF e decode_control_line_inv [OF a(1)] decode_control_line_rank [OF a(1)] a(2)]
    show ?thesis using ControlLine by (cases st') auto
  qed
next
  case (Headers a b c d' f)
  with decode_waiting_message [OF e inv _ d] show ?thesis by (cases st') auto
next
  case (Payload a b c d' f g h)
  with decode_waiting_message [OF e inv _ d] show ?thesis by (cases st') auto
qed (use d in auto)

lemma decode_message_count:
  fixes e :: "('j, 'z) json_ext_scheme"
  assumes "decode e dbg st p = Some (r, ControlLine n, p')" and "status_rank st < 3"
  shows "n = 0"
proof -
  have payload: "n = 0" if "decode e dbg (Payload a b c d f g k) q = Some (r, ControlLine n, p')" for a b c d f g k q
    using that by (auto split: if_splits bind_splits)
  show ?thesis
  proof (cases st)
    case (Headers sid s r' h k)
    have "decode_headers e dbg p st \<noteq> Some (Inl (x :: 'j decoder_error), ControlLine n, p')" for x
      by (auto simp: Headers decode_headers_def split: bind_splits sum.splits)
    with assms(1) Headers obtain st2 q u where d: "(decode_headers e dbg p st :: (('j decoder_error + _) \<times> _) option) = Some (Inr u, st2, q)"
        "decode e dbg st2 q = Some (r, ControlLine n, p')"
      by (auto split: if_splits option.splits sum.splits prod.splits)
    then have "status_rank st2 = 1" using Headers decode_headers_rank by blast
    then obtain a b c k f g m where "st2 = Payload a b c k f g m" by (cases st2) auto
    with d(2) payload show ?thesis by metis
  next
    case (Payload a b c d f g k)
    with assms payload show ?thesis by metis
  qed (use assms in auto)
qed

lemma decode_count_ok:
  assumes e: "ext_ok e" and "count_ok st" and "decode e False st p = Some (r, st', p')"
  shows "count_ok st'"
proof (cases "\<exists>n. st = ControlLine n")
  case True
  then obtain n where n: "st = ControlLine n" by blast
  have "count_ok st'" if "decode_control_line e False l = Some (Ok (Inl st1))" "decode e False st1 q = Some (r, st', p')" for l st1 q
    using decode_message_count [OF _ decode_control_line_rank [OF that(1)]] that(2)
    by (cases st') (fastforce simp: MAX_HEAD_LEN_def)+
  with assms(3) [unfolded n decode_ControlLine [OF e]] assms(2) n show ?thesis
    by (auto simp del: decode.simps split: if_splits option.splits sum.splits)
next
  case False
  then have "status_rank st < 3" by (cases st) auto
  with decode_message_count [of e False st p r _ p'] assms(3) show ?thesis
    by (cases st') (auto simp: MAX_HEAD_LEN_def)
qed

lemma waiting_measure_less:
  assumes "length p' < waiting_limit" and "c \<noteq> []"
    and "status_rank st' < status_rank st \<or> status_rank st' = status_rank st \<and> p' = p"
  shows "waiting_measure st' (p' @ c) < waiting_measure st p"
proof (cases "status_rank st' < status_rank st")
  case True
  then have "status_rank st' * (waiting_limit + 1) + (waiting_limit + 1) \<le> status_rank st * (waiting_limit + 1)"
    by (metis Suc_leI add.commute mult_Suc mult_le_mono1)
  then show ?thesis by (simp add: waiting_measure_def)
next
  case False
  with assms show ?thesis by (cases c) (auto simp: waiting_measure_def)
qed

text \<open>The count of bytes already searched is not reset by an operation that is a control line alone: after
  an error that arrived in two reads, the first of six bytes, a complete PING of six bytes is not
  decoded although the buffer holds it and a fresh decoder reads it, so it waits until the server
  sends more.\<close>

lemma stale_count_stalls:
  "decode (ref_json f t) False (ControlLine 0) (''-ERR '' @ [CHR 0x27]) =
     Some (Ok None, ControlLine 6, ''-ERR '' @ [CHR 0x27]) \<and>
   decode (ref_json f t) False (ControlLine 6) (''-ERR '' @ [CHR 0x27] @ ''x'' @ [CHR 0x27] @ CRLF) =
     Some (Ok (Some (S_Error (Other ''x''))), ControlLine 6, []) \<and>
   decode (ref_json f t) False (ControlLine 6) (''PING'' @ CRLF) =
     Some (Ok None, ControlLine 6, ''PING'' @ CRLF) \<and>
   decode (ref_json f t) False (ControlLine 0) (''PING'' @ CRLF) = Some (Ok (Some S_Ping), ControlLine 0, [])"
proof -
  have o: "server_error_parse ''x'' = Other ''x''" by code_simp
  have u: "utf8_valid ''x''" by code_simp
  show ?thesis
    by (simp add: decode_ControlLine [OF ref_json_ok] decode_control_line_def decode_err_def decode_utf8_def
        sub_p_def truncate_to_def ends_with_def strip_prefix_def MAX_HEAD_LEN_def o u)
qed

section \<open>Properties\<close>

text \<open>C1: In a release build the decoder never panics, whatever bytes the server sends: it returns a
  result and a status that keeps the bounds on the message being read, a message it yields has a
  payload of at most 128 MiB and a well formed header map, and what it leaves of the buffer is a
  suffix of it.\<close>

theorem decoder_sound:
  fixes e :: "('j, 'z) json_ext_scheme"
  assumes "ext_ok e" and "status_inv (unicase_key e) st"
  shows "\<exists>(r :: 'j decoder_error + server_op option) st' b'. decode e False st b = Some (r, st', b') \<and>
    status_inv (unicase_key e) st' \<and> (\<exists>c. b = c @ b') \<and>
    (\<forall>m. r = Ok (Some (S_Message m)) \<longrightarrow> length (msg_payload (base m)) \<le> 128 * 1024 * 1024 \<and>
       header_map_inv (unicase_key e) (msg_headers (base m)))"
  using decode_sound [OF assms, of b] by (auto simp: sound_outcome_def MAX_MSG_LEN_def)

lemma decoder_sound_witness:
  "\<exists>r st' b'. decode (ref_json (\<lambda>_. Err ()) (\<lambda>_. ''{}'')) False (ControlLine 0) ''PIN'' = Some (r, st', b')"
  using decoder_sound [OF ref_json_ok [of "\<lambda>_. Err ()" "\<lambda>_. ''{}''"], of "ControlLine 0" "''PIN''"] by auto



end
