(* ===== verification/Buf_List.thy ===== *)
theory Buf_List
  imports Prelude
begin

text \<open>
  The trait \<open>bytes::Buf\<close> as an interface, and \<open>watermelon-proto/src/util/buf_list.rs\<close>, the queue of
  buffers that is itself a \<open>Buf\<close>. The queue is generic in the buffer it holds, so its operations take
  the operations of that buffer (a trait dictionary). \<open>remaining\<close> may panic because of the
  \<open>debug_assert!\<close>s inside it.
\<close>

record 'b buf_ops =
  op_remaining :: "'b \<Rightarrow> nat option"
  op_chunk :: "'b \<Rightarrow> bytes"
  op_chunks_vectored :: "nat \<Rightarrow> 'b \<Rightarrow> bytes list"
  op_advance :: "nat \<Rightarrow> 'b \<Rightarrow> 'b option"
  op_copy_to_bytes :: "nat \<Rightarrow> 'b \<Rightarrow> (bytes \<times> 'b) option"

text \<open>\<open>BufMut::put(buf.take(n))\<close>: move \<open>n\<close> bytes out of a buffer chunk by chunk. The loop would not
  end on a buffer whose chunk is empty although bytes remain; that is \<open>None\<close>, like a panic.\<close>

partial_function (option) put_take :: "'b buf_ops \<Rightarrow> nat \<Rightarrow> 'b \<Rightarrow> (bytes \<times> 'b) option" where
  "put_take ops n b = do {
     r \<leftarrow> op_remaining ops b;
     if min r n = 0 then Some ([], b)
     else do {
       let s = take n (op_chunk ops b);
       b \<leftarrow> op_advance ops (length s) b;
       (t, b) \<leftarrow> put_take ops (n - length s) b;
       Some (s @ t, b) } }"

section \<open>The contract of a buffer\<close>

text \<open>A source of bytes: what the transfer loop needs.\<close>

locale byte_src =
  fixes ops :: "'b buf_ops" and contents :: "'b \<Rightarrow> bytes" and invar :: "'b \<Rightarrow> bool"
  assumes remaining: "invar b \<Longrightarrow> op_remaining ops b = Some (length (contents b))"
    and chunk_prefix: "invar b \<Longrightarrow> \<exists>r. contents b = op_chunk ops b @ r"
    and chunk_nonempty: "invar b \<Longrightarrow> contents b \<noteq> [] \<Longrightarrow> op_chunk ops b \<noteq> []"
    and advance_in: "invar b \<Longrightarrow> n \<le> length (contents b) \<Longrightarrow>
      \<exists>b'. op_advance ops n b = Some b' \<and> invar b' \<and> contents b' = drop n (contents b)"
    and advance_out: "invar b \<Longrightarrow> length (contents b) < n \<Longrightarrow> op_advance ops n b = None"
begin

lemma put_take_in:
  assumes "invar b" and "n \<le> length (contents b)"
  shows "\<exists>b'. put_take ops n b = Some (take n (contents b), b') \<and> invar b' \<and>
    contents b' = drop n (contents b)"
  using assms
proof (induction n arbitrary: b rule: less_induct)
  case (less n)
  note inv = less.prems(1) and le = less.prems(2)
  show ?case
  proof (cases "n = 0")
    case True
    with inv show ?thesis by (subst put_take.simps) (simp add: remaining)
  next
    case False
    let ?c = "op_chunk ops b"
    let ?s = "take n ?c"
    from False le have "contents b \<noteq> []" by auto
    with inv have c: "?c \<noteq> []" by (rule chunk_nonempty)
    obtain r where r: "contents b = ?c @ r" using chunk_prefix [OF inv] by blast
    have sl: "length ?s \<le> n" "0 < length ?s" "length ?s \<le> length (contents b)"
      using c False le by auto
    obtain b' where b': "op_advance ops (length ?s) b = Some b'" "invar b'"
        "contents b' = drop (length ?s) (contents b)"
      using advance_in [OF inv sl(3)] by blast
    have "n - length ?s < n" "n - length ?s \<le> length (contents b')"
      using sl le b'(3) by auto
    from less.IH [OF this(1) b'(2) this(2)] obtain b'' where b'':
        "put_take ops (n - length ?s) b' = Some (take (n - length ?s) (contents b'), b'')"
        "invar b''" "contents b'' = drop (n - length ?s) (contents b')"
      by blast
    have s: "?s = take (length ?s) (contents b)" by (simp add: r min_def)
    have "?s @ take (n - length ?s) (contents b') = take n (contents b)"
      using sl by (simp only: b'(3)) (metis s le_add_diff_inverse take_add)
    moreover have "contents b'' = drop n (contents b)"
      using sl by (simp add: b'' b')
    ultimately show ?thesis
      using False \<open>contents b \<noteq> []\<close> b'' b' inv
      by (subst put_take.simps) (simp add: remaining Let_def)
  qed
qed

end

text \<open>A buffer: a source that also hands out vectored slices and owned copies.\<close>

locale byte_buf = byte_src +
  assumes vectored: "invar b \<Longrightarrow> \<exists>r. contents b = concat (op_chunks_vectored ops n b) @ r"
    and vectored_length: "invar b \<Longrightarrow> length (op_chunks_vectored ops n b) \<le> n"
    and vectored_full: "invar b \<Longrightarrow> length (op_chunks_vectored ops n b) < n \<Longrightarrow>
      concat (op_chunks_vectored ops n b) = contents b"
    and copy_in: "invar b \<Longrightarrow> n \<le> length (contents b) \<Longrightarrow>
      \<exists>b'. op_copy_to_bytes ops n b = Some (take n (contents b), b') \<and> invar b' \<and>
           contents b' = drop n (contents b)"
    and copy_out: "invar b \<Longrightarrow> length (contents b) < n \<Longrightarrow> op_copy_to_bytes ops n b = None"

section \<open>\<open>Bytes\<close> and \<open>BytesMut\<close>\<close>

definition bytes_ops :: "bytes buf_ops" where
  "bytes_ops = \<lparr> op_remaining = (\<lambda>b. Some (length b)), op_chunk = (\<lambda>b. b),
     op_chunks_vectored = (\<lambda>n b. if n = 0 \<or> b = [] then [] else [b]),
     op_advance = advance, op_copy_to_bytes = split_to \<rparr>"

lemma bytes_ops_sel [simp]:
  "op_remaining bytes_ops b = Some (length b)" "op_chunk bytes_ops b = b"
  "op_chunks_vectored bytes_ops n b = (if n = 0 \<or> b = [] then [] else [b])"
  "op_advance bytes_ops = advance" "op_copy_to_bytes bytes_ops = split_to"
  by (simp_all add: bytes_ops_def)

interpretation bytes: byte_buf bytes_ops "\<lambda>b. b" "\<lambda>_. True"
  by unfold_locales (auto simp: advance_def split_to_def)

section \<open>\<open>BufList\<close>\<close>

record 'b buf_list =
  bufs :: "'b list"
  len :: nat

definition buf_list_new :: "'b buf_list" where
  "buf_list_new = \<lparr> bufs = [], len = 0 \<rparr>"

definition buf_list_push :: "bool \<Rightarrow> 'b buf_ops \<Rightarrow> 'b \<Rightarrow> 'b buf_list \<Rightarrow> 'b buf_list option" where
  "buf_list_push dbg ops buf l = do {
     rem \<leftarrow> op_remaining ops buf;
     _ \<leftarrow> debug_assert dbg (rem > 0);
     Some (l\<lparr>bufs := bufs l @ [buf], len := len l + rem\<rparr>) }"

fun sum_remaining :: "'b buf_ops \<Rightarrow> 'b list \<Rightarrow> nat option" where
  "sum_remaining ops [] = Some 0"
| "sum_remaining ops (b # bs) = do {
     r \<leftarrow> op_remaining ops b; s \<leftarrow> sum_remaining ops bs; Some (r + s) }"

definition buf_list_remaining :: "bool \<Rightarrow> 'b buf_ops \<Rightarrow> 'b buf_list \<Rightarrow> nat option" where
  "buf_list_remaining dbg ops l = do {
     _ \<leftarrow> (if dbg then do { s \<leftarrow> sum_remaining ops (bufs l); assert_p (len l = s) } else Some ());
     Some (len l) }"

definition buf_list_has_remaining :: "bool \<Rightarrow> 'b buf_list \<Rightarrow> bool option" where
  "buf_list_has_remaining dbg l = do {
     _ \<leftarrow> debug_assert dbg ((len l = 0) = (bufs l = []));
     Some (bufs l \<noteq> []) }"

definition buf_list_chunk :: "'b buf_ops \<Rightarrow> 'b buf_list \<Rightarrow> bytes" where
  "buf_list_chunk ops l = (case bufs l of [] \<Rightarrow> [] | b # _ \<Rightarrow> op_chunk ops b)"

fun buf_list_advance_loop :: "'b buf_ops \<Rightarrow> nat \<Rightarrow> 'b list \<Rightarrow> nat \<Rightarrow> 'b buf_list option" where
  "buf_list_advance_loop ops cnt [] n = (if cnt > 0 then None else Some \<lparr>bufs = [], len = n\<rparr>)"
| "buf_list_advance_loop ops cnt (entry # bs) n =
     (if cnt > 0 then do {
        remaining \<leftarrow> op_remaining ops entry;
        if remaining > cnt then do {
          entry \<leftarrow> op_advance ops cnt entry;
          n \<leftarrow> sub_p n cnt;
          Some \<lparr>bufs = entry # bs, len = n\<rparr> }
        else do {
          n \<leftarrow> sub_p n remaining;
          buf_list_advance_loop ops (cnt - remaining) bs n } }
      else Some \<lparr>bufs = entry # bs, len = n\<rparr>)"

definition buf_list_advance :: "bool \<Rightarrow> 'b buf_ops \<Rightarrow> nat \<Rightarrow> 'b buf_list \<Rightarrow> 'b buf_list option" where
  "buf_list_advance dbg ops cnt l = do {
     r \<leftarrow> buf_list_remaining dbg ops l;
     _ \<leftarrow> assert_p (cnt \<le> r);
     buf_list_advance_loop ops cnt (bufs l) (len l) }"

fun buf_list_vectored_loop :: "'b buf_ops \<Rightarrow> nat \<Rightarrow> 'b list \<Rightarrow> bytes list" where
  "buf_list_vectored_loop ops dst [] = []"
| "buf_list_vectored_loop ops dst (buf # bs) =
     (let n = op_chunks_vectored ops dst buf; dst = dst - length n in
      n @ (if dst = 0 then [] else buf_list_vectored_loop ops dst bs))"

definition buf_list_chunks_vectored :: "'b buf_ops \<Rightarrow> nat \<Rightarrow> 'b buf_list \<Rightarrow> bytes list" where
  "buf_list_chunks_vectored ops dst l = buf_list_vectored_loop ops dst (bufs l)"

text \<open>The operations the slow path of \<open>copy_to_bytes\<close> uses through \<open>self.take(len)\<close>.\<close>

definition buf_list_take_ops :: "bool \<Rightarrow> 'b buf_ops \<Rightarrow> 'b buf_list buf_ops" where
  "buf_list_take_ops dbg ops = \<lparr> op_remaining = buf_list_remaining dbg ops,
     op_chunk = buf_list_chunk ops, op_chunks_vectored = buf_list_chunks_vectored ops,
     op_advance = buf_list_advance dbg ops, op_copy_to_bytes = (\<lambda>_ _. None) \<rparr>"

definition buf_list_copy_to_bytes ::
    "bool \<Rightarrow> 'b buf_ops \<Rightarrow> nat \<Rightarrow> 'b buf_list \<Rightarrow> (bytes \<times> 'b buf_list) option" where
  "buf_list_copy_to_bytes dbg ops n l = do {
     r \<leftarrow> buf_list_remaining dbg ops l;
     _ \<leftarrow> assert_p (n \<le> r);
     let slow = do {
       (out, l) \<leftarrow> put_take (buf_list_take_ops dbg ops) n l;
       _ \<leftarrow> debug_assert dbg (length out = n);
       Some (out, l) };
     case bufs l of
       [] \<Rightarrow> slow
     | first # bs \<Rightarrow> do {
         fr \<leftarrow> op_remaining ops first;
         if fr > n then do {
           ln \<leftarrow> sub_p (len l) n;
           (out, first) \<leftarrow> op_copy_to_bytes ops n first;
           Some (out, l\<lparr>bufs := first # bs, len := ln\<rparr>) }
         else if fr = n then do {
           ln \<leftarrow> sub_p (len l) n;
           (out, _) \<leftarrow> op_copy_to_bytes ops n first;
           Some (out, l\<lparr>bufs := bs, len := ln\<rparr>) }
         else slow } }"

definition buf_list_ops :: "bool \<Rightarrow> 'b buf_ops \<Rightarrow> 'b buf_list buf_ops" where
  "buf_list_ops dbg ops = (buf_list_take_ops dbg ops)
     \<lparr> op_copy_to_bytes := buf_list_copy_to_bytes dbg ops \<rparr>"


section \<open>A queue of buffers is a buffer\<close>

definition buf_list_contents :: "('b \<Rightarrow> bytes) \<Rightarrow> 'b buf_list \<Rightarrow> bytes" where
  "buf_list_contents contents l = concat (map contents (bufs l))"

definition buf_list_inv :: "('b \<Rightarrow> bytes) \<Rightarrow> ('b \<Rightarrow> bool) \<Rightarrow> 'b buf_list \<Rightarrow> bool" where
  "buf_list_inv contents invar l \<longleftrightarrow> (\<forall>b\<in>set (bufs l). invar b \<and> contents b \<noteq> []) \<and>
     len l = length (buf_list_contents contents l)"

context byte_buf
begin

abbreviation "bl_contents \<equiv> buf_list_contents contents"
abbreviation "bl_inv \<equiv> buf_list_inv contents invar"

lemma sum_remaining_eq:
  "\<forall>b\<in>set bs. invar b \<Longrightarrow> sum_remaining ops bs = Some (length (concat (map contents bs)))"
  by (induction bs) (auto simp: remaining)

lemma buf_list_remaining_eq: "bl_inv l \<Longrightarrow> buf_list_remaining dbg ops l = Some (length (bl_contents l))"
  by (auto simp: buf_list_remaining_def buf_list_inv_def buf_list_contents_def sum_remaining_eq)

lemma buf_list_has_remaining_eq:
  "bl_inv l \<Longrightarrow> buf_list_has_remaining dbg l = Some (bl_contents l \<noteq> [])"
  by (cases "bufs l") (auto simp: buf_list_has_remaining_def buf_list_inv_def buf_list_contents_def)

lemma buf_list_new_inv: "bl_inv buf_list_new" "bl_contents buf_list_new = []"
  by (simp_all add: buf_list_new_def buf_list_inv_def buf_list_contents_def)

lemma buf_list_push_eq:
  assumes "bl_inv l" "invar b" "contents b \<noteq> []"
  shows "\<exists>l'. buf_list_push dbg ops b l = Some l' \<and> bl_inv l' \<and> bl_contents l' = bl_contents l @ contents b"
  using assms by (auto simp: buf_list_push_def remaining buf_list_inv_def buf_list_contents_def)

lemma buf_list_chunk_prefix: "bl_inv l \<Longrightarrow> \<exists>r. bl_contents l = buf_list_chunk ops l @ r"
  using chunk_prefix
  by (cases "bufs l") (fastforce simp: buf_list_chunk_def buf_list_contents_def buf_list_inv_def)+

lemma buf_list_chunk_nonempty:
  "bl_inv l \<Longrightarrow> bl_contents l \<noteq> [] \<Longrightarrow> buf_list_chunk ops l \<noteq> []"
  using chunk_nonempty
  by (cases "bufs l") (auto simp: buf_list_chunk_def buf_list_contents_def buf_list_inv_def)

lemma advance_loop_in:
  assumes "\<forall>b\<in>set bs. invar b \<and> contents b \<noteq> []" and "n = length (concat (map contents bs))"
    and "cnt \<le> n"
  shows "\<exists>l'. buf_list_advance_loop ops cnt bs n = Some l' \<and> bl_inv l' \<and>
    bl_contents l' = drop cnt (concat (map contents bs))"
  using assms
proof (induction bs arbitrary: cnt n)
  case Nil
  then show ?case by (simp add: buf_list_inv_def buf_list_contents_def)
next
  case (Cons b bs)
  then have b: "invar b" "contents b \<noteq> []" and bs: "\<forall>b\<in>set bs. invar b \<and> contents b \<noteq> []"
    by auto
  consider "cnt = 0" | "0 < cnt" "cnt < length (contents b)" | "0 < cnt" "length (contents b) \<le> cnt"
    by linarith
  then show ?case
  proof cases
    case 1
    with Cons.prems show ?thesis by (auto simp: buf_list_inv_def buf_list_contents_def)
  next
    case 2
    then obtain b' where "op_advance ops cnt b = Some b'" "invar b'" "contents b' = drop cnt (contents b)"
      using advance_in [OF b(1), of cnt] by auto
    with 2 Cons.prems show ?thesis
      by (auto simp: remaining buf_list_inv_def buf_list_contents_def)
  next
    case 3
    let ?r = "length (contents b)"
    have "\<exists>l'. buf_list_advance_loop ops (cnt - ?r) bs (n - ?r) = Some l' \<and> bl_inv l' \<and>
        bl_contents l' = drop (cnt - ?r) (concat (map contents bs))"
      using 3 Cons.prems by (intro Cons.IH [OF bs]) auto
    with 3 b Cons.prems show ?thesis by (auto simp: remaining)
  qed
qed

lemma buf_list_advance_in:
  assumes "bl_inv l" and "cnt \<le> length (bl_contents l)"
  shows "\<exists>l'. buf_list_advance dbg ops cnt l = Some l' \<and> bl_inv l' \<and>
    bl_contents l' = drop cnt (bl_contents l)"
  using assms advance_loop_in [of "bufs l" "len l" cnt]
  by (simp add: buf_list_advance_def buf_list_remaining_eq) (simp add: buf_list_inv_def buf_list_contents_def)

lemma buf_list_advance_out:
  "bl_inv l \<Longrightarrow> length (bl_contents l) < cnt \<Longrightarrow> buf_list_advance dbg ops cnt l = None"
  by (simp add: buf_list_advance_def buf_list_remaining_eq)

lemma vectored_loop:
  assumes "\<forall>b\<in>set bs. invar b" and "0 < dst"
  shows "length (buf_list_vectored_loop ops dst bs) \<le> dst \<and>
    (\<exists>r. concat (map contents bs) = concat (buf_list_vectored_loop ops dst bs) @ r) \<and>
    (length (buf_list_vectored_loop ops dst bs) < dst \<longrightarrow>
       concat (buf_list_vectored_loop ops dst bs) = concat (map contents bs))"
  using assms
proof (induction bs arbitrary: dst)
  case Nil
  then show ?case by simp
next
  case (Cons b bs)
  then have b: "invar b" by simp
  let ?n = "op_chunks_vectored ops dst b"
  obtain r where r: "contents b = concat ?n @ r" using vectored [OF b] by blast
  note le = vectored_length [OF b, of dst]
  show ?case
  proof (cases "length ?n = dst")
    case True
    with r show ?thesis by (simp add: Let_def)
  next
    case False
    with le have lt: "length ?n < dst" by simp
    then have full: "concat ?n = contents b" by (rule vectored_full [OF b])
    have IH: "length (buf_list_vectored_loop ops (dst - length ?n) bs) \<le> dst - length ?n \<and>
        (\<exists>r. concat (map contents bs) =
          concat (buf_list_vectored_loop ops (dst - length ?n) bs) @ r) \<and>
        (length (buf_list_vectored_loop ops (dst - length ?n) bs) < dst - length ?n \<longrightarrow>
          concat (buf_list_vectored_loop ops (dst - length ?n) bs) = concat (map contents bs))"
      using Cons.prems lt by (intro Cons.IH) auto
    with lt full show ?thesis by (auto simp: Let_def)
  qed
qed

lemma vectored_loop_0: "\<forall>b\<in>set bs. invar b \<Longrightarrow> buf_list_vectored_loop ops 0 bs = []"
  by (cases bs) (use vectored_length [of _ 0] in \<open>auto simp: Let_def\<close>)

lemma buf_list_vectored:
  assumes "bl_inv l"
  shows "length (buf_list_chunks_vectored ops n l) \<le> n"
    and "\<exists>r. bl_contents l = concat (buf_list_chunks_vectored ops n l) @ r"
    and "length (buf_list_chunks_vectored ops n l) < n \<Longrightarrow>
      concat (buf_list_chunks_vectored ops n l) = bl_contents l"
proof -
  have inv: "\<forall>b\<in>set (bufs l). invar b" using assms by (simp add: buf_list_inv_def)
  note v = vectored_loop [OF inv, of n] vectored_loop_0 [OF inv]
  show "length (buf_list_chunks_vectored ops n l) \<le> n"
    and "\<exists>r. bl_contents l = concat (buf_list_chunks_vectored ops n l) @ r"
    and "length (buf_list_chunks_vectored ops n l) < n \<Longrightarrow>
      concat (buf_list_chunks_vectored ops n l) = bl_contents l"
    using v by (cases "n = 0"; auto simp: buf_list_chunks_vectored_def buf_list_contents_def)+
qed

text \<open>The slow path of \<open>copy_to_bytes\<close> moves the first \<open>len\<close> bytes.\<close>

lemma buf_list_src: "byte_src (buf_list_take_ops dbg ops) bl_contents bl_inv"
  by unfold_locales
    (simp_all add: buf_list_take_ops_def buf_list_remaining_eq buf_list_chunk_prefix
      buf_list_chunk_nonempty buf_list_advance_in buf_list_advance_out)

lemmas buf_list_put_take = byte_src.put_take_in [OF buf_list_src]

lemma buf_list_slow:
  assumes "bl_inv l" and "n \<le> length (bl_contents l)"
  shows "\<exists>l'. do { (out, l) \<leftarrow> put_take (buf_list_take_ops dbg ops) n l;
       _ \<leftarrow> debug_assert dbg (length out = n); Some (out, l) } = Some (take n (bl_contents l), l') \<and>
    bl_inv l' \<and> bl_contents l' = drop n (bl_contents l)"
  using buf_list_put_take [OF assms, of dbg] assms(2) by auto

lemma buf_list_copy_in:
  assumes inv: "bl_inv l" and le: "n \<le> length (bl_contents l)"
  shows "\<exists>l'. buf_list_copy_to_bytes dbg ops n l = Some (take n (bl_contents l), l') \<and>
    bl_inv l' \<and> bl_contents l' = drop n (bl_contents l)"
proof (cases "bufs l")
  case Nil
  with buf_list_slow [OF inv le, of dbg] le show ?thesis
    by (simp add: buf_list_copy_to_bytes_def buf_list_remaining_eq [OF inv] Let_def)
next
  case (Cons b bs)
  with inv have b: "invar b" "contents b \<noteq> []" and bs: "\<forall>b\<in>set bs. invar b \<and> contents b \<noteq> []"
      and ln: "len l = length (contents b @ concat (map contents bs))"
    by (auto simp: buf_list_inv_def buf_list_contents_def)
  have c: "bl_contents l = contents b @ concat (map contents bs)"
    by (simp add: buf_list_contents_def Cons)
  consider "n < length (contents b)" | "n = length (contents b)" | "length (contents b) < n"
    by linarith
  then show ?thesis
  proof cases
    case 1
    then obtain b' where "op_copy_to_bytes ops n b = Some (take n (contents b), b')" "invar b'"
        "contents b' = drop n (contents b)"
      using copy_in [OF b(1), of n] by auto
    with 1 b bs ln le show ?thesis
      by (auto simp: buf_list_copy_to_bytes_def buf_list_remaining_eq [OF inv] Cons remaining c
          buf_list_inv_def buf_list_contents_def)
  next
    case 2
    then obtain b' where "op_copy_to_bytes ops n b = Some (contents b, b')"
      using copy_in [OF b(1), of n] by auto
    with 2 b bs ln le show ?thesis
      by (auto simp: buf_list_copy_to_bytes_def buf_list_remaining_eq [OF inv] Cons remaining c
          buf_list_inv_def buf_list_contents_def)
  next
    case 3
    with buf_list_slow [OF inv le, of dbg] le b show ?thesis
      by (simp add: buf_list_copy_to_bytes_def buf_list_remaining_eq [OF inv] Cons remaining Let_def)
  qed
qed

lemma buf_list_copy_out:
  "bl_inv l \<Longrightarrow> length (bl_contents l) < n \<Longrightarrow> buf_list_copy_to_bytes dbg ops n l = None"
  by (simp add: buf_list_copy_to_bytes_def buf_list_remaining_eq)

lemma buf_list_is_buf: "byte_buf (buf_list_ops dbg ops) bl_contents bl_inv"
  by unfold_locales
    (simp_all add: buf_list_ops_def buf_list_take_ops_def buf_list_remaining_eq buf_list_chunk_prefix
      buf_list_chunk_nonempty buf_list_advance_in buf_list_advance_out buf_list_vectored
      buf_list_copy_in buf_list_copy_out)

end

text \<open>The queue the encoder holds: a \<open>BufList<Bytes>\<close>.\<close>

abbreviation "bytes_list_contents \<equiv> buf_list_contents (\<lambda>b :: bytes. b)"
abbreviation "bytes_list_inv \<equiv> buf_list_inv (\<lambda>b :: bytes. b) (\<lambda>_. True)"

interpretation bytes_list: byte_buf "buf_list_ops dbg bytes_ops" bytes_list_contents bytes_list_inv
  for dbg
  by (rule bytes.buf_list_is_buf)

end
