(* ===== verification/Encoder.thy ===== *)
theory Encoder
  imports Proto_Types Buf_List
begin

text \<open>
  \<open>watermelon-proto/src/proto/encoder\<close>: the encoder of client operations. \<open>encode\<close> is generic in the
  writer, the trait \<open>FrameEncoder\<close>; \<open>FramedEncoder\<close> collects one frame, \<open>StreamEncoder\<close> is a buffer that
  keeps large payloads apart and is itself drained through the trait \<open>Buf\<close>.
\<close>

section \<open>The trait and \<open>encode\<close>\<close>

record 'w frame_encoder =
  small_write :: "bytes \<Rightarrow> 'w \<Rightarrow> 'w option"
  fe_write :: "bytes \<Rightarrow> 'w \<Rightarrow> 'w option"

text \<open>The default \<open>write\<close> of the trait, and a run of small writes.\<close>

definition default_write :: "(bytes \<Rightarrow> 'w \<Rightarrow> 'w option) \<Rightarrow> bytes \<Rightarrow> 'w \<Rightarrow> 'w option" where
  "default_write sw buf w = sw buf w"

fun small_writes :: "'w frame_encoder \<Rightarrow> bytes list \<Rightarrow> 'w \<Rightarrow> 'w option" where
  "small_writes fe [] w = Some w"
| "small_writes fe (b # bs) w = do { w \<leftarrow> small_write fe b w; small_writes fe bs w }"

definition encode_headers :: "header_map \<Rightarrow> bytes list" where
  "encode_headers m =
     [''NATS/1.0'' @ CRLF] @
     concat (map (\<lambda>(name, values).
       concat (map (\<lambda>value. [header_name_as_str name, '': '', header_value_as_bytes value, CRLF]) values))
       (header_map_iter m)) @
     [CRLF]"

fun encode :: "('j, 'z) json_ext_scheme \<Rightarrow> 'w frame_encoder \<Rightarrow> client_op \<Rightarrow> 'w \<Rightarrow> 'w option" where
  "encode e fe (C_Publish message) w = do {
     let hdrs = msg_headers message;
     let payload = msg_payload message;
     w \<leftarrow> small_write fe (if header_map_is_empty hdrs then ''PUB '' else ''HPUB '') w;
     w \<leftarrow> small_write fe (subject_as_str (msg_subject message)) w;
     w \<leftarrow> small_write fe '' '' w;
     w \<leftarrow> (case msg_reply_subject message of
         None \<Rightarrow> Some w
       | Some reply \<Rightarrow> do { w \<leftarrow> small_write fe (subject_as_str reply) w; small_write fe '' '' w });
     w \<leftarrow> (if header_map_is_empty hdrs then do {
            w \<leftarrow> small_write fe (itoa e (length payload)) w;
            small_write fe CRLF w }
          else do {
            let headers_len = foldl (\<lambda>n s. n + length s) 0 (encode_headers hdrs);
            w \<leftarrow> small_write fe (itoa e headers_len) w;
            w \<leftarrow> small_write fe '' '' w;
            w \<leftarrow> small_write fe (itoa e (headers_len + length payload)) w;
            w \<leftarrow> small_write fe CRLF w;
            small_writes fe (encode_headers hdrs) w });
     w \<leftarrow> fe_write fe payload w;
     small_write fe CRLF w }"
| "encode e fe (C_Subscribe sid subject queue_group) w = do {
     w \<leftarrow> small_write fe ''SUB '' w;
     w \<leftarrow> small_write fe (subject_as_str subject) w;
     w \<leftarrow> small_write fe '' '' w;
     w \<leftarrow> (case queue_group of
         None \<Rightarrow> Some w
       | Some q \<Rightarrow> do { w \<leftarrow> small_write fe (queue_group_as_str q) w; small_write fe '' '' w });
     w \<leftarrow> small_write fe (itoa e (unat sid)) w;
     small_write fe CRLF w }"
| "encode e fe (C_Unsubscribe sid max_messages) w = do {
     w \<leftarrow> small_write fe ''UNSUB '' w;
     w \<leftarrow> small_write fe (itoa e (unat sid)) w;
     w \<leftarrow> (case max_messages of
         None \<Rightarrow> Some w
       | Some n \<Rightarrow> do { w \<leftarrow> small_write fe '' '' w; small_write fe (itoa e (unat n)) w });
     small_write fe CRLF w }"
| "encode e fe (C_Connect con) w = do {
     w \<leftarrow> small_write fe ''CONNECT '' w;
     w \<leftarrow> small_write fe (to_json_connect e con) w;
     small_write fe CRLF w }"
| "encode e fe C_Ping w = small_write fe (''PING'' @ CRLF) w"
| "encode e fe C_Pong w = small_write fe (''PONG'' @ CRLF) w"

section \<open>What a writer promises\<close>

text \<open>The text of an operation, and the contract of a writer: both writes append.\<close>

definition headers_text :: "header_map \<Rightarrow> bytes" where
  "headers_text m = concat (encode_headers m)"

fun client_op_text :: "('j, 'z) json_ext_scheme \<Rightarrow> client_op \<Rightarrow> bytes" where
  "client_op_text e (C_Publish m) =
     (let h = msg_headers m; p = msg_payload m;
          target = subject_as_str (msg_subject m) @ '' '' @
            (case msg_reply_subject m of None \<Rightarrow> [] | Some r \<Rightarrow> subject_as_str r @ '' '') in
      if header_map_is_empty h
      then ''PUB '' @ target @ itoa e (length p) @ CRLF @ p @ CRLF
      else ''HPUB '' @ target @ itoa e (length (headers_text h)) @ '' '' @
        itoa e (length (headers_text h) + length p) @ CRLF @ headers_text h @ p @ CRLF)"
| "client_op_text e (C_Subscribe sid s q) =
     ''SUB '' @ subject_as_str s @ '' '' @
     (case q of None \<Rightarrow> [] | Some q \<Rightarrow> queue_group_as_str q @ '' '') @ itoa e (unat sid) @ CRLF"
| "client_op_text e (C_Unsubscribe sid n) =
     ''UNSUB '' @ itoa e (unat sid) @ (case n of None \<Rightarrow> [] | Some n \<Rightarrow> '' '' @ itoa e (unat n)) @ CRLF"
| "client_op_text e (C_Connect c) = ''CONNECT '' @ to_json_connect e c @ CRLF"
| "client_op_text e C_Ping = ''PING'' @ CRLF"
| "client_op_text e C_Pong = ''PONG'' @ CRLF"

locale frame_writer =
  fixes fe :: "'w frame_encoder" and out :: "'w \<Rightarrow> bytes" and invar :: "'w \<Rightarrow> bool"
  assumes small_write_appends:
      "invar w \<Longrightarrow> \<exists>w'. small_write fe b w = Some w' \<and> invar w' \<and> out w' = out w @ b"
    and write_appends:
      "invar w \<Longrightarrow> \<exists>w'. fe_write fe b w = Some w' \<and> invar w' \<and> out w' = out w @ b"
begin

definition appends :: "('w \<Rightarrow> 'w option) \<Rightarrow> bytes \<Rightarrow> bool" where
  "appends f b \<longleftrightarrow> (\<forall>w. invar w \<longrightarrow> (\<exists>w'. f w = Some w' \<and> invar w' \<and> out w' = out w @ b))"

lemma appends_small_write: "appends (small_write fe b) b"
  using small_write_appends by (simp add: appends_def)

lemma appends_write: "appends (fe_write fe b) b"
  using write_appends by (simp add: appends_def)

lemma appends_Some: "appends Some []"
  by (simp add: appends_def)

lemma appends_bind: "appends f a \<Longrightarrow> appends g b \<Longrightarrow> appends (\<lambda>w. Option.bind (f w) g) (a @ b)"
  unfolding appends_def by (metis append.assoc bind.bind_lunit)

lemma appends_small_writes: "appends (small_writes fe bs) (concat bs)"
  by (induction bs) (simp_all add: appends_Some appends_bind appends_small_write)

lemma appends_cong: "appends f a \<Longrightarrow> a = b \<Longrightarrow> appends f b"
  by simp

lemma foldl_length: "foldl (\<lambda>n s. n + length s) k bs = k + length (concat bs)"
  by (induction bs arbitrary: k) simp_all

lemmas appends_intros = appends_small_write appends_write appends_small_writes appends_Some appends_bind

lemma appends_encode: "appends (\<lambda>w. encode e fe op w) (client_op_text e op)"
proof (cases op)
  case (C_Publish m)
  show ?thesis
    unfolding C_Publish encode.simps client_op_text.simps Let_def
    by (cases "msg_reply_subject m"; cases "header_map_is_empty (msg_headers m)";
        simp only: option.case if_True if_False foldl_length headers_text_def;
        rule appends_cong, (rule appends_intros)+, simp)
next
  case (C_Subscribe sid s q)
  show ?thesis
    unfolding C_Subscribe encode.simps client_op_text.simps
    by (cases q; simp only: option.case; rule appends_cong, (rule appends_intros)+, simp)
next
  case (C_Unsubscribe sid n)
  show ?thesis
    unfolding C_Unsubscribe encode.simps client_op_text.simps
    by (cases n; simp only: option.case; rule appends_cong, (rule appends_intros)+, simp)
next
  case (C_Connect c)
  show ?thesis
    unfolding C_Connect encode.simps client_op_text.simps
    by (rule appends_cong, (rule appends_intros)+, simp)
qed (simp_all add: appends_small_write)

lemma encode_appends:
  "invar w \<Longrightarrow> \<exists>w'. encode e fe op w = Some w' \<and> invar w' \<and> out w' = out w @ client_op_text e op"
  by (rule appends_encode [unfolded appends_def, rule_format])

end

section \<open>\<open>FramedEncoder\<close>\<close>

definition framed_ops :: "bytes frame_encoder" where
  "framed_ops = \<lparr> small_write = (\<lambda>buf w. Some (w @ buf)),
     fe_write = default_write (\<lambda>buf w. Some (w @ buf)) \<rparr>"

text \<open>\<open>FramedEncoder::encode\<close>: the frame is split off the buffer, which is then empty again.\<close>

definition framed_encode ::
    "('j, 'z) json_ext_scheme \<Rightarrow> client_op \<Rightarrow> bytes \<Rightarrow> (bytes \<times> bytes) option" where
  "framed_encode e item buf = do { buf \<leftarrow> encode e framed_ops item buf; Some (buf, []) }"

interpretation framed: frame_writer framed_ops "\<lambda>w. w" "\<lambda>_. True"
  by unfold_locales (simp_all add: framed_ops_def default_write_def)

lemma framed_encode_eq: "framed_encode e item [] = Some (client_op_text e item, [])"
  using framed.encode_appends [where w = "[]" and e = e and op = item] by (simp add: framed_encode_def)

section \<open>\<open>StreamEncoder\<close>\<close>

definition WRITE_FLATTEN_THRESHOLD :: nat where "WRITE_FLATTEN_THRESHOLD = 4096"

record stream_encoder =
  write_buf :: "bytes buf_list"
  flattened_writes :: bytes

definition stream_encoder_new :: stream_encoder where
  "stream_encoder_new = \<lparr> write_buf = buf_list_new, flattened_writes = [] \<rparr>"

definition stream_small_write :: "bytes \<Rightarrow> stream_encoder \<Rightarrow> stream_encoder option" where
  "stream_small_write buf s = Some (s\<lparr>flattened_writes := flattened_writes s @ buf\<rparr>)"

definition stream_write :: "bool \<Rightarrow> bytes \<Rightarrow> stream_encoder \<Rightarrow> stream_encoder option" where
  "stream_write dbg buf s =
     (if length buf = 0 then Some s
      else if length buf < WRITE_FLATTEN_THRESHOLD
      then Some (s\<lparr>flattened_writes := flattened_writes s @ buf\<rparr>)
      else do {
        s \<leftarrow> (if flattened_writes s \<noteq> [] then do {
                 wb \<leftarrow> buf_list_push dbg bytes_ops (flattened_writes s) (write_buf s);
                 Some (s\<lparr>write_buf := wb, flattened_writes := []\<rparr>) }
               else Some s);
        wb \<leftarrow> buf_list_push dbg bytes_ops buf (write_buf s);
        Some (s\<lparr>write_buf := wb\<rparr>) })"

definition stream_writer :: "bool \<Rightarrow> stream_encoder frame_encoder" where
  "stream_writer dbg = \<lparr> small_write = stream_small_write, fe_write = stream_write dbg \<rparr>"

definition enqueue_write_op ::
    "('j, 'z) json_ext_scheme \<Rightarrow> bool \<Rightarrow> client_op \<Rightarrow> stream_encoder \<Rightarrow> stream_encoder option" where
  "enqueue_write_op e dbg item s = encode e (stream_writer dbg) item s"

definition stream_remaining :: "bool \<Rightarrow> stream_encoder \<Rightarrow> nat option" where
  "stream_remaining dbg s = do {
     n \<leftarrow> buf_list_remaining dbg bytes_ops (write_buf s);
     Some (n + length (flattened_writes s)) }"

definition stream_has_remaining :: "bool \<Rightarrow> stream_encoder \<Rightarrow> bool option" where
  "stream_has_remaining dbg s = do {
     r \<leftarrow> buf_list_has_remaining dbg (write_buf s);
     Some (r \<or> flattened_writes s \<noteq> []) }"

definition stream_chunk :: "stream_encoder \<Rightarrow> bytes" where
  "stream_chunk s =
     (let chunk = buf_list_chunk bytes_ops (write_buf s) in
      if chunk = [] then flattened_writes s else chunk)"

definition stream_chunks_vectored :: "nat \<Rightarrow> stream_encoder \<Rightarrow> bytes list" where
  "stream_chunks_vectored dst s =
     (let v = buf_list_chunks_vectored bytes_ops dst (write_buf s) in
      v @ op_chunks_vectored bytes_ops (dst - length v) (flattened_writes s))"

text \<open>The unflattened rest after \<open>rem\<close> bytes have gone: cleared rather than advanced when all have.\<close>

definition flattened_advance :: "nat \<Rightarrow> stream_encoder \<Rightarrow> stream_encoder option" where
  "flattened_advance rem s =
     (if rem = length (flattened_writes s) then Some (s\<lparr>flattened_writes := []\<rparr>)
      else do { f \<leftarrow> advance rem (flattened_writes s); Some (s\<lparr>flattened_writes := f\<rparr>) })"

definition stream_advance :: "bool \<Rightarrow> nat \<Rightarrow> stream_encoder \<Rightarrow> stream_encoder option" where
  "stream_advance dbg cnt s = do {
     r \<leftarrow> stream_remaining dbg s;
     _ \<leftarrow> assert_p (cnt \<le> r);
     n \<leftarrow> buf_list_remaining dbg bytes_ops (write_buf s);
     let mid = min n cnt;
     wb \<leftarrow> buf_list_advance dbg bytes_ops mid (write_buf s);
     rem \<leftarrow> sub_p cnt mid;
     flattened_advance rem (s\<lparr>write_buf := wb\<rparr>) }"

definition stream_copy_to_bytes :: "bool \<Rightarrow> nat \<Rightarrow> stream_encoder \<Rightarrow> (bytes \<times> stream_encoder) option" where
  "stream_copy_to_bytes dbg n s = do {
     r \<leftarrow> stream_remaining dbg s;
     _ \<leftarrow> assert_p (n \<le> r);
     w \<leftarrow> buf_list_remaining dbg bytes_ops (write_buf s);
     if w \<ge> n then do {
       (out, wb) \<leftarrow> buf_list_copy_to_bytes dbg bytes_ops n (write_buf s);
       Some (out, s\<lparr>write_buf := wb\<rparr>) }
     else do {
       has \<leftarrow> buf_list_has_remaining dbg (write_buf s);
       if \<not> has then do {
         (out, f) \<leftarrow> split_to n (flattened_writes s);
         Some (out, s\<lparr>flattened_writes := f\<rparr>) }
       else do {
         rem \<leftarrow> sub_p n w;
         (bufs, wb) \<leftarrow> put_take (buf_list_ops dbg bytes_ops) w (write_buf s);
         (tail, _) \<leftarrow> split_to rem (flattened_writes s);
         s \<leftarrow> flattened_advance rem (s\<lparr>write_buf := wb\<rparr>);
         Some (bufs @ tail, s) } } }"

definition stream_ops :: "bool \<Rightarrow> stream_encoder buf_ops" where
  "stream_ops dbg = \<lparr> op_remaining = stream_remaining dbg, op_chunk = stream_chunk,
     op_chunks_vectored = stream_chunks_vectored, op_advance = stream_advance dbg,
     op_copy_to_bytes = stream_copy_to_bytes dbg \<rparr>"

section \<open>The stream encoder is a writer and a buffer\<close>

definition stream_contents :: "stream_encoder \<Rightarrow> bytes" where
  "stream_contents s = bytes_list_contents (write_buf s) @ flattened_writes s"

definition stream_inv :: "stream_encoder \<Rightarrow> bool" where
  "stream_inv s \<longleftrightarrow> bytes_list_inv (write_buf s)"

lemmas bl_remaining = bytes.buf_list_remaining_eq
lemmas bl_has_remaining = bytes.buf_list_has_remaining_eq

lemma stream_encoder_new_inv: "stream_inv stream_encoder_new" "stream_contents stream_encoder_new = []"
  by (simp_all add: stream_inv_def stream_contents_def stream_encoder_new_def bytes.buf_list_new_inv)

lemma stream_write_appends:
  assumes "stream_inv s"
  shows "\<exists>s'. stream_write dbg b s = Some s' \<and> stream_inv s' \<and> stream_contents s' = stream_contents s @ b"
proof (cases "b = [] \<or> length b < WRITE_FLATTEN_THRESHOLD")
  case True
  with assms show ?thesis by (auto simp: stream_write_def stream_inv_def stream_contents_def)
next
  case False
  then have b: "b \<noteq> []" "\<not> length b < WRITE_FLATTEN_THRESHOLD" by auto
  show ?thesis
  proof (cases "flattened_writes s = []")
    case True
    with b assms bytes.buf_list_push_eq [of "write_buf s" b dbg] show ?thesis
      by (auto simp: stream_write_def stream_inv_def stream_contents_def)
  next
    case False
    with assms obtain wb where wb: "buf_list_push dbg bytes_ops (flattened_writes s) (write_buf s) = Some wb"
        "bytes_list_inv wb" "bytes_list_contents wb = bytes_list_contents (write_buf s) @ flattened_writes s"
      using bytes.buf_list_push_eq [of "write_buf s" "flattened_writes s" dbg] by (auto simp: stream_inv_def)
    with b False bytes.buf_list_push_eq [of wb b dbg] show ?thesis
      by (auto simp: stream_write_def stream_inv_def stream_contents_def)
  qed
qed

interpretation stream: frame_writer "stream_writer dbg" stream_contents stream_inv for dbg
  by unfold_locales
    (simp_all add: stream_writer_def stream_write_appends,
      simp add: stream_small_write_def stream_inv_def stream_contents_def)

lemma stream_remaining_eq: "stream_inv s \<Longrightarrow> stream_remaining dbg s = Some (length (stream_contents s))"
  by (simp add: stream_remaining_def stream_inv_def stream_contents_def bl_remaining)

lemma stream_has_remaining_eq:
  "stream_inv s \<Longrightarrow> stream_has_remaining dbg s = Some (stream_contents s \<noteq> [])"
  by (simp add: stream_has_remaining_def stream_inv_def stream_contents_def bl_has_remaining)

lemma flattened_advance_in:
  "rem \<le> length (flattened_writes s) \<Longrightarrow>
     flattened_advance rem s = Some (s\<lparr>flattened_writes := drop rem (flattened_writes s)\<rparr>)"
  by (simp add: flattened_advance_def)

lemma stream_chunk_prefix: "stream_inv s \<Longrightarrow> \<exists>r. stream_contents s = stream_chunk s @ r"
  using bytes.buf_list_chunk_prefix [of "write_buf s"] bytes.buf_list_chunk_nonempty [of "write_buf s"]
  by (cases "bytes_list_contents (write_buf s) = []")
     (auto simp: stream_chunk_def stream_contents_def stream_inv_def Let_def)

lemma stream_chunk_nonempty: "stream_inv s \<Longrightarrow> stream_contents s \<noteq> [] \<Longrightarrow> stream_chunk s \<noteq> []"
  using bytes.buf_list_chunk_nonempty [of "write_buf s"]
  by (auto simp: stream_chunk_def stream_contents_def stream_inv_def Let_def)

lemma stream_advance_in:
  assumes "stream_inv s" and "n \<le> length (stream_contents s)"
  shows "\<exists>s'. stream_advance dbg n s = Some s' \<and> stream_inv s' \<and> stream_contents s' = drop n (stream_contents s)"
proof -
  let ?c = "bytes_list_contents (write_buf s)"
  have inv: "bytes_list_inv (write_buf s)" using assms(1) by (simp add: stream_inv_def)
  obtain wb where wb: "buf_list_advance dbg bytes_ops (min (length ?c) n) (write_buf s) = Some wb"
      "bytes_list_inv wb" "bytes_list_contents wb = drop (min (length ?c) n) ?c"
    using bytes.buf_list_advance_in [OF inv, of "min (length ?c) n" dbg] by auto
  have "n - min (length ?c) n \<le> length (flattened_writes s)"
    using assms(2) by (auto simp: stream_contents_def)
  with wb assms inv show ?thesis
    by (auto simp: stream_advance_def stream_remaining_eq bl_remaining flattened_advance_in stream_inv_def
        stream_contents_def min_def)
qed

lemma stream_copy_in:
  assumes "stream_inv s" and "n \<le> length (stream_contents s)"
  shows "\<exists>s'. stream_copy_to_bytes dbg n s = Some (take n (stream_contents s), s') \<and> stream_inv s' \<and>
    stream_contents s' = drop n (stream_contents s)"
proof -
  let ?c = "bytes_list_contents (write_buf s)"
  have inv: "bytes_list_inv (write_buf s)" using assms(1) by (simp add: stream_inv_def)
  consider "n \<le> length ?c" | "length ?c < n" "?c = []" | "length ?c < n" "?c \<noteq> []"
    by linarith
  then show ?thesis
  proof cases
    case 1
    with bytes.buf_list_copy_in [OF inv 1, of dbg] assms inv show ?thesis
      by (auto simp: stream_copy_to_bytes_def stream_remaining_eq bl_remaining stream_inv_def stream_contents_def)
  next
    case 2
    with assms inv show ?thesis
      by (auto simp: stream_copy_to_bytes_def stream_remaining_eq bl_remaining bl_has_remaining stream_inv_def
          stream_contents_def)
  next
    case 3
    obtain wb where wb: "put_take (buf_list_ops dbg bytes_ops) (length ?c) (write_buf s) = Some (?c, wb)"
        "bytes_list_inv wb" "bytes_list_contents wb = []"
      using bytes_list.put_take_in [OF inv, of "length ?c" dbg] by auto
    with 3 assms inv show ?thesis
      by (auto simp: stream_copy_to_bytes_def stream_remaining_eq bl_remaining bl_has_remaining stream_inv_def
          stream_contents_def flattened_advance_in)
  qed
qed

lemma stream_vectored:
  assumes "stream_inv s"
  shows "\<exists>r. stream_contents s = concat (stream_chunks_vectored n s) @ r"
    and "length (stream_chunks_vectored n s) \<le> n"
    and "length (stream_chunks_vectored n s) < n \<Longrightarrow> concat (stream_chunks_vectored n s) = stream_contents s"
  using bytes.buf_list_vectored [OF assms [unfolded stream_inv_def], of n]
  by (auto simp: stream_chunks_vectored_def stream_contents_def Let_def)

interpretation stream_buf: byte_buf "stream_ops dbg" stream_contents stream_inv for dbg
  by unfold_locales
    (simp_all add: stream_ops_def stream_remaining_eq stream_chunk_prefix stream_chunk_nonempty
      stream_advance_in stream_copy_in stream_vectored, simp_all add: stream_advance_def
      stream_copy_to_bytes_def stream_remaining_eq)

text \<open>A stream encoder refines a byte queue: taking or skipping n bytes, when it holds them, gives the
  first n bytes and leaves the rest, and panics when it holds fewer.\<close>

lemma encoder_copy:
  assumes "stream_inv s"
  shows "if n \<le> length (stream_contents s)
    then (\<exists>s'. stream_copy_to_bytes dbg n s = Some (take n (stream_contents s), s') \<and> stream_inv s' \<and>
           stream_contents s' = drop n (stream_contents s)) \<and>
      (\<exists>s'. stream_advance dbg n s = Some s' \<and> stream_inv s' \<and> stream_contents s' = drop n (stream_contents s))
    else stream_copy_to_bytes dbg n s = None \<and> stream_advance dbg n s = None"
  using stream_buf.copy_in [OF assms, of n dbg] stream_buf.advance_in [OF assms, of n dbg]
    stream_buf.copy_out [OF assms, of n dbg] stream_buf.advance_out [OF assms, of n dbg]
  by (auto simp: stream_ops_def)

section \<open>Properties\<close>

text \<open>C26: Enqueuing an operation on a well formed stream encoder does not panic and appends exactly
  the text of the operation to what it holds, whatever mixture of flattened and separate buffers
  that is. The frame encoder of a websocket gives the same bytes for the operation, and is empty
  again afterwards.\<close>

theorem encoder_text:
  assumes "stream_inv s"
  shows "\<exists>s'. Encoder.enqueue_write_op e dbg op s = Some s' \<and> stream_inv s' \<and>
    stream_contents s' = stream_contents s @ client_op_text e op \<and>
    framed_encode e op [] = Some (client_op_text e op, [])"
  using stream.encode_appends [OF assms, of e dbg op] by (simp add: enqueue_write_op_def framed_encode_eq)

lemma encoder_text_witness:
  "\<exists>s'. Encoder.enqueue_write_op (ref_json (\<lambda>_. Err ()) (\<lambda>_. ''{}'')) True (C_Unsubscribe 7 (Some 2)) stream_encoder_new = Some s' \<and>
    stream_contents s' = ''UNSUB 7 2'' @ CRLF"
proof -
  have "dec 7 = ''7''" "dec 2 = ''2''" by code_simp+
  then show ?thesis
    using encoder_text [OF stream_encoder_new_inv(1), of "ref_json (\<lambda>_. Err ()) (\<lambda>_. ''{}'')" True "C_Unsubscribe 7 (Some 2)"]
    by (auto simp: stream_encoder_new_inv)
qed

end
