(* ===== verification/Wire.thy ===== *)
theory Wire
  imports Decoder_Spec Encoder
begin

text \<open>
  Where the encoder and the decoder meet: the header block the encoder writes is the header block the
  decoder reads; frames of the server, rendered as its protocol documents them, are read back as the
  message they carry; and the control line of a client operation is made of exactly its fields.
\<close>

section \<open>Words of a control line\<close>

definition word_ok :: "bytes \<Rightarrow> bool" where
  "word_ok w \<longleftrightarrow> w \<noteq> [] \<and> (\<forall>b\<in>set w. \<not> is_separator b)"

fun unwords :: "bytes list \<Rightarrow> bytes" where
  "unwords [] = []"
| "unwords [w] = w"
| "unwords (w # ws) = w @ '' '' @ unwords ws"

lemma unwords_Cons: "ws \<noteq> [] \<Longrightarrow> unwords (w # ws) = w @ SP # unwords ws"
  by (cases ws) simp_all

lemma word_ok_nonblank: "word_ok w \<Longrightarrow> \<forall>b\<in>set w. \<not> is_blank b"
  by (auto simp: word_ok_def is_separator_def is_blank_def)

lemma word_ok_dec [simp]: "word_ok (dec n)"
  using dec_not_special by (auto simp: word_ok_def is_separator_def)

lemma unwords_first: "ws \<noteq> [] \<Longrightarrow> \<forall>w\<in>set ws. word_ok w \<Longrightarrow> unwords ws \<noteq> [] \<and> \<not> is_blank (hd (unwords ws))"
  by (cases ws rule: unwords.cases) (auto simp: word_ok_def is_separator_def is_blank_def)

lemma words_unwords: "\<forall>w\<in>set ws. word_ok w \<Longrightarrow> words (unwords ws) = ws"
proof (induction ws rule: unwords.induct)
  case (2 w)
  then have "word_ok w" by simp
  with words_last [OF word_ok_nonblank] show ?case by (simp add: word_ok_def)
next
  case (3 w v vs)
  then have "dropWhile is_blank (unwords (v # vs)) = unwords (v # vs)"
    using unwords_first [of "v # vs"] by (cases "unwords (v # vs)") auto
  moreover have "is_blank SP" by (simp add: is_blank_def)
  moreover have "\<forall>b\<in>set w. \<not> is_blank b" using "3.prems" word_ok_nonblank [of w] by simp
  ultimately show ?case
    using 3 words_word [of w SP "unwords (v # vs)"] by simp
qed simp

lemma unwords_no_eol: "\<forall>w\<in>set ws. word_ok w \<Longrightarrow> b \<in> set (unwords ws) \<Longrightarrow> b \<noteq> CR \<and> b \<noteq> LF"
  by (induction ws rule: unwords.induct) (auto simp: word_ok_def is_separator_def)

section \<open>Header blocks\<close>

definition pair_line :: "header_name \<times> header_value \<Rightarrow> bytes" where
  "pair_line p = header_name_as_str (fst p) @ '': '' @ header_value_as_bytes (snd p)"

definition pair_ok :: "header_name \<times> header_value \<Rightarrow> bool" where
  "pair_ok p \<longleftrightarrow> validate_header_name (header_name_as_str (fst p)) = Ok () \<and>
     validate_header_value_bytes (header_value_as_bytes (snd p)) = Ok ()"

lemma utf8_head_ascii: "byte_val c < 128 \<Longrightarrow> utf8_head (c # r) = 1"
  by (simp add: utf8_head_def)

lemma utf8_valid_ascii: "\<forall>b\<in>set s. byte_val b < 128 \<Longrightarrow> utf8_valid s"
  by (induction s) (simp_all add: utf8_valid.simps [of "_ # _"] utf8_head_ascii)

lemma headers_text_eq:
  "headers_text m = ''NATS/1.0'' @ CRLF @ concat (map (\<lambda>p. pair_line p @ CRLF) (header_map_pairs m)) @ CRLF"
proof -
  have "concat (concat (map (\<lambda>v. [header_name_as_str n, '': '', header_value_as_bytes v, CRLF]) vs)) =
      concat (map (\<lambda>p. pair_line p @ CRLF) (map (Pair n) vs))" for n vs
    by (induction vs) (simp_all add: pair_line_def)
  then have "concat (concat (map (\<lambda>(n, vs).
        concat (map (\<lambda>v. [header_name_as_str n, '': '', header_value_as_bytes v, CRLF]) vs)) xs)) =
      concat (map (\<lambda>p. pair_line p @ CRLF) (concat (map (\<lambda>(n, vs). map (Pair n) vs) xs)))" for xs
    by (induction xs) (auto split: prod.splits)
  then show ?thesis
    by (simp add: headers_text_def encode_headers_def header_map_pairs_def)
qed

lemma decode_header_line_pair:
  assumes "ext_ok e" and "pair_ok p"
  shows "decode_header_line e dbg (pair_line p) = Some (Ok p)"
proof -
  obtain n v where p: "p = (HeaderName n, HeaderValue v)"
    by (metis header_name.exhaust header_value.exhaust prod.exhaust)
  have n: "validate_header_name n = Ok ()" "\<forall>b\<in>set n. b \<noteq> CHR '':'' \<and> byte_val b < 128"
    and v: "validate_header_value_bytes v = Ok ()"
    using assms(2) by (auto simp: pair_ok_def p validate_header_name_iff)
  have "is_ascii_whitespace SP" by (simp add: is_ascii_whitespace_def)
  moreover have "find_byte (\<lambda>x. x = CHR '':'') (n @ CHR '':'' # SP # v) = Some (length n)"
    using n(2) by (intro find_byte_append_stop) auto
  moreover have "utf8_valid n" using n(2) utf8_valid_ascii by blast
  ultimately show ?thesis
    using n(1) v by (simp add: decode_header_line_eq [OF assms(1)] p pair_line_def skip_white_space_def
        header_pair_def decode_utf8_def)
qed

lemma pair_line_ok: "pair_ok p \<Longrightarrow> pair_line p \<noteq> [] \<and> CR \<notin> set (pair_line p)"
  by (auto simp: pair_ok_def pair_line_def validate_header_name_iff validate_header_value_iff is_eol_def)

lemma lines_next_line:
  "ext_ok e \<Longrightarrow> CR \<notin> set l \<Longrightarrow> lines_next e (l @ CRLF @ r) = Some (Some l, r)"
  using find_sub_crlf_line [of l r] by (simp add: lines_next_eq)

lemma decode_header_lines_pairs:
  assumes "ext_ok e" and "\<forall>p\<in>set hs. pair_ok p"
  shows "(decode_header_lines e dbg (concat (map (\<lambda>p. pair_line p @ CRLF) hs) @ CRLF) m ::
      ('j decoder_error + _) option) =
    map_option Ok (header_map_extend dbg (unicase_key e) hs m)"
  using assms(2)
proof (induction hs arbitrary: m)
  case Nil
  have "lines_next e CRLF = Some (Some [], [])"
    using lines_next_line [OF assms(1), of "[]" "[]"] by simp
  moreover have "lines_next e [] = Some (None, [])" by (simp add: lines_next_def)
  ultimately show ?case by (simp add: decode_header_lines.simps)
next
  case (Cons p hs)
  obtain n v where p: "p = (n, v)" by (cases p)
  have "lines_next e (pair_line p @ CRLF @ concat (map (\<lambda>p. pair_line p @ CRLF) hs) @ CRLF) =
      Some (Some (pair_line p), concat (map (\<lambda>p. pair_line p @ CRLF) hs) @ CRLF)"
    using Cons.prems pair_line_ok [of p] by (intro lines_next_line [OF assms(1)]) simp
  moreover have "(decode_header_line e dbg (pair_line p) :: ('j decoder_error + _) option) = Some (Ok p)"
    using Cons.prems by (intro decode_header_line_pair [OF assms(1)]) simp
  ultimately show ?case
    using Cons pair_line_ok [of p]
    by (subst decode_header_lines.simps) (simp add: p split: option.split bind_splits)
qed

lemma decode_headers_text:
  fixes e :: "('j, 'z) json_ext_scheme"
  assumes "ext_ok e" and "header_map_inv (unicase_key e) m" and "\<forall>p\<in>set (header_map_pairs m). pair_ok p"
    and "length (headers_text m) < 2 ^ 64"
  shows "(decode_headers e dbg (headers_text m @ b)
      (Headers sid s r (of_nat (length (headers_text m))) n) :: (('j decoder_error + unit) \<times> _) option) =
    Some (Ok (), Payload sid s r None None m n, b)"
proof -
  let ?ls = "concat (map (\<lambda>p. pair_line p @ CRLF) (header_map_pairs m)) @ CRLF"
  have "unat (of_nat (length (headers_text m)) :: usize) = length (headers_text m)"
    using assms(4) by (simp add: unsigned_of_nat take_bit_nat_eq_self)
  moreover have "lines_next e (''NATS/1.0'' @ CRLF @ ?ls) = Some (Some ''NATS/1.0'', ?ls)"
    by (rule lines_next_line [OF assms(1)]) simp
  moreover have "(decode_header_lines e dbg ?ls header_map_new :: ('j decoder_error + _) option) = Some (Ok m)"
    using header_map_from_iter_pairs [OF assms(2), of dbg]
    by (simp only: decode_header_lines_pairs [OF assms(1,3)] header_map_from_iter_def) simp
  moreover have "strip_prefix ''NATS/1.0'' ''NATS/1.0'' = Some []"
    by (simp add: strip_prefix_def)
  moreover have "(decode_status_line [] :: 'j decoder_error + _) = Ok (None, None)"
    by (simp add: decode_status_line_def get_range_def)
  ultimately show ?thesis
    by (simp add: decode_headers_def headers_text_eq)
qed

section \<open>Frames of the server\<close>

text \<open>The two forms of a message as the server writes it; the words after the verb, then the block of
  headers and the payload, whose lengths are in decimal.\<close>

definition msg_fields :: "server_message \<Rightarrow> bytes list" where
  "msg_fields m = [subject_as_str (msg_subject (base m)), dec (unat (subscription_id m))] @
     (case msg_reply_subject (base m) of None \<Rightarrow> [] | Some r \<Rightarrow> [subject_as_str r])"

definition msg_frame :: "server_message \<Rightarrow> bytes" where
  "msg_frame m =
     (let p = msg_payload (base m) in
      ''MSG '' @ unwords (msg_fields m @ [dec (length p)]) @ CRLF @ p @ CRLF)"

definition hmsg_frame :: "server_message \<Rightarrow> bytes" where
  "hmsg_frame m =
     (let p = msg_payload (base m); h = headers_text (msg_headers (base m)) in
      ''HMSG '' @ unwords (msg_fields m @ [dec (length h), dec (length h + length p)]) @ CRLF @
      h @ p @ CRLF)"

text \<open>A message a server can send: subjects in UTF-8 without separators, no status.\<close>

definition subject_text_ok :: "subject \<Rightarrow> bool" where
  "subject_text_ok s \<longleftrightarrow> validate_subject (subject_as_str s) = Ok () \<and> utf8_valid (subject_as_str s)"

definition server_message_ok :: "server_message \<Rightarrow> bool" where
  "server_message_ok m \<longleftrightarrow> subject_text_ok (msg_subject (base m)) \<and>
     (\<forall>r. msg_reply_subject (base m) = Some r \<longrightarrow> subject_text_ok r) \<and>
     status_code m = None \<and> status_description m = None"

lemma subject_text_ok_word: "subject_text_ok s \<Longrightarrow> word_ok (subject_as_str s)"
  using validate_subject_word by (auto simp: subject_text_ok_def word_ok_def)

lemma decode_subject_ok:
  "subject_text_ok s \<Longrightarrow> decode_subject dbg err (subject_as_str s) = Some (Ok s)"
  by (simp add: subject_text_ok_def decode_subject_def decode_utf8_def subject.from_dangerous_value_eq)

lemma msg_fields_ok: "server_message_ok m \<Longrightarrow> \<forall>w\<in>set (msg_fields m). word_ok w"
  by (auto simp: server_message_ok_def msg_fields_def subject_text_ok_word split: option.splits)

lemma decode_reply_subject_ok:
  "(\<And>r. reply = Some r \<Longrightarrow> subject_text_ok r) \<Longrightarrow>
     decode_reply_subject dbg err (map_option subject_as_str reply) = Some (Ok reply)"
  by (cases reply) (simp_all add: decode_subject_ok)

lemma unat_of_nat_usize: "n < 2 ^ 64 \<Longrightarrow> unat (of_nat n :: usize) = n"
  by (simp add: unsigned_of_nat take_bit_nat_eq_self)

lemma split_take_unwords:
  "ext_ok e \<Longrightarrow> \<forall>w\<in>set ws. word_ok w \<Longrightarrow> split_take e dbg n (unwords ws) = Some (pad n ws)"
  by (simp add: split_take_words words_unwords)

lemma subscription_id_dec [simp]: "subscription_id_from_ascii_bytes (dec (unat i)) = Ok i"
  by (simp add: subscription_id_from_ascii_bytes_def parse_u64_dec)

lemma pad_simps [simp]:
  "pad 5 [a, b, c] = [Some a, Some b, Some c, None, None]"
  "pad 5 [a, b, c, d] = [Some a, Some b, Some c, Some d, None]"
  "pad 6 [a, b, c, d] = [Some a, Some b, Some c, Some d, None, None]"
  "pad 6 [a, b, c, d, f] = [Some a, Some b, Some c, Some d, Some f, None]"
  by (simp_all add: numeral_eq_Suc)

lemma decode_msg_fields:
  fixes e :: "'z ext_scheme"
  assumes e: "ext_ok e" and m: "server_message_ok m" and len: "length (msg_payload (base m)) \<le> MAX_MSG_LEN"
  shows "(decode_msg e dbg (''MSG '' @ unwords (msg_fields m @ [dec (length (msg_payload (base m)))]))
      :: ('j decoder_error + decoder_status) option) =
    Some (Ok (Payload (subscription_id m) (msg_subject (base m)) (msg_reply_subject (base m)) None None
      header_map_new (of_nat (length (msg_payload (base m))))))"
proof -
  define n where "n = length (msg_payload (base m))"
  have n: "n < 2 ^ 64" "n \<le> MAX_MSG_LEN" using len by (simp_all add: n_def MAX_MSG_LEN_def)
  define l where "l = unwords (msg_fields m @ [dec n])"
  have chunks: "split_take e dbg 5 l = Some (pad 5 (msg_fields m @ [dec n]))"
    unfolding l_def using msg_fields_ok [OF m] by (intro split_take_unwords [OF e]) auto
  from m have ok: "subject_text_ok (msg_subject (base m))"
      "\<And>r. msg_reply_subject (base m) = Some r \<Longrightarrow> subject_text_ok r"
    by (auto simp: server_message_ok_def)
  have "(decode_msg e dbg (''MSG '' @ l) :: ('j decoder_error + _) option) = Some (Ok (Payload (subscription_id m) (msg_subject (base m))
      (msg_reply_subject (base m)) None None header_map_new (of_nat n)))"
    using ok n by (cases "msg_reply_subject (base m)")
      (simp_all add: decode_msg_def chunks msg_fields_def decode_subject_ok
        parse_usize_dec unat_of_nat_usize)
  then show ?thesis by (simp add: n_def l_def)
qed

lemma decode_hmsg_fields:
  assumes e: "ext_ok e" and m: "server_message_ok m" and len: "h + n \<le> MAX_MSG_LEN"
  shows "(decode_hmsg e dbg (''HMSG '' @ unwords (msg_fields m @ [dec h, dec (h + n)]))
      :: ('j decoder_error + decoder_status) option) =
    Some (Ok (Headers (subscription_id m) (msg_subject (base m)) (msg_reply_subject (base m))
      (of_nat h) (of_nat n)))"
proof -
  have n: "h + n < 2 ^ 64" "h < 2 ^ 64" "n < 2 ^ 64" using len by (simp_all add: MAX_MSG_LEN_def)
  define l where "l = unwords (msg_fields m @ [dec h, dec (h + n)])"
  have chunks: "split_take e dbg 6 l = Some (pad 6 (msg_fields m @ [dec h, dec (h + n)]))"
    unfolding l_def using msg_fields_ok [OF m] by (intro split_take_unwords [OF e]) auto
  from m have ok: "subject_text_ok (msg_subject (base m))"
      "\<And>r. msg_reply_subject (base m) = Some r \<Longrightarrow> subject_text_ok r"
    by (auto simp: server_message_ok_def)
  have sub: "checked_sub (of_nat (h + n) :: usize) (of_nat h) = Some (of_nat n)"
    using n by (simp add: checked_sub_def word_le_nat_alt unat_of_nat_usize [of h]
        unat_of_nat_usize [of "h + n"] del: of_nat_add) simp
  have "(decode_hmsg e dbg (''HMSG '' @ l) :: ('j decoder_error + _) option) = Some (Ok (Headers (subscription_id m) (msg_subject (base m))
      (msg_reply_subject (base m)) (of_nat h) (of_nat n)))"
    using ok n len sub by (cases "msg_reply_subject (base m)")
      (simp_all add: decode_hmsg_def chunks msg_fields_def decode_subject_ok
        parse_usize_dec unat_of_nat_usize del: of_nat_add)
  then show ?thesis by (simp add: l_def)
qed

lemma decode_line:
  assumes "ext_ok e" and "CR \<notin> set l" and "n \<noteq> length (l @ CRLF @ r)" and "\<not> starts_with (l @ CRLF) ''+''"
  shows "decode e dbg (ControlLine n) (l @ CRLF @ r) =
    (case decode_control_line e dbg l of
       None \<Rightarrow> None
     | Some (Inl x) \<Rightarrow> Some (Err x, ControlLine n, r)
     | Some (Inr (Inl st)) \<Rightarrow> decode e dbg st r
     | Some (Inr (Inr x)) \<Rightarrow> Some (Ok x, ControlLine n, r))"
proof -
  have "\<not> starts_with (l @ CRLF @ r) (''+OK'' @ CRLF)"
    using assms(4) by (cases l) auto
  moreover have "take (length l) (l @ CRLF @ r) = l" "drop (Suc (Suc (length l))) (l @ CRLF @ r) = r"
    by simp_all
  ultimately show ?thesis
    unfolding decode_ControlLine [OF assms(1)] find_sub_crlf_line [OF assms(2)] using assms(3)
    by (simp only: if_False option.case)
qed

lemma decode_payload:
  assumes "length p \<le> MAX_MSG_LEN"
  shows "decode e dbg (Payload sid s r c d m (of_nat (length p))) (p @ CRLF @ rest) =
    Some (Ok (Some (S_Message \<lparr>status_code = c, status_description = d, subscription_id = sid,
      base = \<lparr>msg_subject = s, msg_reply_subject = r, msg_headers = m, msg_payload = p\<rparr>\<rparr>)),
      ControlLine 0, rest)"
proof -
  have "unat (of_nat (length p) :: usize) = length p"
    using assms by (intro unat_of_nat_usize) (simp add: MAX_MSG_LEN_def)
  with assms show ?thesis by (simp add: unat_saturating_add_2)
qed

lemma control_line_no_CR: "\<forall>w\<in>set ws. word_ok w \<Longrightarrow> CR \<notin> set (unwords ws)"
  using unwords_no_eol by blast

lemma server_message_eta:
  "server_message_ok m \<Longrightarrow>
     \<lparr>status_code = None, status_description = None, subscription_id = subscription_id m,
      base = \<lparr>msg_subject = msg_subject (base m), msg_reply_subject = msg_reply_subject (base m),
        msg_headers = msg_headers (base m), msg_payload = msg_payload (base m)\<rparr>\<rparr> = m"
  by (simp add: server_message_ok_def)

lemma decode_msg_frame_lemma:
  fixes e :: "('j, 'z) json_ext_scheme"
  assumes e: "ext_ok e" and m: "server_message_ok m" and no: "msg_headers (base m) = header_map_new"
    and len: "length (msg_payload (base m)) \<le> MAX_MSG_LEN" and n: "n \<noteq> length (msg_frame m @ rest)"
  shows "decode e dbg (ControlLine n) (msg_frame m @ rest) = Some (Ok (Some (S_Message m)), ControlLine 0, rest)"
proof -
  define l where "l = ''MSG '' @ unwords (msg_fields m @ [dec (length (msg_payload (base m)))])"
  have "CR \<notin> set l"
    unfolding l_def using control_line_no_CR [of "msg_fields m @ [dec (length (msg_payload (base m)))]"]
      msg_fields_ok [OF m] by simp
  moreover have fr: "msg_frame m @ rest = l @ CRLF @ msg_payload (base m) @ CRLF @ rest"
    by (simp add: msg_frame_def l_def Let_def)
  moreover have "decode_control_line e dbg l = Some (Ok (Inl (Payload (subscription_id m)
      (msg_subject (base m)) (msg_reply_subject (base m)) None None header_map_new
      (of_nat (length (msg_payload (base m)))))))"
    using decode_msg_fields [OF e m len, where dbg = dbg and 'j = 'j] by (simp add: decode_control_line_def l_def)
  moreover have "\<not> starts_with (l @ CRLF) ''+''" by (simp add: l_def)
  ultimately show ?thesis
    using decode_line [OF e, of l n "msg_payload (base m) @ CRLF @ rest" dbg] n
    by (simp only: decode_payload [OF len] option.case sum.case no [symmetric] server_message_eta [OF m] simp_thms)
qed

lemma decode_hmsg_frame_lemma:
  fixes e :: "('j, 'z) json_ext_scheme"
  assumes e: "ext_ok e" and m: "server_message_ok m"
    and inv: "header_map_inv (unicase_key e) (msg_headers (base m))"
    and pairs: "\<forall>p\<in>set (header_map_pairs (msg_headers (base m))). pair_ok p"
    and len: "length (headers_text (msg_headers (base m))) + length (msg_payload (base m)) \<le> MAX_MSG_LEN"
    and n: "n \<noteq> length (hmsg_frame m @ rest)"
  shows "decode e dbg (ControlLine n) (hmsg_frame m @ rest) = Some (Ok (Some (S_Message m)), ControlLine 0, rest)"
proof -
  let ?h = "headers_text (msg_headers (base m))" and ?p = "msg_payload (base m)"
  define l where "l = ''HMSG '' @ unwords (msg_fields m @ [dec (length ?h), dec (length ?h + length ?p)])"
  have "CR \<notin> set l"
    unfolding l_def using control_line_no_CR [of "msg_fields m @ [dec (length ?h), dec (length ?h + length ?p)]"]
      msg_fields_ok [OF m] by simp
  moreover have fr: "hmsg_frame m @ rest = l @ CRLF @ ?h @ ?p @ CRLF @ rest"
    by (simp add: hmsg_frame_def l_def Let_def)
  moreover have "decode_control_line e dbg l = Some (Ok (Inl (Headers (subscription_id m)
      (msg_subject (base m)) (msg_reply_subject (base m)) (of_nat (length ?h)) (of_nat (length ?p)))))"
    using decode_hmsg_fields [OF e m len, where dbg = dbg and 'j = 'j] by (simp add: decode_control_line_def l_def)
  moreover have "\<not> starts_with (l @ CRLF) ''+''" by (simp add: l_def)
  moreover have "length ?h < 2 ^ 64" using len by (simp add: MAX_MSG_LEN_def)
  then have "decode e dbg (Headers (subscription_id m) (msg_subject (base m)) (msg_reply_subject (base m))
      (of_nat (length ?h)) (of_nat (length ?p))) (?h @ ?p @ CRLF @ rest) =
      Some (Ok (Some (S_Message m)), ControlLine 0, rest)"
    using len decode_headers_text [OF e inv pairs, of dbg "?p @ CRLF @ rest" "subscription_id m"
        "msg_subject (base m)" "msg_reply_subject (base m)" "of_nat (length ?p)"]
      decode_payload [where p = ?p and e = e and dbg = dbg and sid = "subscription_id m" and
        s = "msg_subject (base m)" and r = "msg_reply_subject (base m)" and c = None and d = None and
        m = "msg_headers (base m)" and rest = rest]
    by (simp add: server_message_eta [OF m] unat_of_nat_usize del: decode.simps(3))
  ultimately show ?thesis
    using decode_line [OF e, of l n "?h @ ?p @ CRLF @ rest" dbg] n
    by (simp only: option.case sum.case simp_thms)
qed

section \<open>Client operations\<close>

text \<open>The words a server must find in the control line of an operation, and what follows the line.\<close>

fun client_op_fields :: "('j, 'z) json_ext_scheme \<Rightarrow> client_op \<Rightarrow> bytes list" where
  "client_op_fields e (C_Publish m) =
     (let h = msg_headers m; p = msg_payload m; r = (case msg_reply_subject m of None \<Rightarrow> [] | Some r \<Rightarrow> [subject_as_str r]) in
      if header_map_is_empty h then [''PUB'', subject_as_str (msg_subject m)] @ r @ [itoa e (length p)]
      else [''HPUB'', subject_as_str (msg_subject m)] @ r @
        [itoa e (length (headers_text h)), itoa e (length (headers_text h) + length p)])"
| "client_op_fields e (C_Subscribe sid s q) =
     [''SUB'', subject_as_str s] @ (case q of None \<Rightarrow> [] | Some q \<Rightarrow> [queue_group_as_str q]) @ [itoa e (unat sid)]"
| "client_op_fields e (C_Unsubscribe sid n) =
     [''UNSUB'', itoa e (unat sid)] @ (case n of None \<Rightarrow> [] | Some n \<Rightarrow> [itoa e (unat n)])"
| "client_op_fields e (C_Connect c) = [''CONNECT'', to_json_connect e c]"
| "client_op_fields e C_Ping = [''PING'']"
| "client_op_fields e C_Pong = [''PONG'']"

fun client_op_body :: "client_op \<Rightarrow> bytes" where
  "client_op_body (C_Publish m) =
     (if header_map_is_empty (msg_headers m) then [] else headers_text (msg_headers m)) @ msg_payload m @ CRLF"
| "client_op_body _ = []"

text \<open>Operations with valid subjects and queue groups, and JSON text in one word.\<close>

fun client_op_ok :: "('j, 'z) json_ext_scheme \<Rightarrow> client_op \<Rightarrow> bool" where
  "client_op_ok e (C_Publish m) \<longleftrightarrow> validate_subject (subject_as_str (msg_subject m)) = Ok () \<and>
     (\<forall>r. msg_reply_subject m = Some r \<longrightarrow> validate_subject (subject_as_str r) = Ok ())"
| "client_op_ok e (C_Subscribe sid s q) \<longleftrightarrow> validate_subject (subject_as_str s) = Ok () \<and>
     (\<forall>g. q = Some g \<longrightarrow> validate_queue_group (queue_group_as_str g) = Ok ())"
| "client_op_ok e (C_Connect c) \<longleftrightarrow> word_ok (to_json_connect e c)"
| "client_op_ok e _ \<longleftrightarrow> True"

lemma client_op_text_fields:
  "client_op_text e op = unwords (client_op_fields e op) @ CRLF @ client_op_body op"
  by (cases op) (auto simp: Let_def split: option.splits)

lemma word_ok_verbs [simp]:
  "word_ok ''PUB''" "word_ok ''HPUB''" "word_ok ''SUB''" "word_ok ''UNSUB''" "word_ok ''CONNECT''"
  "word_ok ''PING''" "word_ok ''PONG''"
  by (simp_all add: word_ok_def is_separator_def)

lemma valid_word_ok:
  "validate_subject v = Ok () \<Longrightarrow> word_ok v" "validate_queue_group v = Ok () \<Longrightarrow> word_ok v"
  using validate_subject_word validate_queue_group_iff by (simp_all add: word_ok_def)

lemma client_op_fields_ok:
  assumes "ext_ok e" and "client_op_ok e op"
  shows "\<forall>w\<in>set (client_op_fields e op). word_ok w"
  using assms(2)
proof (cases op)
  case (C_Publish m)
  with assms(2) show ?thesis
    by (cases "msg_reply_subject m") (auto simp: ext_okD [OF assms(1)] Let_def valid_word_ok)
next
  case (C_Subscribe sid s q)
  with assms(2) show ?thesis
    by (cases q) (auto simp: ext_okD [OF assms(1)] valid_word_ok)
next
  case (C_Unsubscribe sid n)
  then show ?thesis by (cases n) (auto simp: ext_okD [OF assms(1)])
qed simp_all

lemma client_op_line:
  assumes "ext_ok e" and "client_op_ok e op"
  shows "\<exists>i. find_sub CRLF (client_op_text e op @ rest) = Some i \<and>
    words (take i (client_op_text e op)) = client_op_fields e op \<and>
    drop (i + 2) (client_op_text e op) = client_op_body op"
proof -
  let ?l = "unwords (client_op_fields e op)"
  note ok = client_op_fields_ok [OF assms]
  have "find_sub CRLF (?l @ CRLF @ client_op_body op @ rest) = Some (length ?l)"
    using unwords_no_eol [OF ok] by (intro find_sub_crlf_line) blast
  with words_unwords [OF ok] show ?thesis
    by (intro exI [of _ "length ?l"]) (simp add: client_op_text_fields)
qed

section \<open>Properties\<close>

text \<open>C4: An HMSG frame whose header block is written by the encoder decodes to the message it was made
  from: every header, in order, the payload, and the bytes after the frame.\<close>

theorem hmsg_round_trip:
  fixes e :: "('j, 'z) json_ext_scheme"
  assumes "ext_ok e" and "server_message_ok m" and "header_map_inv (unicase_key e) (msg_headers (base m))"
    and "\<forall>p\<in>set (header_map_pairs (msg_headers (base m))). pair_ok p"
    and "length (headers_text (msg_headers (base m))) + length (msg_payload (base m)) \<le> MAX_MSG_LEN"
    and "n \<noteq> length (hmsg_frame m @ rest)"
  shows "decode e dbg (ControlLine n) (hmsg_frame m @ rest) = Some (Ok (Some (S_Message m)), ControlLine 0, rest)"
  by (rule decode_hmsg_frame_lemma) (fact assms)+

lemma hmsg_round_trip_witness:
  defines "h \<equiv> \<lparr>headers = [(HeaderName ''A'', One (HeaderValue ''1''))], hm_len = 1\<rparr>"
  defines "m \<equiv> \<lparr>status_code = None, status_description = None, subscription_id = 9, base = \<lparr>msg_subject = Subject ''a.b'',
    msg_reply_subject = None, msg_headers = h, msg_payload = ''hi''\<rparr>\<rparr>"
  shows "decode (ref_json (\<lambda>_. Err ()) (\<lambda>_. ''{}'')) True (ControlLine 0) (hmsg_frame m @ ''PING'') =
    Some (Ok (Some (S_Message m)), ControlLine 0, ''PING'')"
proof (rule hmsg_round_trip [OF ref_json_ok])
  show "server_message_ok m" unfolding m_def server_message_ok_def subject_text_ok_def by simp code_simp
  show "\<forall>p\<in>set (header_map_pairs (msg_headers (base m))). pair_ok p"
    by (simp add: m_def h_def header_map_pairs_def header_map_iter_def pair_ok_def) code_simp
qed (simp_all add: m_def h_def MAX_MSG_LEN_def hmsg_frame_def Let_def header_map_inv_def total_len_def headers_text_eq
    header_map_pairs_def header_map_iter_def pair_line_def)

text \<open>C5: A MSG frame for a message without headers decodes to that message, with the bytes after the
  frame left in the buffer.\<close>

theorem msg_round_trip:
  fixes e :: "('j, 'z) json_ext_scheme"
  assumes "ext_ok e" and "server_message_ok m" and "msg_headers (base m) = header_map_new"
    and "length (msg_payload (base m)) \<le> MAX_MSG_LEN" and "n \<noteq> length (msg_frame m @ rest)"
  shows "decode e dbg (ControlLine n) (msg_frame m @ rest) = Some (Ok (Some (S_Message m)), ControlLine 0, rest)"
  by (rule decode_msg_frame_lemma) (fact assms)+

lemma msg_round_trip_witness:
  defines "m \<equiv> \<lparr>status_code = None, status_description = None, subscription_id = 9, base = \<lparr>msg_subject = Subject ''a.b'',
    msg_reply_subject = None, msg_headers = header_map_new, msg_payload = ''hi''\<rparr>\<rparr>"
  shows "decode (ref_json (\<lambda>_. Err ()) (\<lambda>_. ''{}'')) True (ControlLine 0) (msg_frame m @ ''PING'') =
    Some (Ok (Some (S_Message m)), ControlLine 0, ''PING'')"
proof (rule msg_round_trip [OF ref_json_ok])
  show "server_message_ok m" unfolding m_def server_message_ok_def subject_text_ok_def by simp code_simp
qed (simp_all add: m_def MAX_MSG_LEN_def msg_frame_def Let_def)



end
