(* ===== verification/Streaming.thy ===== *)
theory Streaming
  imports Decoder_Spec Encoder
begin

text \<open>
  \<open>watermelon-net/src/connection/streaming.rs\<close>: a NATS connection over a byte stream. The socket is a
  dictionary \<open>socket_ops\<close> of the operations of \<open>AsyncRead\<close> and \<open>AsyncWrite\<close> on a socket \<open>'k\<close> in a world \<open>'w\<close>;
  its contract is the locale \<open>byte_sink\<close>. \<open>None\<close> is a panic.
\<close>

datatype 'i io_error = UnexpectedEof | InvalidInput | InvalidData | Io_Other 'i

record ('k, 'i, 'w) socket_ops =
  sock_poll_read :: "'k \<Rightarrow> 'w \<Rightarrow> ('i io_error + bytes) poll \<times> 'k \<times> 'w"
  sock_is_write_vectored :: "'k \<Rightarrow> bool"
  sock_poll_write :: "bytes \<Rightarrow> 'k \<Rightarrow> 'w \<Rightarrow> ('i io_error + nat) poll \<times> 'k \<times> 'w"
  sock_poll_write_vectored :: "bytes list \<Rightarrow> 'k \<Rightarrow> 'w \<Rightarrow> ('i io_error + nat) poll \<times> 'k \<times> 'w"
  sock_poll_flush :: "'k \<Rightarrow> 'w \<Rightarrow> ('i io_error + unit) poll \<times> 'k \<times> 'w"
  sock_poll_shutdown :: "'k \<Rightarrow> 'w \<Rightarrow> ('i io_error + unit) poll \<times> 'k \<times> 'w"

record 'k streaming_connection =
  sc_socket :: 'k
  sc_encoder :: stream_encoder
  sc_decoder :: stream_decoder
  sc_may_flush :: bool

datatype ('j, 'i) streaming_read_error = Streaming_Decoder "'j decoder_error" | Streaming_Io "'i io_error"

definition streaming_new :: "'k \<Rightarrow> 'k streaming_connection" where
  "streaming_new socket = \<lparr> sc_socket = socket, sc_encoder = stream_encoder_new,
     sc_decoder = stream_decoder_new, sc_may_flush = False \<rparr>"

text \<open>\<open>read_buf\<close> appends what the socket gives to the buffer of the decoder; no bytes mean the end.\<close>

partial_function (option) streaming_poll_read_next ::
    "('j, 'z) json_ext_scheme \<Rightarrow> bool \<Rightarrow> ('k, 'i, 'w, 'y) socket_ops_scheme \<Rightarrow>
     'k streaming_connection \<Rightarrow> 'w \<Rightarrow>
     ((('j, 'i) streaming_read_error + server_op) poll \<times> 'k streaming_connection \<times> 'w) option" where
  "streaming_poll_read_next e dbg so conn w = do {
     (r, d) \<leftarrow> stream_decoder_decode e dbg (sc_decoder conn);
     let conn = conn\<lparr>sc_decoder := d\<rparr>;
     (case r of
        Inr (Some server_op) \<Rightarrow> Some (Ready (Ok server_op), conn, w)
      | Inl err \<Rightarrow> Some (Ready (Err (Streaming_Decoder err)), conn, w)
      | Inr None \<Rightarrow>
          (case sock_poll_read so (sc_socket conn) w of
             (Pending, k, w) \<Rightarrow> Some (Pending, conn\<lparr>sc_socket := k\<rparr>, w)
           | (Ready (Inr b), k, w) \<Rightarrow>
               if b = [] then Some (Ready (Err (Streaming_Io UnexpectedEof)), conn\<lparr>sc_socket := k\<rparr>, w)
               else streaming_poll_read_next e dbg so
                 (conn\<lparr>sc_socket := k, sc_decoder := stream_decoder_put b d\<rparr>) w
           | (Ready (Inl err), k, w) \<Rightarrow> Some (Ready (Err (Streaming_Io err)), conn\<lparr>sc_socket := k\<rparr>, w))) }"

definition streaming_may_write :: "bool \<Rightarrow> 'k streaming_connection \<Rightarrow> bool option" where
  "streaming_may_write dbg conn = stream_has_remaining dbg (sc_encoder conn)"

definition streaming_may_enqueue_more_ops :: "bool \<Rightarrow> 'k streaming_connection \<Rightarrow> bool option" where
  "streaming_may_enqueue_more_ops dbg conn =
     map_option (\<lambda>n. n < 8290304) (stream_remaining dbg (sc_encoder conn))"

definition streaming_enqueue_write_op ::
    "('j, 'z) json_ext_scheme \<Rightarrow> bool \<Rightarrow> client_op \<Rightarrow> 'k streaming_connection \<Rightarrow>
     'k streaming_connection option" where
  "streaming_enqueue_write_op e dbg item conn =
     map_option (\<lambda>enc. conn\<lparr>sc_encoder := enc\<rparr>) (enqueue_write_op e dbg item (sc_encoder conn))"

text \<open>One write: vectored when there is more than one chunk and the socket can do it.\<close>

definition streaming_write_outcome ::
    "bool \<Rightarrow> ('k, 'i, 'w, 'y) socket_ops_scheme \<Rightarrow> nat \<Rightarrow> 'k streaming_connection \<Rightarrow> 'w \<Rightarrow>
     (('i io_error + nat) poll \<times> 'k \<times> 'w) option" where
  "streaming_write_outcome dbg so remaining conn w =
     (let chunk = stream_chunk (sc_encoder conn) in
      if length chunk < remaining \<and> sock_is_write_vectored so (sc_socket conn) then do {
        let bufs = stream_chunks_vectored 64 (sc_encoder conn);
        _ \<leftarrow> debug_assert dbg (length bufs \<ge> 2);
        Some (sock_poll_write_vectored so bufs (sc_socket conn) w) }
      else do {
        _ \<leftarrow> debug_assert dbg (chunk \<noteq> []);
        Some (sock_poll_write so chunk (sc_socket conn) w) })"

definition streaming_poll_write_next ::
    "bool \<Rightarrow> ('k, 'i, 'w, 'y) socket_ops_scheme \<Rightarrow> 'k streaming_connection \<Rightarrow> 'w \<Rightarrow>
     (('i io_error + nat) poll \<times> 'k streaming_connection \<times> 'w) option" where
  "streaming_poll_write_next dbg so conn w = do {
     remaining \<leftarrow> stream_remaining dbg (sc_encoder conn);
     if remaining = 0 then Some (Ready (Ok 0), conn, w)
     else do {
       (outcome, k, w) \<leftarrow> streaming_write_outcome dbg so remaining conn w;
       let conn = conn\<lparr>sc_socket := k\<rparr>;
       (case outcome of
          Pending \<Rightarrow> Some (Pending, conn\<lparr>sc_may_flush := False\<rparr>, w)
        | Ready (Inr n) \<Rightarrow> do {
            enc \<leftarrow> stream_advance dbg n (sc_encoder conn);
            Some (Ready (Ok n), conn\<lparr>sc_encoder := enc, sc_may_flush := True\<rparr>, w) }
        | Ready (Inl err) \<Rightarrow> Some (Ready (Err err), conn, w)) } }"

definition streaming_poll_flush ::
    "('k, 'i, 'w, 'y) socket_ops_scheme \<Rightarrow> 'k streaming_connection \<Rightarrow> 'w \<Rightarrow>
     ('i io_error + unit) poll \<times> 'k streaming_connection \<times> 'w" where
  "streaming_poll_flush so conn w =
     (case sock_poll_flush so (sc_socket conn) w of
        (r, k, w) \<Rightarrow>
          (r, conn\<lparr>sc_socket := k, sc_may_flush := (if r = Ready (Ok ()) then False else sc_may_flush conn)\<rparr>, w))"

definition streaming_poll_shutdown ::
    "('k, 'i, 'w, 'y) socket_ops_scheme \<Rightarrow> 'k streaming_connection \<Rightarrow> 'w \<Rightarrow>
     ('i io_error + unit) poll \<times> 'k streaming_connection \<times> 'w" where
  "streaming_poll_shutdown so conn w =
     (case sock_poll_shutdown so (sc_socket conn) w of (r, k, w) \<Rightarrow> (r, conn\<lparr>sc_socket := k\<rparr>, w))"

definition replace_socket :: "('k \<Rightarrow> 'l) \<Rightarrow> 'k streaming_connection \<Rightarrow> 'l streaming_connection" where
  "replace_socket replacer conn = \<lparr> sc_socket = replacer (sc_socket conn), sc_encoder = sc_encoder conn,
     sc_decoder = sc_decoder conn, sc_may_flush = sc_may_flush conn \<rparr>"

section \<open>Reading\<close>

text \<open>The chunks that successive reads of a socket give.\<close>

inductive sock_reads ::
    "('k, 'i, 'w, 'y) socket_ops_scheme \<Rightarrow> 'k \<Rightarrow> 'w \<Rightarrow> bytes list \<Rightarrow> 'k \<Rightarrow> 'w \<Rightarrow> bool"
  for so :: "('k, 'i, 'w, 'y) socket_ops_scheme" where
  none: "sock_reads so k w [] k w"
| read: "sock_poll_read so k w = (Ready (Inr c), k', w') \<Longrightarrow> c \<noteq> [] \<Longrightarrow> sock_reads so k' w' cs k'' w'' \<Longrightarrow>
    sock_reads so k w (c # cs) k'' w''"

definition decoder_inv :: "('j, 'z) json_ext_scheme \<Rightarrow> stream_decoder \<Rightarrow> bool" where
  "decoder_inv e d \<longleftrightarrow> status_inv (unicase_key e) (sd_status d) \<and> count_ok (sd_status d)"

lemma decoder_inv_new [simp]: "decoder_inv e stream_decoder_new"
  by (simp add: decoder_inv_def stream_decoder_new_def MAX_HEAD_LEN_def)

lemma decoder_inv_put [simp]: "decoder_inv e (stream_decoder_put b d) = decoder_inv e d"
  by (simp add: decoder_inv_def stream_decoder_put_def)

lemma stream_decoder_decode_safe:
  assumes e: "ext_ok e" and inv: "decoder_inv e d"
  shows "\<exists>r d'. stream_decoder_decode e False d = Some (r, d') \<and> decoder_inv e d'"
proof -
  from decode_sound [OF e, of "sd_status d" "sd_read_buf d"] inv
  obtain r st b where d: "decode e False (sd_status d) (sd_read_buf d) = Some (r, st, b)"
      "status_inv (unicase_key e) st"
    by (auto simp: sound_outcome_def decoder_inv_def)
  with decode_count_ok [OF e _ d(1)] inv show ?thesis
    by (simp add: stream_decoder_decode_def decoder_inv_def)
qed

definition decoder_measure :: "stream_decoder \<Rightarrow> nat" where
  "decoder_measure d = waiting_measure (sd_status d) (sd_read_buf d)"

lemma stream_decoder_waiting:
  assumes e: "ext_ok e" and inv: "decoder_inv e d"
    and d: "stream_decoder_decode e False d = Some (Ok None, d')" and "b \<noteq> []"
  shows "decoder_measure (stream_decoder_put b d') < decoder_measure d"
proof -
  from d obtain st p where "decode e False (sd_status d) (sd_read_buf d) = Some (Ok None, st, p)"
      "d' = d\<lparr>sd_read_buf := p, sd_status := st\<rparr>"
    by (auto simp: stream_decoder_decode_def elim!: bind_SomeE)
  with decode_waiting [OF e _ _ this(1)] inv \<open>b \<noteq> []\<close> show ?thesis
    by (auto simp: decoder_measure_def stream_decoder_put_def decoder_inv_def intro!: waiting_measure_less)
qed

text \<open>What a read returns is what the decoder makes of its buffer followed by the bytes read, however the
  socket has cut them in chunks.\<close>

lemma feed_step:
  "feed e st b (c # cs) =
     (case decode e False st b of
        None \<Rightarrow> None
      | Some (r, st', b') \<Rightarrow> if r = Ok None then feed e st' (b' @ c) cs else Some (r, st', b', c # cs))"
  by (simp add: feed.simps split: option.split prod.split)

lemma feed_last: "feed e st b [] = map_option (\<lambda>(r, st', b'). (r, st', b', [])) (decode e False st b)"
  by (simp add: feed.simps split: option.split prod.split)

definition read_explained ::
    "('j, 'z) json_ext_scheme \<Rightarrow> ('k, 'i, 'w, 'y) socket_ops_scheme \<Rightarrow> 'k streaming_connection \<Rightarrow> 'w \<Rightarrow>
     (('j, 'i) streaming_read_error + server_op) poll \<times> 'k streaming_connection \<times> 'w \<Rightarrow> bytes list \<Rightarrow> bool" where
  "read_explained e so conn w out cs = (case out of (r, conn', w') \<Rightarrow>
     (\<exists>k1 w1. sock_reads so (sc_socket conn) w cs k1 w1 \<and>
       feed e (sd_status (sc_decoder conn)) (sd_read_buf (sc_decoder conn)) cs =
         Some (case r of
             Ready (Inr op) \<Rightarrow> Ok (Some op)
           | Ready (Inl (Streaming_Decoder err)) \<Rightarrow> Err err
           | _ \<Rightarrow> Ok None, sd_status (sc_decoder conn'), sd_read_buf (sc_decoder conn'), []) \<and>
       (case r of
          Pending \<Rightarrow> sock_poll_read so k1 w1 = (Pending, sc_socket conn', w')
        | Ready (Inl (Streaming_Io err)) \<Rightarrow>
            sock_poll_read so k1 w1 = (Ready (Err err), sc_socket conn', w') \<or>
            err = UnexpectedEof \<and> sock_poll_read so k1 w1 = (Ready (Ok []), sc_socket conn', w')
        | _ \<Rightarrow> sc_socket conn' = k1 \<and> w' = w1)))"

lemma read_explained_step:
  assumes d: "stream_decoder_decode e False (sc_decoder conn) = Some (Ok None, d)"
    and p: "sock_poll_read so (sc_socket conn) w = (Ready (Ok b), k, w1)" and "b \<noteq> []"
    and x: "read_explained e so (conn\<lparr>sc_socket := k, sc_decoder := stream_decoder_put b d\<rparr>) w1 out cs"
  shows "read_explained e so conn w out (b # cs)"
proof -
  obtain r conn' w' where out: "out = (r, conn', w')" by (cases out)
  from d have "decode e False (sd_status (sc_decoder conn)) (sd_read_buf (sc_decoder conn)) =
      Some (Ok None, sd_status d, sd_read_buf d)"
    by (auto simp: stream_decoder_decode_def elim!: bind_SomeE)
  with x out show ?thesis
    by (auto simp: read_explained_def feed_step stream_decoder_put_def
        intro: sock_reads.read [OF p \<open>b \<noteq> []\<close>])
qed

lemma read_explained_last:
  assumes "stream_decoder_decode e False (sc_decoder conn) = Some (r, d)"
  shows "r = Ok (Some op) \<Longrightarrow> read_explained e so conn w (Ready (Ok op), conn\<lparr>sc_decoder := d\<rparr>, w) []"
    and "r = Err x \<Longrightarrow> read_explained e so conn w (Ready (Err (Streaming_Decoder x)), conn\<lparr>sc_decoder := d\<rparr>, w) []"
    and "r = Ok None \<Longrightarrow> sock_poll_read so (sc_socket conn) w = (Pending, k, w1) \<Longrightarrow>
      read_explained e so conn w (Pending, conn\<lparr>sc_decoder := d, sc_socket := k\<rparr>, w1) []"
    and "r = Ok None \<Longrightarrow> sock_poll_read so (sc_socket conn) w = (Ready (Err i), k, w1) \<Longrightarrow>
      read_explained e so conn w (Ready (Err (Streaming_Io i)), conn\<lparr>sc_decoder := d, sc_socket := k\<rparr>, w1) []"
    and "r = Ok None \<Longrightarrow> sock_poll_read so (sc_socket conn) w = (Ready (Ok []), k, w1) \<Longrightarrow>
      read_explained e so conn w (Ready (Err (Streaming_Io UnexpectedEof)), conn\<lparr>sc_decoder := d, sc_socket := k\<rparr>, w1) []"
  using assms
  by (auto simp: read_explained_def stream_decoder_decode_def feed_last sock_reads.none
      elim!: bind_SomeE intro!: exI [of _ "sc_socket conn"] exI [of _ w])

text \<open>A read returns, whatever the socket does, and is explained by the bytes it read.\<close>

lemma streaming_read_explained:
  fixes e :: "('j, 'z) json_ext_scheme"
  assumes e: "ext_ok e" and inv: "decoder_inv e (sc_decoder conn)"
  shows "\<exists>r conn' w' cs. streaming_poll_read_next e False so conn w = Some (r, conn', w') \<and>
    decoder_inv e (sc_decoder conn') \<and> sc_encoder conn' = sc_encoder conn \<and> sc_may_flush conn' = sc_may_flush conn \<and>
    read_explained e so conn w (r, conn', w') cs"
  using inv
proof (induction "decoder_measure (sc_decoder conn)" arbitrary: conn w rule: less_induct)
  case less
  obtain r :: "'j decoder_error + server_op option" and d where
      d: "stream_decoder_decode e False (sc_decoder conn) = Some (r, d)" "decoder_inv e d"
    using stream_decoder_decode_safe [OF e less.prems] by blast
  obtain po k w1 where p: "sock_poll_read so (sc_socket conn) w = (po, k, w1)" by (cases "sock_poll_read so (sc_socket conn) w")
  note last = read_explained_last [where so = so and w = w, OF d(1)]
  consider x where "r = Err x" | op where "r = Ok (Some op)" | "r = Ok None" "po = Pending"
    | i where "r = Ok None" "po = Ready (Err i)" | "r = Ok None" "po = Ready (Ok [])"
    | b where "r = Ok None" "po = Ready (Ok b)" "b \<noteq> []"
    by (cases r; cases po) (metis option.exhaust sum.exhaust)+
  then show ?case
  proof cases
    case (6 b)
    let ?conn = "conn\<lparr>sc_socket := k, sc_decoder := stream_decoder_put b d\<rparr>"
    have "\<exists>r conn' w' cs. streaming_poll_read_next e False so ?conn w1 = Some (r, conn', w') \<and>
        decoder_inv e (sc_decoder conn') \<and> sc_encoder conn' = sc_encoder ?conn \<and>
        sc_may_flush conn' = sc_may_flush ?conn \<and> read_explained e so ?conn w1 (r, conn', w') cs"
      by (rule less.hyps) (use stream_decoder_waiting [OF e less.prems] d 6 in auto)
    then obtain r' conn' w' cs where n: "streaming_poll_read_next e False so ?conn w1 = Some (r', conn', w')"
        "decoder_inv e (sc_decoder conn')" "sc_encoder conn' = sc_encoder conn" "sc_may_flush conn' = sc_may_flush conn"
        "read_explained e so ?conn w1 (r', conn', w') cs" by auto
    have "streaming_poll_read_next e False so conn w = Some (r', conn', w')"
      using d p n 6 by (subst streaming_poll_read_next.simps) simp
    moreover have "read_explained e so conn w (r', conn', w') (b # cs)"
      using read_explained_step [OF _ _ 6(3) n(5)] d p 6 by simp
    ultimately show ?thesis using n by blast
  qed (subst streaming_poll_read_next.simps; use d p last in \<open>simp add: Let_def; blast\<close>)+
qed

section \<open>Writing\<close>

text \<open>Everything ever enqueued, \<open>sent\<close> being the bytes a socket has taken: those, then what the encoder
  still holds.\<close>

definition enqueued :: "('k \<Rightarrow> bytes) \<Rightarrow> 'k streaming_connection \<Rightarrow> bytes" where
  "enqueued sent conn = sent (sc_socket conn) @ stream_contents (sc_encoder conn)"

lemma streaming_enqueue_appends:
  assumes "stream_inv (sc_encoder conn)"
  shows "\<exists>conn'. streaming_enqueue_write_op e dbg op conn = Some conn' \<and> stream_inv (sc_encoder conn') \<and>
    sc_socket conn' = sc_socket conn \<and> sc_decoder conn' = sc_decoder conn \<and>
    stream_contents (sc_encoder conn') = stream_contents (sc_encoder conn) @ client_op_text e op"
  using stream.encode_appends [OF assms, of e dbg op]
  by (auto simp: streaming_enqueue_write_op_def enqueue_write_op_def)

lemma streaming_may_write_eq:
  "stream_inv (sc_encoder conn) \<Longrightarrow> streaming_may_write dbg conn = Some (stream_contents (sc_encoder conn) \<noteq> [])"
  by (simp add: streaming_may_write_def stream_has_remaining_eq)

text \<open>There are two chunks when one is not all.\<close>

lemma stream_vectored_two:
  assumes inv: "stream_inv s" and less: "length (stream_chunk s) < length (stream_contents s)" and n: "2 \<le> n"
  shows "2 \<le> length (stream_chunks_vectored n s)"
proof (cases "bufs (write_buf s)")
  case Nil
  with less show ?thesis
    by (simp add: stream_chunk_def buf_list_chunk_def stream_contents_def buf_list_contents_def)
next
  case (Cons b bs)
  then have b: "b \<noteq> []" "\<forall>b\<in>set bs. b \<noteq> []" using inv by (auto simp: stream_inv_def buf_list_inv_def)
  with Cons less have more: "bs = [] \<longrightarrow> flattened_writes s \<noteq> []"
    by (auto simp: stream_chunk_def buf_list_chunk_def stream_contents_def buf_list_contents_def)
  from n obtain m where "n = Suc (Suc m)" by (metis Suc_le_D numeral_2_eq_2 Suc_le_mono)
  with b Cons more show ?thesis
    by (cases bs) (auto simp: stream_chunks_vectored_def buf_list_chunks_vectored_def Let_def)
qed

text \<open>What a socket promises of its writes: it takes a prefix of what it is given.\<close>

locale byte_sink =
  fixes so :: "('k, 'i, 'w, 'y) socket_ops_scheme" and sent :: "'k \<Rightarrow> bytes"
  assumes write_takes: "sock_poll_write so b k w = (Ready (Inr n), k', w') \<Longrightarrow> n \<le> length b \<and> sent k' = sent k @ take n b"
    and vectored_takes: "sock_poll_write_vectored so bs k w = (Ready (Inr n), k', w') \<Longrightarrow>
      n \<le> length (concat bs) \<and> sent k' = sent k @ take n (concat bs)"
    and write_other: "sock_poll_write so b k w = (r, k', w') \<Longrightarrow> (\<And>n. r \<noteq> Ready (Inr n)) \<Longrightarrow> sent k' = sent k"
    and vectored_other: "sock_poll_write_vectored so bs k w = (r, k', w') \<Longrightarrow> (\<And>n. r \<noteq> Ready (Inr n)) \<Longrightarrow> sent k' = sent k"
    and read_sends_nothing: "sock_poll_read so k w = (r', k', w') \<Longrightarrow> sent k' = sent k"
    and flush_sends_nothing: "sock_poll_flush so k w = (r'', k', w') \<Longrightarrow> sent k' = sent k"
begin

text \<open>A write: never a panic; what the socket takes leaves the encoder, and nothing else does.\<close>

lemma poll_write_next_keeps:
  assumes inv: "stream_inv (sc_encoder conn)"
  shows "\<exists>r conn' w'. streaming_poll_write_next dbg so conn w = Some (r, conn', w') \<and>
    stream_inv (sc_encoder conn') \<and> sc_decoder conn' = sc_decoder conn \<and>
    enqueued sent conn' = enqueued sent conn \<and>
    (\<forall>n. r = Ready (Ok n) \<longrightarrow> length (sent (sc_socket conn')) = length (sent (sc_socket conn)) + n)"
proof (cases "stream_contents (sc_encoder conn) = []")
  case True
  with inv show ?thesis by (simp add: streaming_poll_write_next_def stream_remaining_eq)
next
  case False
  let ?c = "sc_encoder conn" and ?k = "sc_socket conn"
  let ?bs = "stream_chunks_vectored 64 ?c"
  obtain rest where chunk: "stream_contents ?c = stream_chunk ?c @ rest" using stream_chunk_prefix [OF inv] by blast
  obtain rest' where vec: "stream_contents ?c = concat ?bs @ rest'" using stream_vectored(1) [OF inv] by blast
  have "\<exists>r k w'. streaming_write_outcome dbg so (length (stream_contents ?c)) conn w = Some (r, k, w') \<and>
      (\<forall>n. r = Ready (Ok n) \<longrightarrow> n \<le> length (stream_contents ?c) \<and> sent k = sent ?k @ take n (stream_contents ?c)) \<and>
      ((\<forall>n. r \<noteq> Ready (Ok n)) \<longrightarrow> sent k = sent ?k)"
  proof (cases "length (stream_chunk ?c) < length (stream_contents ?c) \<and> sock_is_write_vectored so ?k")
    case True
    obtain r k w' where p: "sock_poll_write_vectored so ?bs ?k w = (r, k, w')" by (cases "sock_poll_write_vectored so ?bs ?k w")
    with True stream_vectored_two [OF inv, of 64]
    have "streaming_write_outcome dbg so (length (stream_contents ?c)) conn w = Some (r, k, w')"
      by (simp add: streaming_write_outcome_def Let_def debug_assert_def)
    with vectored_takes [of ?bs ?k w] vectored_other [OF p] p vec show ?thesis by auto
  next
    case no_vec: False
    obtain r k w' where p: "sock_poll_write so (stream_chunk ?c) ?k w = (r, k, w')" by (cases "sock_poll_write so (stream_chunk ?c) ?k w")
    with no_vec stream_chunk_nonempty [OF inv False]
    have "streaming_write_outcome dbg so (length (stream_contents ?c)) conn w = Some (r, k, w')"
      by (auto simp: streaming_write_outcome_def Let_def debug_assert_def)
    with write_takes [of "stream_chunk ?c" ?k w] write_other [OF p] p chunk show ?thesis by auto
  qed
  then obtain r k w' where o: "streaming_write_outcome dbg so (length (stream_contents ?c)) conn w = Some (r, k, w')"
      and takes: "\<And>n. r = Ready (Ok n) \<Longrightarrow> n \<le> length (stream_contents ?c) \<and> sent k = sent ?k @ take n (stream_contents ?c)"
      and other: "(\<And>n. r \<noteq> Ready (Ok n)) \<Longrightarrow> sent k = sent ?k" by auto
  show ?thesis
  proof (cases "\<exists>n. r = Ready (Ok n)")
    case True
    then obtain n where n: "r = Ready (Ok n)" by blast
    from stream_advance_in [OF inv, of n dbg] takes [OF n] obtain enc where
      "stream_advance dbg n ?c = Some enc" "stream_inv enc" "stream_contents enc = drop n (stream_contents ?c)" by auto
    with o n takes [OF n] False inv show ?thesis
      by (simp add: streaming_poll_write_next_def stream_remaining_eq enqueued_def Let_def)
  next
    case no: False
    with o other False inv show ?thesis
      by (cases r) (auto simp: streaming_poll_write_next_def stream_remaining_eq enqueued_def Let_def split: sum.splits)
  qed
qed

lemma poll_flush_keeps:
  "streaming_poll_flush so conn w = (r, conn', w') \<Longrightarrow>
    sc_encoder conn' = sc_encoder conn \<and> sc_decoder conn' = sc_decoder conn \<and> enqueued sent conn' = enqueued sent conn"
  by (auto simp: streaming_poll_flush_def enqueued_def dest: flush_sends_nothing split: prod.splits)

lemma reads_send_nothing: "sock_reads so k w cs k' w' \<Longrightarrow> sent k' = sent k"
  by (induction rule: sock_reads.induct) (auto dest: read_sends_nothing)

lemma poll_read_next_keeps:
  assumes x: "read_explained e so conn w (r, conn', w') cs" and enc: "sc_encoder conn' = sc_encoder conn"
  shows "enqueued sent conn' = enqueued sent conn"
proof -
  from x obtain k1 w1 where reads: "sock_reads so (sc_socket conn) w cs k1 w1"
    and last: "(case r of Pending \<Rightarrow> sock_poll_read so k1 w1 = (Pending, sc_socket conn', w')
        | Ready (Inl (Streaming_Io err)) \<Rightarrow>
            sock_poll_read so k1 w1 = (Ready (Err err), sc_socket conn', w') \<or>
            err = UnexpectedEof \<and> sock_poll_read so k1 w1 = (Ready (Ok []), sc_socket conn', w')
        | _ \<Rightarrow> sc_socket conn' = k1 \<and> w' = w1)"
    unfolding read_explained_def by blast
  from last have "(\<exists>r'. sock_poll_read so k1 w1 = (r', sc_socket conn', w')) \<or> sc_socket conn' = k1"
    by (simp split: poll.splits sum.splits streaming_read_error.splits) blast?
  then have "sent (sc_socket conn') = sent k1" using read_sends_nothing by blast
  with reads_send_nothing [OF reads] enc show ?thesis by (simp add: enqueued_def)
qed

end

section \<open>Properties\<close>

text \<open>C7: A write of a streaming connection never panics, debug assertions included, and loses, repeats
  or reorders nothing: the bytes the socket has taken followed by those the encoder holds are the
  same before and after, and the count it returns is the number of bytes that went from the one
  to the other.\<close>

theorem write_loses_nothing:
  assumes "byte_sink so sent" and "stream_inv (sc_encoder conn)"
  shows "\<exists>r conn' w'. streaming_poll_write_next dbg so conn w = Some (r, conn', w') \<and>
    stream_inv (sc_encoder conn') \<and>
    sent (sc_socket conn') @ stream_contents (sc_encoder conn') = sent (sc_socket conn) @ stream_contents (sc_encoder conn) \<and>
    (\<forall>n. r = Ready (Ok n) \<longrightarrow> length (sent (sc_socket conn')) = length (sent (sc_socket conn)) + n)"
  using byte_sink.poll_write_next_keeps [OF assms, of dbg w] unfolding enqueued_def by blast

lemma write_loses_nothing_witness:
  defines "so \<equiv> \<lparr>sock_poll_read = (\<lambda>k w. (Pending, k, w)), sock_is_write_vectored = (\<lambda>_. True),
    sock_poll_write = (\<lambda>b k w. (Ready (Ok (length b)), k @ b, w)),
    sock_poll_write_vectored = (\<lambda>bs k w. (Ready (Ok (length (concat bs))), k @ concat bs, w)),
    sock_poll_flush = (\<lambda>k w. (Ready (Ok ()), k, w)), sock_poll_shutdown = (\<lambda>k w. (Ready (Ok ()), k, w))\<rparr>"
  defines "enc \<equiv> \<lparr>write_buf = \<lparr>bufs = [''ab'', ''cd''], len = 4\<rparr>, flattened_writes = ''ef''\<rparr>"
  defines "conn \<equiv> \<lparr>sc_socket = ''>'', sc_encoder = enc, sc_decoder = stream_decoder_new, sc_may_flush = False\<rparr>"
  shows "\<exists>r conn' w'. streaming_poll_write_next True so conn () = Some (r, conn', w') \<and>
    sc_socket conn' @ stream_contents (sc_encoder conn') = ''>abcdef''"
proof -
  have sink: "byte_sink so (\<lambda>k. k)" by unfold_locales (auto simp: so_def)
  have inv: "stream_inv (sc_encoder conn)" "stream_contents (sc_encoder conn) = ''abcdef''" "sc_socket conn = ''>''"
    by (simp_all add: conn_def enc_def stream_inv_def buf_list_inv_def stream_contents_def buf_list_contents_def)
  show ?thesis using write_loses_nothing [OF sink inv(1), of True "()"] inv by fastforce
qed

text \<open>C8: A read of a streaming connection always returns, even from a socket that never runs dry:
  there is no limitless loop and no panic in a release build. What it returns is what the decoder
  makes of the bytes it held followed by the chunks read, and it neither writes nor flushes.\<close>

theorem read_returns:
  assumes "ext_ok e" and "decoder_inv e (sc_decoder conn)"
  shows "\<exists>r conn' w' cs. streaming_poll_read_next e False so conn w = Some (r, conn', w') \<and>
    decoder_inv e (sc_decoder conn') \<and> sc_encoder conn' = sc_encoder conn \<and> sc_may_flush conn' = sc_may_flush conn \<and>
    read_explained e so conn w (r, conn', w') cs"
  by (rule streaming_read_explained) (fact assms)+

lemma read_returns_witness:
  defines "so \<equiv> \<lparr>sock_poll_read = (\<lambda>k w. (Ready (Ok ''x''), k, w)), sock_is_write_vectored = (\<lambda>_. False),
    sock_poll_write = (\<lambda>b k w. (Ready (Ok (length b)), k, w)),
    sock_poll_write_vectored = (\<lambda>bs k w. (Ready (Ok (length (concat bs))), k, w)),
    sock_poll_flush = (\<lambda>k w. (Ready (Ok ()), k, w)), sock_poll_shutdown = (\<lambda>k w. (Ready (Ok ()), k, w))\<rparr>"
  shows "\<exists>r conn' w'. streaming_poll_read_next (ref_json (\<lambda>_. Err ()) (\<lambda>_. ''{}'')) False so (streaming_new ()) () =
    Some (r, conn', w')"
  using read_returns [OF ref_json_ok [of "\<lambda>_. Err ()" "\<lambda>_. ''{}''"], of "streaming_new ()" so "()"]
  by (auto simp: streaming_new_def)

end
