(* ===== verification/Websocket.thy ===== *)
theory Websocket
  imports Streaming
begin

text \<open>
  \<open>watermelon-net/src/connection/websocket.rs\<close>: a NATS connection over the binary frames of a websocket. The
  sink and stream of \<open>tokio_websockets\<close> is a dictionary \<open>ws_ops\<close> on a socket \<open>'k\<close>; its errors other than I/O
  have the type \<open>'x\<close>.
\<close>

datatype ws_message = Ws_Binary bytes | Ws_Not_Binary

datatype ('i, 'x) ws_error = Ws_Io "'i io_error" | Ws_Protocol 'x

record ('k, 'i, 'x, 'w) ws_ops =
  ws_poll_next :: "'k \<Rightarrow> 'w \<Rightarrow> (('i, 'x) ws_error + ws_message) option poll \<times> 'k \<times> 'w"
  ws_poll_ready :: "'k \<Rightarrow> 'w \<Rightarrow> (('i, 'x) ws_error + unit) poll \<times> 'k \<times> 'w"
  ws_start_send :: "bytes \<Rightarrow> 'k \<Rightarrow> (('i, 'x) ws_error + unit) \<times> 'k"
  ws_poll_flush :: "'k \<Rightarrow> 'w \<Rightarrow> (('i, 'x) ws_error + unit) poll \<times> 'k \<times> 'w"
  ws_poll_close :: "'k \<Rightarrow> 'w \<Rightarrow> (('i, 'x) ws_error + unit) poll \<times> 'k \<times> 'w"
  io_error_other :: "'x \<Rightarrow> 'i"

record ('k, 'i) websocket_connection =
  wc_socket :: 'k
  wc_encoder :: bytes
  residual_frame :: bytes
  wc_should_flush :: bool
  send_error :: "'i io_error option"

datatype ('j, 'i) websocket_read_error =
  Websocket_Decoder "'j frame_decoder_error" | Websocket_Io "'i io_error" | Websocket_Closed

fun websockets_error_to_io :: "('k, 'i, 'x, 'w, 'y) ws_ops_scheme \<Rightarrow> ('i, 'x) ws_error \<Rightarrow> 'i io_error" where
  "websockets_error_to_io wo (Ws_Io err) = err"
| "websockets_error_to_io wo (Ws_Protocol err) = Io_Other (io_error_other wo err)"

definition map_poll :: "('a \<Rightarrow> 'b) \<Rightarrow> 'a poll \<Rightarrow> 'b poll" where
  "map_poll f r = (case r of Pending \<Rightarrow> Pending | Ready x \<Rightarrow> Ready (f x))"

definition websocket_new :: "'k \<Rightarrow> ('k, 'i) websocket_connection" where
  "websocket_new socket = \<lparr> wc_socket = socket, wc_encoder = [], residual_frame = [],
     wc_should_flush = False, send_error = None \<rparr>"

text \<open>The loop of \<open>poll_read_next\<close>; \<open>None\<close> also stands for a stream of other messages that never ends.\<close>

partial_function (option) websocket_read_loop ::
    "('j, 'z) json_ext_scheme \<Rightarrow> bool \<Rightarrow> ('k, 'i, 'x, 'w, 'y) ws_ops_scheme \<Rightarrow>
     ('k, 'i) websocket_connection \<Rightarrow> 'w \<Rightarrow>
     ((('j, 'i) websocket_read_error + server_op) poll \<times> ('k, 'i) websocket_connection \<times> 'w) option" where
  "websocket_read_loop e dbg wo conn w =
     (if residual_frame conn \<noteq> [] then do {
        (r, frame) \<leftarrow> decode_frame e dbg (residual_frame conn);
        Some (Ready (map_err Websocket_Decoder r), conn\<lparr>residual_frame := frame\<rparr>, w) }
      else (case ws_poll_next wo (wc_socket conn) w of
         (Pending, k, w) \<Rightarrow> Some (Pending, conn\<lparr>wc_socket := k\<rparr>, w)
       | (Ready (Some (Inr (Ws_Binary payload))), k, w) \<Rightarrow>
           websocket_read_loop e dbg wo (conn\<lparr>wc_socket := k, residual_frame := payload\<rparr>) w
       | (Ready (Some (Inr Ws_Not_Binary)), k, w) \<Rightarrow> websocket_read_loop e dbg wo (conn\<lparr>wc_socket := k\<rparr>) w
       | (Ready (Some (Inl err)), k, w) \<Rightarrow>
           Some (Ready (Err (Websocket_Io (websockets_error_to_io wo err))), conn\<lparr>wc_socket := k\<rparr>, w)
       | (Ready None, k, w) \<Rightarrow> Some (Ready (Err Websocket_Closed), conn\<lparr>wc_socket := k\<rparr>, w)))"

definition websocket_poll_read_next ::
    "('j, 'z) json_ext_scheme \<Rightarrow> bool \<Rightarrow> ('k, 'i, 'x, 'w, 'y) ws_ops_scheme \<Rightarrow>
     ('k, 'i) websocket_connection \<Rightarrow> 'w \<Rightarrow>
     ((('j, 'i) websocket_read_error + server_op) poll \<times> ('k, 'i) websocket_connection \<times> 'w) option" where
  "websocket_poll_read_next e dbg wo conn w =
     (case send_error conn of
        Some err \<Rightarrow> Some (Ready (Err (Websocket_Io err)), conn\<lparr>send_error := None\<rparr>, w)
      | None \<Rightarrow> websocket_read_loop e dbg wo conn w)"

definition websocket_may_enqueue_more_ops ::
    "('k, 'i, 'x, 'w, 'y) ws_ops_scheme \<Rightarrow> ('k, 'i) websocket_connection \<Rightarrow> 'w \<Rightarrow>
     bool \<times> ('k, 'i) websocket_connection \<times> 'w" where
  "websocket_may_enqueue_more_ops wo conn w =
     (if send_error conn \<noteq> None then (False, conn, w)
      else case ws_poll_ready wo (wc_socket conn) w of
        (r, k, w) \<Rightarrow> (r \<noteq> Pending, conn\<lparr>wc_socket := k\<rparr>, w))"

definition websocket_enqueue_write_op ::
    "('j, 'z) json_ext_scheme \<Rightarrow> ('k, 'i, 'x, 'w, 'y) ws_ops_scheme \<Rightarrow> client_op \<Rightarrow>
     ('k, 'i) websocket_connection \<Rightarrow> ('k, 'i) websocket_connection option" where
  "websocket_enqueue_write_op e wo item conn =
     (if send_error conn \<noteq> None then Some conn
      else do {
        (payload, enc) \<leftarrow> framed_encode e item (wc_encoder conn);
        let conn = conn\<lparr>wc_encoder := enc\<rparr>;
        (case ws_start_send wo payload (wc_socket conn) of
           (r, k) \<Rightarrow>
             let conn = conn\<lparr>wc_socket := k,
               send_error := (case r of Inl err \<Rightarrow> Some (websockets_error_to_io wo err)
                                      | Inr _ \<Rightarrow> send_error conn)\<rparr> in
             Some (conn\<lparr>wc_should_flush := True\<rparr>)) })"

definition websocket_poll_flush ::
    "('k, 'i, 'x, 'w, 'y) ws_ops_scheme \<Rightarrow> ('k, 'i) websocket_connection \<Rightarrow> 'w \<Rightarrow>
     ('i io_error + unit) poll \<times> ('k, 'i) websocket_connection \<times> 'w" where
  "websocket_poll_flush wo conn w =
     (case send_error conn of
        Some err \<Rightarrow> (Ready (Err err), conn\<lparr>send_error := None\<rparr>, w)
      | None \<Rightarrow>
          (case ws_poll_flush wo (wc_socket conn) w of
             (r, k, w) \<Rightarrow> (map_poll (map_err (websockets_error_to_io wo)) r, conn\<lparr>wc_socket := k\<rparr>, w)))"

definition websocket_poll_shutdown ::
    "('k, 'i, 'x, 'w, 'y) ws_ops_scheme \<Rightarrow> ('k, 'i) websocket_connection \<Rightarrow> 'w \<Rightarrow>
     ('i io_error + unit) poll \<times> ('k, 'i) websocket_connection \<times> 'w" where
  "websocket_poll_shutdown wo conn w =
     (case ws_poll_close wo (wc_socket conn) w of
        (r, k, w) \<Rightarrow> (map_poll (map_err (websockets_error_to_io wo)) r, conn\<lparr>wc_socket := k\<rparr>, w))"

section \<open>Frames\<close>

text \<open>Whole operations in a frame are read one by one.\<close>

lemma decode_frame_extend:
  assumes e: "ext_ok e" and "decode_frame e False f = Some (Ok op, r)"
  shows "decode_frame e False (f @ s) = Some (Ok op, r @ s)"
proof -
  from assms(2) obtain st where "decode e False (ControlLine 0) f = Some (Ok (Some op), st, r)"
    by (auto simp: decode_frame_def elim!: bind_SomeE split: sum.splits option.splits)
  from decode_extend [OF e this] show ?thesis by (simp add: decode_frame_def)
qed

text \<open>Reading the operations of a frame: \<open>n\<close> reads.\<close>

fun websocket_reads ::
    "('j, 'z) json_ext_scheme \<Rightarrow> ('k, 'i, 'x, 'w, 'y) ws_ops_scheme \<Rightarrow> nat \<Rightarrow>
     ('k, 'i) websocket_connection \<Rightarrow> 'w \<Rightarrow>
     ((('j, 'i) websocket_read_error + server_op) poll list \<times> ('k, 'i) websocket_connection \<times> 'w) option" where
  "websocket_reads e wo 0 conn w = Some ([], conn, w)"
| "websocket_reads e wo (Suc n) conn w = do {
     (r, conn, w) \<leftarrow> websocket_poll_read_next e False wo conn w;
     (rs, conn, w) \<leftarrow> websocket_reads e wo n conn w;
     Some (r # rs, conn, w) }"

lemma websocket_reads_frame:
  assumes e: "ext_ok e" and "list_all2 (\<lambda>f op. f \<noteq> [] \<and> decode_frame e False f = Some (Ok op, [])) fs ops"
    and "send_error conn = None" and "residual_frame conn = concat fs"
  shows "websocket_reads e wo (length ops) conn w =
    Some (map (\<lambda>op. Ready (Ok op)) ops, conn\<lparr>residual_frame := []\<rparr>, w)"
  using assms(2-)
proof (induction fs ops arbitrary: conn rule: list_all2_induct)
  case Nil
  then show ?case by simp
next
  case (Cons f fs op ops)
  with decode_frame_extend [OF e, of f op "[]" "concat fs"]
  have "websocket_poll_read_next e False wo conn w = Some (Ready (Ok op), conn\<lparr>residual_frame := concat fs\<rparr>, w)"
    by (simp add: websocket_poll_read_next_def websocket_read_loop.simps [of e False wo conn])
  with Cons show ?case by simp
qed

section \<open>Errors of the sink\<close>

text \<open>A failed \<open>start_send\<close> is reported by the next read or flush, once; until then nothing is given to the
  sink and nothing more is accepted.\<close>

lemma websocket_send_error:
  assumes "send_error conn = None" and "ws_start_send wo (client_op_text e op) (wc_socket conn) = (Err x, k)"
    and "wc_encoder conn = []"
  defines "conn' \<equiv> conn\<lparr>wc_socket := k, send_error := Some (websockets_error_to_io wo x), wc_should_flush := True\<rparr>"
  shows "websocket_enqueue_write_op e wo op conn = Some conn'"
    and "websocket_enqueue_write_op e wo op' conn' = Some conn'"
    and "websocket_may_enqueue_more_ops wo conn' w = (False, conn', w)"
    and "websocket_poll_read_next e dbg wo conn' w =
      Some (Ready (Err (Websocket_Io (websockets_error_to_io wo x))), conn'\<lparr>send_error := None\<rparr>, w)"
    and "websocket_poll_flush wo conn' w =
      (Ready (Err (websockets_error_to_io wo x)), conn'\<lparr>send_error := None\<rparr>, w)"
  using assms
  by (simp_all add: websocket_enqueue_write_op_def framed_encode_eq websocket_may_enqueue_more_ops_def
      websocket_poll_read_next_def websocket_poll_flush_def)

lemma websocket_enqueue_frame:
  assumes "send_error conn = None" and "wc_encoder conn = []"
    and "ws_start_send wo (client_op_text e op) (wc_socket conn) = (Ok (), k)"
  shows "websocket_enqueue_write_op e wo op conn = Some (conn\<lparr>wc_socket := k, wc_should_flush := True\<rparr>)"
  using assms by (simp add: websocket_enqueue_write_op_def framed_encode_eq)

text \<open>\<open>should_flush\<close> is never lowered: not by a successful flush, nor by anything else.\<close>

inductive websocket_step ::
    "('j, 'z) json_ext_scheme \<Rightarrow> bool \<Rightarrow> ('k, 'i, 'x, 'w, 'y) ws_ops_scheme \<Rightarrow>
     ('k, 'i) websocket_connection \<Rightarrow> ('k, 'i) websocket_connection \<Rightarrow> bool"
  for e :: "('j, 'z) json_ext_scheme" and dbg and wo :: "('k, 'i, 'x, 'w, 'y) ws_ops_scheme" where
  read: "websocket_poll_read_next e dbg wo c w = Some (r, c', w') \<Longrightarrow> websocket_step e dbg wo c c'"
| enqueue: "websocket_enqueue_write_op e wo op c = Some c' \<Longrightarrow> websocket_step e dbg wo c c'"
| ready: "websocket_may_enqueue_more_ops wo c w = (b, c', w') \<Longrightarrow> websocket_step e dbg wo c c'"
| flush: "websocket_poll_flush wo c w = (f, c', w') \<Longrightarrow> websocket_step e dbg wo c c'"
| shutdown: "websocket_poll_shutdown wo c w = (s, c', w') \<Longrightarrow> websocket_step e dbg wo c c'"

lemma websocket_read_loop_keeps:
  fixes e :: "('j, 'z) json_ext_scheme" and wo :: "('k, 'i, 'x, 'w, 'y) ws_ops_scheme"
  assumes "websocket_read_loop e dbg wo c w = Some (r, c', w')"
  shows "wc_should_flush c' = wc_should_flush c \<and> send_error c' = send_error c \<and> wc_encoder c' = wc_encoder c"
proof -
  have "(\<lambda>c r. wc_should_flush (fst (snd r)) = wc_should_flush c \<and> send_error (fst (snd r)) = send_error c \<and>
      wc_encoder (fst (snd r)) = wc_encoder c) c (r, c', w')"
    using assms
  proof (rule websocket_read_loop.raw_induct
      [where P = "\<lambda>e dbg wo c w r. wc_should_flush (fst (snd r)) = wc_should_flush c \<and>
        send_error (fst (snd r)) = send_error c \<and> wc_encoder (fst (snd r)) = wc_encoder c", rotated])
    fix rl :: "('j, 'z) json_ext_scheme \<Rightarrow> bool \<Rightarrow> ('k, 'i, 'x, 'w, 'y) ws_ops_scheme \<Rightarrow>
        ('k, 'i) websocket_connection \<Rightarrow> 'w \<Rightarrow>
        ((('j, 'i) websocket_read_error + server_op) poll \<times> ('k, 'i) websocket_connection \<times> 'w) option"
      and e :: "('j, 'z) json_ext_scheme" and dbg and wo :: "('k, 'i, 'x, 'w, 'y) ws_ops_scheme"
      and c w r
    assume IH: "\<And>e dbg wo c w r. rl e dbg wo c w = Some r \<Longrightarrow> wc_should_flush (fst (snd r)) = wc_should_flush c \<and>
        send_error (fst (snd r)) = send_error c \<and> wc_encoder (fst (snd r)) = wc_encoder c"
    show "(if residual_frame c \<noteq> [] then do {
        (r, frame) \<leftarrow> decode_frame e dbg (residual_frame c);
        Some (Ready (map_err Websocket_Decoder r), c\<lparr>residual_frame := frame\<rparr>, w) }
      else (case ws_poll_next wo (wc_socket c) w of
         (Pending, k, w) \<Rightarrow> Some (Pending, c\<lparr>wc_socket := k\<rparr>, w)
       | (Ready None, k, w) \<Rightarrow> Some (Ready (Err Websocket_Closed), c\<lparr>wc_socket := k\<rparr>, w)
       | (Ready (Some (Inl err)), k, w) \<Rightarrow>
           Some (Ready (Err (Websocket_Io (websockets_error_to_io wo err))), c\<lparr>wc_socket := k\<rparr>, w)
       | (Ready (Some (Inr (Ws_Binary payload))), k, w) \<Rightarrow>
           rl e dbg wo (c\<lparr>wc_socket := k, residual_frame := payload\<rparr>) w
       | (Ready (Some (Inr Ws_Not_Binary)), k, w) \<Rightarrow> rl e dbg wo (c\<lparr>wc_socket := k\<rparr>) w)) = Some r \<Longrightarrow>
      wc_should_flush (fst (snd r)) = wc_should_flush c \<and>
        send_error (fst (snd r)) = send_error c \<and> wc_encoder (fst (snd r)) = wc_encoder c"
      by (auto split: if_splits bind_splits prod.splits poll.splits option.splits sum.splits ws_message.splits dest!: IH)
  qed
  then show ?thesis by simp
qed

lemma websocket_should_flush_sticky_lemma:
  "(websocket_step e dbg wo)\<^sup>*\<^sup>* c c' \<Longrightarrow> wc_should_flush c \<Longrightarrow> wc_should_flush c'"
proof (induction rule: rtranclp_induct)
  case (step c1 c2)
  from step(2) step.IH [OF step.prems] show ?case
  proof cases
    case (read w r w')
    with step.IH [OF step.prems] show ?thesis
      by (auto simp: websocket_poll_read_next_def dest: websocket_read_loop_keeps split: option.splits)
  qed (auto simp: websocket_enqueue_write_op_def websocket_may_enqueue_more_ops_def websocket_poll_flush_def
      websocket_poll_shutdown_def Let_def split: if_splits option.splits prod.splits bind_splits)
qed

text \<open>Once an operation has been enqueued, a websocket connection asks to be flushed for ever: no
  operation, a successful flush included, lowers the flag.\<close>

lemma should_flush_sticky:
  assumes "(websocket_step e dbg wo)\<^sup>*\<^sup>* c c'" and "wc_should_flush c"
  shows "wc_should_flush c'"
  by (rule websocket_should_flush_sticky_lemma) (fact assms)+

text \<open>When the websocket refuses a frame, the connection does not panic: it accepts no more operations,
  discards those it is given, and the next read or flush reports the error and forgets it.\<close>

lemma send_error_reported_once:
  assumes "send_error conn = None" and "ws_start_send wo (client_op_text e op) (wc_socket conn) = (Err x, k)"
    and "wc_encoder conn = []"
  shows "\<exists>conn'. websocket_enqueue_write_op e wo op conn = Some conn' \<and>
    websocket_enqueue_write_op e wo op' conn' = Some conn' \<and>
    websocket_may_enqueue_more_ops wo conn' w = (False, conn', w) \<and>
    websocket_poll_read_next e dbg wo conn' w =
      Some (Ready (Err (Websocket_Io (websockets_error_to_io wo x))), conn'\<lparr>send_error := None\<rparr>, w) \<and>
    websocket_poll_flush wo conn' w = (Ready (Err (websockets_error_to_io wo x)), conn'\<lparr>send_error := None\<rparr>, w)"
  using websocket_send_error [OF assms] by blast

section \<open>Properties\<close>

text \<open>C36: A websocket frame that holds several operations is read one operation at a time, in order,
  without touching the socket until the frame is used up.\<close>

theorem frame_of_many:
  assumes "ext_ok e" and "list_all2 (\<lambda>f op. f \<noteq> [] \<and> decode_frame e False f = Some (Ok op, [])) fs ops"
    and "send_error conn = None" and "residual_frame conn = concat fs"
  shows "websocket_reads e wo (length ops) conn w =
    Some (map (\<lambda>op. Ready (Ok op)) ops, conn\<lparr>residual_frame := []\<rparr>, w)"
  by (rule websocket_reads_frame) (fact assms)+

lemma frame_of_many_witness:
  defines "conn \<equiv> \<lparr>wc_socket = (), wc_encoder = [], residual_frame = ''PING'' @ CRLF @ ''PONG'' @ CRLF,
    wc_should_flush = False, send_error = None\<rparr>"
  shows "\<forall>wo w. websocket_reads (ref_json (\<lambda>_. Err ()) (\<lambda>_. ''{}'')) wo 2 conn w =
    Some ([Ready (Ok S_Ping), Ready (Ok S_Pong)], conn\<lparr>residual_frame := []\<rparr>, w)"
proof (intro allI)
  fix wo w
  have "list_all2 (\<lambda>f op. f \<noteq> [] \<and> decode_frame (ref_json (\<lambda>_. Err ()) (\<lambda>_. ''{}'')) False f = Some (Ok op, []))
      [''PING'' @ CRLF, ''PONG'' @ CRLF] [S_Ping, S_Pong]"
    by (simp add: decode_frame_def decode_ControlLine [OF ref_json_ok] decode_control_line_def)
  from frame_of_many [OF ref_json_ok this, of conn wo w] show "websocket_reads (ref_json (\<lambda>_. Err ()) (\<lambda>_. ''{}'')) wo 2 conn w =
    Some ([Ready (Ok S_Ping), Ready (Ok S_Pong)], conn\<lparr>residual_frame := []\<rparr>, w)"
    by (simp add: conn_def numeral_2_eq_2 del: websocket_reads.simps)
qed

end
