(* ===== verification/Connection.thy ===== *)
theory Connection
  imports Websocket
begin

text \<open>
  \<open>watermelon-net/src/connection/mod.rs\<close>: a connection of either kind, and the \<open>CONNECT\<close> handshake. An
  \<open>await\<close> polls until it is ready, the world moving on at each poll; \<open>None\<close> is a panic or an endless wait.
\<close>

datatype ('k, 'l, 'i) connection =
  Streaming "'k streaming_connection" | Websocket "('l, 'i) websocket_connection"

datatype ('j, 'i) connection_read_error =
  Read_Streaming "('j, 'i) streaming_read_error" | Read_Websocket "('j, 'i) websocket_read_error"

text \<open>The libraries a connection rests on.\<close>

record ('j, 'k, 'l, 'i, 'x, 'w) net =
  net_json :: "'j json_ext"
  net_socket :: "('k, 'i, 'w) socket_ops"
  net_ws :: "('l, 'i, 'x, 'w) ws_ops"

definition connection_poll_read_next ::
    "('j, 'k, 'l, 'i, 'x, 'w) net \<Rightarrow> bool \<Rightarrow> ('k, 'l, 'i) connection \<Rightarrow> 'w \<Rightarrow>
     ((('j, 'i) connection_read_error + server_op) poll \<times> ('k, 'l, 'i) connection \<times> 'w) option" where
  "connection_poll_read_next n dbg conn w =
     (case conn of
        Streaming c \<Rightarrow> do {
          (r, c, w) \<leftarrow> streaming_poll_read_next (net_json n) dbg (net_socket n) c w;
          Some (map_poll (map_err Read_Streaming) r, Streaming c, w) }
      | Websocket c \<Rightarrow> do {
          (r, c, w) \<leftarrow> websocket_poll_read_next (net_json n) dbg (net_ws n) c w;
          Some (map_poll (map_err Read_Websocket) r, Websocket c, w) })"

partial_function (option) await ::
    "('c \<Rightarrow> 'w \<Rightarrow> ('r poll \<times> 'c \<times> 'w) option) \<Rightarrow> 'c \<Rightarrow> 'w \<Rightarrow> ('r \<times> 'c \<times> 'w) option" where
  "await poll_fn c w = do {
     (r, c, w) \<leftarrow> poll_fn c w;
     (case r of Pending \<Rightarrow> await poll_fn c w | Ready x \<Rightarrow> Some (x, c, w)) }"

definition connection_read_next ::
    "('j, 'k, 'l, 'i, 'x, 'w) net \<Rightarrow> bool \<Rightarrow> ('k, 'l, 'i) connection \<Rightarrow> 'w \<Rightarrow>
     ((('j, 'i) connection_read_error + server_op) \<times> ('k, 'l, 'i) connection \<times> 'w) option" where
  "connection_read_next n dbg = await (connection_poll_read_next n dbg)"

definition flushes_automatically_when_full :: "('k, 'l, 'i) connection \<Rightarrow> bool" where
  "flushes_automatically_when_full conn = (case conn of Streaming _ \<Rightarrow> True | Websocket _ \<Rightarrow> False)"

definition connection_should_flush :: "('k, 'l, 'i) connection \<Rightarrow> bool" where
  "connection_should_flush conn =
     (case conn of Streaming c \<Rightarrow> sc_may_flush c | Websocket c \<Rightarrow> wc_should_flush c)"

definition connection_may_enqueue_more_ops ::
    "('j, 'k, 'l, 'i, 'x, 'w) net \<Rightarrow> bool \<Rightarrow> ('k, 'l, 'i) connection \<Rightarrow> 'w \<Rightarrow>
     (bool \<times> ('k, 'l, 'i) connection \<times> 'w) option" where
  "connection_may_enqueue_more_ops n dbg conn w =
     (case conn of
        Streaming c \<Rightarrow> map_option (\<lambda>b. (b, conn, w)) (streaming_may_enqueue_more_ops dbg c)
      | Websocket c \<Rightarrow> (case websocket_may_enqueue_more_ops (net_ws n) c w of
          (b, c, w) \<Rightarrow> Some (b, Websocket c, w)))"

definition connection_enqueue_write_op ::
    "('j, 'k, 'l, 'i, 'x, 'w) net \<Rightarrow> bool \<Rightarrow> client_op \<Rightarrow> ('k, 'l, 'i) connection \<Rightarrow>
     ('k, 'l, 'i) connection option" where
  "connection_enqueue_write_op n dbg item conn =
     (case conn of
        Streaming c \<Rightarrow> map_option Streaming (streaming_enqueue_write_op (net_json n) dbg item c)
      | Websocket c \<Rightarrow> map_option Websocket (websocket_enqueue_write_op (net_json n) (net_ws n) item c))"

definition connection_poll_flush ::
    "('j, 'k, 'l, 'i, 'x, 'w) net \<Rightarrow> ('k, 'l, 'i) connection \<Rightarrow> 'w \<Rightarrow>
     (('i io_error + unit) poll \<times> ('k, 'l, 'i) connection \<times> 'w) option" where
  "connection_poll_flush n conn w = Some
     (case conn of
        Streaming c \<Rightarrow> (case streaming_poll_flush (net_socket n) c w of (r, c, w) \<Rightarrow> (r, Streaming c, w))
      | Websocket c \<Rightarrow> (case websocket_poll_flush (net_ws n) c w of (r, c, w) \<Rightarrow> (r, Websocket c, w)))"

definition connection_poll_shutdown ::
    "('j, 'k, 'l, 'i, 'x, 'w) net \<Rightarrow> ('k, 'l, 'i) connection \<Rightarrow> 'w \<Rightarrow>
     (('i io_error + unit) poll \<times> ('k, 'l, 'i) connection \<times> 'w) option" where
  "connection_poll_shutdown n conn w = Some
     (case conn of
        Streaming c \<Rightarrow> (case streaming_poll_shutdown (net_socket n) c w of (r, c, w) \<Rightarrow> (r, Streaming c, w))
      | Websocket c \<Rightarrow> (case websocket_poll_shutdown (net_ws n) c w of (r, c, w) \<Rightarrow> (r, Websocket c, w)))"

partial_function (option) write_all ::
    "bool \<Rightarrow> ('k, 'i, 'w) socket_ops \<Rightarrow> 'k streaming_connection \<Rightarrow> 'w \<Rightarrow>
     (('i io_error + unit) \<times> 'k streaming_connection \<times> 'w) option" where
  "write_all dbg so c w = do {
     may \<leftarrow> streaming_may_write dbg c;
     if \<not> may then Some (Ok (), c, w)
     else do {
       (r, c, w) \<leftarrow> await (streaming_poll_write_next dbg so) c w;
       (case r of Inl err \<Rightarrow> Some (Err err, c, w) | Inr _ \<Rightarrow> write_all dbg so c w) } }"

definition write_and_flush ::
    "('j, 'k, 'l, 'i, 'x, 'w) net \<Rightarrow> bool \<Rightarrow> ('k, 'l, 'i) connection \<Rightarrow> 'w \<Rightarrow>
     (('i io_error + unit) \<times> ('k, 'l, 'i) connection \<times> 'w) option" where
  "write_and_flush n dbg conn w = do {
     (r, conn, w) \<leftarrow> (case conn of
        Streaming c \<Rightarrow> do { (r, c, w) \<leftarrow> write_all dbg (net_socket n) c w; Some (r, Streaming c, w) }
      | Websocket c \<Rightarrow> Some (Ok (), Websocket c, w));
     (case r of
        Inl err \<Rightarrow> Some (Err err, conn, w)
      | Inr _ \<Rightarrow> await (connection_poll_flush n) conn w) }"

section \<open>The handshake\<close>

datatype ('j, 'i) connect_error =
    Connect_Proto "'j decoder_error"
  | Connect_ServerError server_error
  | Connect_Io "'i io_error"
  | Connect_UnexpectedOp

fun connect_read_error :: "('j, 'i) connection_read_error \<Rightarrow> ('j, 'i) connect_error" where
  "connect_read_error (Read_Streaming (Streaming_Decoder err)) = Connect_Proto err"
| "connect_read_error (Read_Streaming (Streaming_Io err)) = Connect_Io err"
| "connect_read_error (Read_Websocket (Websocket_Decoder (FrameDecoder err))) = Connect_Proto err"
| "connect_read_error (Read_Websocket (Websocket_Decoder IncompleteFrame)) = Connect_Io InvalidData"
| "connect_read_error (Read_Websocket (Websocket_Io err)) = Connect_Io err"
| "connect_read_error (Read_Websocket Websocket_Closed) = Connect_Io UnexpectedEof"

partial_function (option) connect_loop ::
    "('j, 'k, 'l, 'i, 'x, 'w) net \<Rightarrow> bool \<Rightarrow> ('k, 'l, 'i) connection \<Rightarrow> 'w \<Rightarrow>
     ((('j, 'i) connect_error + unit) \<times> ('k, 'l, 'i) connection \<times> 'w) option" where
  "connect_loop n dbg conn w = do {
     (r, conn, w) \<leftarrow> connection_read_next n dbg conn w;
     (case r of
        Inr S_Success \<Rightarrow> connect_loop n dbg conn w
      | Inr S_Pong \<Rightarrow> Some (Ok (), conn, w)
      | Inr S_Ping \<Rightarrow> do {
          conn \<leftarrow> connection_enqueue_write_op n dbg C_Pong conn;
          connect_loop n dbg conn w }
      | Inr (S_Error error) \<Rightarrow> Some (Err (Connect_ServerError error), conn, w)
      | Inr (S_Info _) \<Rightarrow> Some (Err Connect_UnexpectedOp, conn, w)
      | Inr (S_Message _) \<Rightarrow> Some (Err Connect_UnexpectedOp, conn, w)
      | Inl err \<Rightarrow> Some (Err (connect_read_error err), conn, w)) }"

text \<open>\<open>after_connect\<close> acts on the connection once the \<open>CONNECT\<close> has been written, and may panic.\<close>

definition proto_connect ::
    "('j, 'k, 'l, 'i, 'x, 'w) net \<Rightarrow> bool \<Rightarrow> (('k, 'l, 'i) connection \<Rightarrow> ('k, 'l, 'i) connection option) \<Rightarrow>
     connect \<Rightarrow> ('k, 'l, 'i) connection \<Rightarrow> 'w \<Rightarrow>
     ((('j, 'i) connect_error + unit) \<times> ('k, 'l, 'i) connection \<times> 'w) option" where
  "proto_connect n dbg after_connect connect conn w = do {
     conn \<leftarrow> connection_enqueue_write_op n dbg (C_Connect connect) conn;
     (r, conn, w) \<leftarrow> write_and_flush n dbg conn w;
     (case r of
        Inl err \<Rightarrow> Some (Err (Connect_Io err), conn, w)
      | Inr _ \<Rightarrow> do {
          conn \<leftarrow> after_connect conn;
          conn \<leftarrow> connection_enqueue_write_op n dbg C_Ping conn;
          (r, conn, w) \<leftarrow> write_and_flush n dbg conn w;
          (case r of
             Inl err \<Rightarrow> Some (Err (Connect_Io err), conn, w)
           | Inr _ \<Rightarrow> connect_loop n dbg conn w) }) }"

section \<open>Waiting and writing\<close>

text \<open>The last poll of an \<open>await\<close>, and what every poll keeps of the state and the world.\<close>

lemma await_last_world:
  assumes step: "\<And>c w r c' w'. P c w \<Longrightarrow> f c w = Some (r, c', w') \<Longrightarrow> P c' w'"
    and "await f c w = Some (x, c', w')" and "P c w"
  shows "\<exists>c1 w1. P c1 w1 \<and> f c1 w1 = Some (Ready x, c', w') \<and> P c' w'"
proof -
  have "f = f \<longrightarrow> P c w \<longrightarrow> (\<exists>c1 w1. P c1 w1 \<and> f c1 w1 = Some (Ready (fst (x, c', w')), snd (x, c', w')))"
    using assms(2)
  proof (rule await.raw_induct [where P = "\<lambda>g c w r. g = f \<longrightarrow> P c w \<longrightarrow>
      (\<exists>c1 w1. P c1 w1 \<and> f c1 w1 = Some (Ready (fst r), snd r))", rotated], intro impI)
    fix aw g c w r
    assume IH: "\<And>g c w r. aw g c w = Some r \<Longrightarrow> g = f \<longrightarrow> P c w \<longrightarrow>
        (\<exists>c1 w1. P c1 w1 \<and> f c1 w1 = Some (Ready (fst r), snd r))"
      and g: "g = f" and c: "P c w"
      and body: "do { (r, c, w) \<leftarrow> g c w; case r of Pending \<Rightarrow> aw g c w | Ready x \<Rightarrow> Some (x, c, w) } = Some r"
    obtain q c2 w2 where q: "f c w = Some (q, c2, w2)" using body g by (auto split: bind_splits)
    show "\<exists>c1 w1. P c1 w1 \<and> f c1 w1 = Some (Ready (fst r), snd r)"
    proof (cases q)
      case Pending
      with q body g have "aw f c2 w2 = Some r" by simp
      with IH [of f c2 w2 r] step [OF c q] show ?thesis by simp
    next
      case (Ready y)
      with q body g have "r = (y, c2, w2)" by simp
      with q Ready c show ?thesis by auto
    qed
  qed
  with assms(3) obtain c1 w1 where "P c1 w1" "f c1 w1 = Some (Ready x, c', w')" by auto
  with step show ?thesis by blast
qed

lemma await_last:
  assumes "\<And>c w r c' w'. P c \<Longrightarrow> f c w = Some (r, c', w') \<Longrightarrow> P c'"
    and "await f c w = Some (x, c', w')" and "P c"
  shows "\<exists>c1 w1. P c1 \<and> f c1 w1 = Some (Ready x, c', w') \<and> P c'"
  by (rule await_last_world [of "\<lambda>c _. P c", OF _ assms(2,3)]) (fact assms(1))

text \<open>What writing keeps: the encoder is well formed, and every byte enqueued is sent or still held.\<close>

definition keeps_bytes ::
    "('k \<Rightarrow> bytes) \<Rightarrow> 'k streaming_connection \<Rightarrow> 'k streaming_connection \<Rightarrow> bool" where
  "keeps_bytes sent c c' \<longleftrightarrow> stream_inv (sc_encoder c') \<and> sc_decoder c' = sc_decoder c \<and>
     enqueued sent c' = enqueued sent c"

context byte_sink
begin

lemma keeps_bytes_write:
  "keeps_bytes sent c0 c \<Longrightarrow> streaming_poll_write_next dbg so c w = Some (r, c', w') \<Longrightarrow> keeps_bytes sent c0 c'"
  using poll_write_next_keeps [of c dbg w] by (auto simp: keeps_bytes_def)

lemma keeps_bytes_flush:
  "keeps_bytes sent c0 c \<Longrightarrow> streaming_poll_flush so c w = (r, c', w') \<Longrightarrow> keeps_bytes sent c0 c'"
  using poll_flush_keeps [of c w r c' w'] by (auto simp: keeps_bytes_def)

end

lemma write_all_keeps:
  fixes so :: "('k, 'i, 'w) socket_ops"
  assumes sink: "byte_sink so sent" and "write_all dbg so c w = Some (r, c', w')" and "keeps_bytes sent c0 c"
  shows "keeps_bytes sent c0 c' \<and> (r = Ok () \<longrightarrow> stream_contents (sc_encoder c') = [])"
proof -
  have "so = so \<longrightarrow> keeps_bytes sent c0 c \<longrightarrow> keeps_bytes sent c0 (fst (snd (r, c', w'))) \<and>
      (fst (r, c', w') = Ok () \<longrightarrow> stream_contents (sc_encoder (fst (snd (r, c', w')))) = [])"
    using assms(2)
  proof (rule write_all.raw_induct [where P = "\<lambda>dbg so' c w r. so' = so \<longrightarrow> keeps_bytes sent c0 c \<longrightarrow>
      keeps_bytes sent c0 (fst (snd r)) \<and> (fst r = Ok () \<longrightarrow> stream_contents (sc_encoder (fst (snd r))) = [])",
      rotated], intro impI)
    fix wa dbg so' c w r
    assume IH: "\<And>dbg so' c w r. wa dbg so' c w = Some r \<Longrightarrow> so' = so \<longrightarrow> keeps_bytes sent c0 c \<longrightarrow>
        keeps_bytes sent c0 (fst (snd r)) \<and> (fst r = Ok () \<longrightarrow> stream_contents (sc_encoder (fst (snd r))) = [])"
      and so: "so' = so" and c: "keeps_bytes sent c0 c"
      and body: "do {
        may \<leftarrow> streaming_may_write dbg c;
        if \<not> may then Some (Ok (), c, w)
        else do {
          (r, c, w) \<leftarrow> await (streaming_poll_write_next dbg so') c w;
          case r of Inl err \<Rightarrow> Some (Err err, c, w) | Inr _ \<Rightarrow> wa dbg so' c w } } = Some r"
    from c have inv: "stream_inv (sc_encoder c)" by (simp add: keeps_bytes_def)
    show "keeps_bytes sent c0 (fst (snd r)) \<and> (fst r = Ok () \<longrightarrow> stream_contents (sc_encoder (fst (snd r))) = [])"
    proof (cases "stream_contents (sc_encoder c) = []")
      case True
      with body c inv show ?thesis by (auto simp: streaming_may_write_eq)
    next
      case False
      with body so inv obtain q c1 w1 where q: "await (streaming_poll_write_next dbg so) c w = Some (q, c1, w1)"
          "(case q of Inl err \<Rightarrow> Some (Err err, c1, w1) | Inr _ \<Rightarrow> wa dbg so c1 w1) = Some r"
        by (auto simp: streaming_may_write_eq split: bind_splits)
      have "\<exists>ca wa. keeps_bytes sent c0 ca \<and> streaming_poll_write_next dbg so ca wa = Some (Ready q, c1, w1) \<and>
          keeps_bytes sent c0 c1"
        by (rule await_last [of "keeps_bytes sent c0"]) (fact byte_sink.keeps_bytes_write [OF sink] q(1) c)+
      then have "keeps_bytes sent c0 c1" by blast
      with q(2) IH [of dbg so c1 w1 r] show ?thesis by (auto split: sum.splits)
    qed
  qed
  with assms(3) show ?thesis by simp
qed

lemma write_and_flush_keeps:
  assumes sink: "byte_sink (net_socket n) sent" and c: "stream_inv (sc_encoder c)"
    and "write_and_flush n dbg (Streaming c) w = Some (Ok (), conn', w')"
  shows "\<exists>c'. conn' = Streaming c' \<and> stream_inv (sc_encoder c') \<and> sc_decoder c' = sc_decoder c \<and>
    stream_contents (sc_encoder c') = [] \<and> sent (sc_socket c') = enqueued sent c"
proof -
  from assms(3) obtain c1 w1 where wa: "write_all dbg (net_socket n) c w = Some (Ok (), c1, w1)"
      and fl: "await (connection_poll_flush n) (Streaming c1) w1 = Some (Ok (), conn', w')"
    by (auto simp: write_and_flush_def split: bind_splits sum.splits)
  let ?P = "\<lambda>conn. \<exists>c'. conn = Streaming c' \<and> keeps_bytes sent c c' \<and> stream_contents (sc_encoder c') = []"
  have "?P (Streaming c1)"
    using write_all_keeps [OF sink wa, of c] c by (simp add: keeps_bytes_def)
  moreover have "?P conn2" if P: "?P conn1" and fl1: "connection_poll_flush n conn1 w1 = Some (r, conn2, w2)" for conn1 w1 r conn2 w2
  proof -
    obtain c1 where c1: "conn1 = Streaming c1" "keeps_bytes sent c c1" "stream_contents (sc_encoder c1) = []"
      using P by blast
    obtain q c2 w2' where q: "streaming_poll_flush (net_socket n) c1 w1 = (q, c2, w2')"
      by (cases "streaming_poll_flush (net_socket n) c1 w1")
    with fl1 c1(1) have "conn2 = Streaming c2" by (simp add: connection_poll_flush_def)
    moreover have "sc_encoder c2 = sc_encoder c1" using byte_sink.poll_flush_keeps [OF sink q] by blast
    ultimately show ?thesis using byte_sink.keeps_bytes_flush [OF sink c1(2) q] c1(3) by simp
  qed
  ultimately have "\<exists>ca wa. ?P ca \<and> connection_poll_flush n ca wa = Some (Ready (Ok ()), conn', w') \<and> ?P conn'"
    by (intro await_last [OF _ fl])
  then show ?thesis by (auto simp: keeps_bytes_def enqueued_def)
qed

section \<open>The outcome of the handshake\<close>

text \<open>The operations read during the handshake: successes and pings, each ping answered, and the last read.\<close>

inductive handshake ::
    "('j, 'k, 'l, 'i, 'x, 'w) net \<Rightarrow> bool \<Rightarrow> ('k, 'l, 'i) connection \<Rightarrow> 'w \<Rightarrow> server_op list \<Rightarrow>
     (('j, 'i) connection_read_error + server_op) \<Rightarrow> ('k, 'l, 'i) connection \<Rightarrow> 'w \<Rightarrow> bool"
  for n :: "('j, 'k, 'l, 'i, 'x, 'w) net" and dbg where
  last: "connection_read_next n dbg c w = Some (r, c', w') \<Longrightarrow> r \<noteq> Ok S_Success \<Longrightarrow> r \<noteq> Ok S_Ping \<Longrightarrow>
    handshake n dbg c w [] r c' w'"
| success: "connection_read_next n dbg c w = Some (Ok S_Success, c1, w1) \<Longrightarrow>
    handshake n dbg c1 w1 ops r c' w' \<Longrightarrow> handshake n dbg c w (S_Success # ops) r c' w'"
| ping: "connection_read_next n dbg c w = Some (Ok S_Ping, c1, w1) \<Longrightarrow>
    connection_enqueue_write_op n dbg C_Pong c1 = Some c2 \<Longrightarrow>
    handshake n dbg c2 w1 ops r c' w' \<Longrightarrow> handshake n dbg c w (S_Ping # ops) r c' w'"

fun handshake_verdict :: "(('j, 'i) connection_read_error + server_op) \<Rightarrow> ('j, 'i) connect_error + unit" where
  "handshake_verdict (Inr S_Pong) = Ok ()"
| "handshake_verdict (Inr (S_Error x)) = Err (Connect_ServerError x)"
| "handshake_verdict (Inr _) = Err Connect_UnexpectedOp"
| "handshake_verdict (Inl x) = Err (connect_read_error x)"

lemma connect_loop_handshake:
  fixes n :: "('j, 'k, 'l, 'i, 'x, 'w) net"
  assumes "connect_loop n dbg c w = Some (x, c', w')"
  shows "\<exists>ops r. handshake n dbg c w ops r c' w' \<and> x = handshake_verdict r"
proof -
  have "\<exists>ops r. handshake n dbg c w ops r (fst (snd (x, c', w'))) (snd (snd (x, c', w'))) \<and> fst (x, c', w') = handshake_verdict r"
    using assms
  proof (rule connect_loop.raw_induct [where P = "\<lambda>n dbg c w y. \<exists>ops r. handshake n dbg c w ops r (fst (snd y)) (snd (snd y)) \<and>
      fst y = handshake_verdict r", rotated])
    fix cl :: "('j, 'k, 'l, 'i, 'x, 'w) net \<Rightarrow> bool \<Rightarrow> ('k, 'l, 'i) connection \<Rightarrow> 'w \<Rightarrow>
        ((('j, 'i) connect_error + unit) \<times> ('k, 'l, 'i) connection \<times> 'w) option"
      and n :: "('j, 'k, 'l, 'i, 'x, 'w) net" and dbg c w y
    assume IH: "\<And>n dbg c w y. cl n dbg c w = Some y \<Longrightarrow> \<exists>ops r. handshake n dbg c w ops r (fst (snd y)) (snd (snd y)) \<and>
        fst y = handshake_verdict r"
      and body: "do {
        (r, conn, w) \<leftarrow> connection_read_next n dbg c w;
        case r of Inl err \<Rightarrow> Some (Err (connect_read_error err), conn, w)
        | Inr (S_Info _) \<Rightarrow> Some (Err Connect_UnexpectedOp, conn, w)
        | Inr (S_Message _) \<Rightarrow> Some (Err Connect_UnexpectedOp, conn, w)
        | Inr S_Success \<Rightarrow> cl n dbg conn w
        | Inr (S_Error error) \<Rightarrow> Some (Err (Connect_ServerError error), conn, w)
        | Inr S_Ping \<Rightarrow> do { conn \<leftarrow> connection_enqueue_write_op n dbg C_Pong conn; cl n dbg conn w }
        | Inr S_Pong \<Rightarrow> Some (Ok (), conn, w) } = Some y"
    from body obtain r c1 w1 where rd: "connection_read_next n dbg c w = Some (r, c1, w1)" by (auto split: bind_splits)
    consider "r = Ok S_Success" | "r = Ok S_Ping" | "r \<noteq> Ok S_Success" "r \<noteq> Ok S_Ping" by blast
    then show "\<exists>ops r. handshake n dbg c w ops r (fst (snd y)) (snd (snd y)) \<and> fst y = handshake_verdict r"
    proof cases
      case 1
      with body rd IH [of n dbg c1 w1 y] show ?thesis by (auto intro: handshake.success)
    next
      case 2
      with body rd obtain c2 where c2: "connection_enqueue_write_op n dbg C_Pong c1 = Some c2" "cl n dbg c2 w1 = Some y"
        by (auto split: bind_splits)
      with IH [of n dbg c2 w1 y] rd 2 show ?thesis by (auto intro: handshake.ping)
    next
      case 3
      with body rd have "fst y = handshake_verdict r \<and> snd y = (c1, w1)"
        by (auto split: sum.splits server_op.splits)
      with handshake.last [OF rd 3] show ?thesis by (intro exI [of _ "[]"] exI [of _ r]) auto
    qed
  qed
  then show ?thesis by simp
qed

section \<open>What the handshake sends\<close>

text \<open>A read leaves the encoder and what was sent alone.\<close>

definition reader ::
    "('j, 'k, 'l, 'i, 'x, 'w) net \<Rightarrow> ('k \<Rightarrow> bytes) \<Rightarrow> bytes \<Rightarrow> bytes \<Rightarrow> ('k, 'l, 'i) connection \<Rightarrow> bool" where
  "reader n sent s held conn \<longleftrightarrow> (\<exists>c. conn = Streaming c \<and> stream_inv (sc_encoder c) \<and>
     decoder_inv (net_json n) (sc_decoder c) \<and> sent (sc_socket c) = s \<and> stream_contents (sc_encoder c) = held)"

lemma reader_poll:
  assumes sink: "byte_sink (net_socket n) sent" and e: "ext_ok (net_json n)"
    and "reader n sent s held conn" and poll: "connection_poll_read_next n False conn w = Some (r, conn', w')"
  shows "reader n sent s held conn'"
proof -
  from assms(3) obtain c where c: "conn = Streaming c" "stream_inv (sc_encoder c)"
      "decoder_inv (net_json n) (sc_decoder c)" "sent (sc_socket c) = s" "stream_contents (sc_encoder c) = held"
    by (auto simp: reader_def)
  from streaming_read_explained [OF e c(3), of "net_socket n" w] obtain q c' w1 cs where
      q: "streaming_poll_read_next (net_json n) False (net_socket n) c w = Some (q, c', w1)"
        "decoder_inv (net_json n) (sc_decoder c')" "sc_encoder c' = sc_encoder c"
        "read_explained (net_json n) (net_socket n) c w (q, c', w1) cs" by blast
  with poll c(1) have "conn' = Streaming c'" by (simp add: connection_poll_read_next_def)
  moreover have "enqueued sent c' = enqueued sent c"
    by (rule byte_sink.poll_read_next_keeps [OF sink q(4) q(3)])
  ultimately show ?thesis using q c by (simp add: reader_def enqueued_def)
qed

lemma reader_read_next:
  assumes sink: "byte_sink (net_socket n) sent" and e: "ext_ok (net_json n)"
    and c: "reader n sent s held conn" and rd: "connection_read_next n False conn w = Some (r, conn', w')"
  shows "reader n sent s held conn'"
proof -
  have "\<exists>c1 w1. reader n sent s held c1 \<and> connection_poll_read_next n False c1 w1 = Some (Ready r, conn', w') \<and>
      reader n sent s held conn'"
    by (rule await_last [of "reader n sent s held"])
       (fact reader_poll [OF sink e] rd [unfolded connection_read_next_def] c)+
  then show ?thesis by blast
qed

lemma reader_enqueue:
  assumes "reader n sent s held conn" and "connection_enqueue_write_op n dbg op conn = Some conn'"
  shows "reader n sent s (held @ client_op_text (net_json n) op) conn'"
proof -
  from assms(1) obtain c where c: "conn = Streaming c" "stream_inv (sc_encoder c)"
      "decoder_inv (net_json n) (sc_decoder c)" "sent (sc_socket c) = s" "stream_contents (sc_encoder c) = held"
    by (auto simp: reader_def)
  with streaming_enqueue_appends [OF c(2), of "net_json n" dbg op] assms(2) show ?thesis
    by (auto simp: reader_def connection_enqueue_write_op_def)
qed

lemma reader_write_and_flush:
  assumes "byte_sink (net_socket n) sent" and "reader n sent s held conn"
    and "write_and_flush n dbg conn w = Some (Ok (), conn', w')"
  shows "reader n sent (s @ held) [] conn'"
proof -
  from assms(2) obtain c where c: "conn = Streaming c" "stream_inv (sc_encoder c)"
      "decoder_inv (net_json n) (sc_decoder c)" "sent (sc_socket c) = s" "stream_contents (sc_encoder c) = held"
    by (auto simp: reader_def)
  with write_and_flush_keeps [OF assms(1) c(2), of dbg w conn' w'] assms(3) show ?thesis
    by (auto simp: reader_def enqueued_def)
qed

lemma handshake_pongs:
  assumes sink: "byte_sink (net_socket n) sent" and e: "ext_ok (net_json n)"
    and "handshake n False conn w ops r conn' w'" and "reader n sent s held conn"
  shows "reader n sent s (held @ concat (replicate (count_list ops S_Ping) (client_op_text (net_json n) C_Pong))) conn' \<and>
    set ops \<subseteq> {S_Success, S_Ping}"
  using assms(3,4)
proof (induction arbitrary: held rule: handshake.induct)
  case (last c w r c' w')
  then show ?case using reader_read_next [OF sink e] by simp
next
  case (success c w c1 w1 ops r c' w')
  then show ?case using reader_read_next [OF sink e] by fastforce
next
  case (ping c w c1 w1 c2 ops r c' w')
  from reader_read_next [OF sink e ping.prems ping.hyps(1)] have "reader n sent s held c1" .
  from ping.IH [OF reader_enqueue [OF this ping.hyps(2)]] show ?case by simp
qed

lemma proto_connect_sends:
  assumes sink: "byte_sink (net_socket n) sent" and e: "ext_ok (net_json n)"
    and start: "reader n sent s [] conn"
    and after: "\<And>c c'. reader n sent (s @ client_op_text (net_json n) (C_Connect cn)) [] c \<Longrightarrow> after c = Some c' \<Longrightarrow>
      reader n sent (s @ client_op_text (net_json n) (C_Connect cn)) [] c'"
    and run: "proto_connect n False after cn conn w = Some (Ok (), conn', w')"
  shows "\<exists>ops conn1 w1. handshake n False conn1 w1 ops (Ok S_Pong) conn' w' \<and> set ops \<subseteq> {S_Success, S_Ping} \<and>
    reader n sent (s @ client_op_text (net_json n) (C_Connect cn) @ client_op_text (net_json n) C_Ping)
      (concat (replicate (count_list ops S_Ping) (client_op_text (net_json n) C_Pong))) conn'"
proof -
  let ?cn = "client_op_text (net_json n) (C_Connect cn)" and ?pi = "client_op_text (net_json n) C_Ping"
  from run obtain c1 c2 w2 ca c3 c4 w4 where 1: "connection_enqueue_write_op n False (C_Connect cn) conn = Some c1"
    and 2: "write_and_flush n False c1 w = Some (Ok (), c2, w2)"
    and a: "after c2 = Some ca" and 3: "connection_enqueue_write_op n False C_Ping ca = Some c3"
    and 4: "write_and_flush n False c3 w2 = Some (Ok (), c4, w4)"
    and 5: "connect_loop n False c4 w4 = Some (Ok (), conn', w')"
    by (auto simp: proto_connect_def split: bind_splits sum.splits)
  from reader_enqueue [OF start 1] have "reader n sent s ?cn c1" by simp
  from after [OF reader_write_and_flush [OF sink this 2] a] have "reader n sent (s @ ?cn) [] ca" .
  from reader_enqueue [OF this 3] have "reader n sent (s @ ?cn) ?pi c3" by simp
  from reader_write_and_flush [OF sink this 4] have r4: "reader n sent (s @ ?cn @ ?pi) [] c4" by simp
  from connect_loop_handshake [OF 5] obtain ops r where h: "handshake n False c4 w4 ops r conn' w'"
      "Ok () = handshake_verdict r" by blast
  have "r = Ok S_Pong" using h(2) by (cases r rule: handshake_verdict.cases) auto
  with h handshake_pongs [OF sink e h(1) r4] show ?thesis by auto
qed

end
