(* ===== verification/Sockets.thy ===== *)
theory Sockets
  imports Streaming
begin

text \<open>
  The sockets of \<open>watermelon-mini\<close>: \<open>proto/connection/security.rs\<close>, \<open>proto/connection/compression.rs\<close>,
  \<open>util.rs\<close> and \<open>non_standard_zstd.rs\<close>. A plain socket and a TLS stream are parameters; so are the codecs
  of \<open>async_compression\<close>, which reach the socket only through the operations of the \<open>MaybeConnection\<close>
  they are given. \<open>None\<close> is a panic. The last section is a socket in memory, on which the contract of
  \<open>Streaming\<close> is interpreted.
\<close>

section \<open>\<open>ConnectionSecurity\<close>\<close>

datatype ('s, 't) connection_security = Sec_Plain 's | Sec_Tls 't

text \<open>\<open>upgrade_tls\<close>: the TLS handshake is the parameter; a second upgrade is \<open>unreachable!\<close>.\<close>

definition upgrade_tls ::
    "('h \<Rightarrow> 's \<Rightarrow> 'w \<Rightarrow> ('i io_error + 't) \<times> 'w) \<Rightarrow> 'h \<Rightarrow> ('s, 't) connection_security \<Rightarrow> 'w \<Rightarrow>
     (('i io_error + ('s, 't) connection_security) \<times> 'w) option" where
  "upgrade_tls tls_connect dns_name c w =
     (case c of
        Sec_Plain conn \<Rightarrow> (case tls_connect dns_name conn w of (r, w) \<Rightarrow> Some (map_ok Sec_Tls r, w))
      | Sec_Tls _ \<Rightarrow> None)"

text \<open>An operation that is passed on to the stream inside.\<close>

definition on_security ::
    "('s \<Rightarrow> 'w \<Rightarrow> 'r \<times> 's \<times> 'w) \<Rightarrow> ('t \<Rightarrow> 'w \<Rightarrow> 'r \<times> 't \<times> 'w) \<Rightarrow> ('s, 't) connection_security \<Rightarrow> 'w \<Rightarrow>
     'r \<times> ('s, 't) connection_security \<times> 'w" where
  "on_security f g c w =
     (case c of
        Sec_Plain conn \<Rightarrow> (case f conn w of (r, conn, w) \<Rightarrow> (r, Sec_Plain conn, w))
      | Sec_Tls conn \<Rightarrow> (case g conn w of (r, conn, w) \<Rightarrow> (r, Sec_Tls conn, w)))"

definition security_ops ::
    "('s, 'i, 'w) socket_ops \<Rightarrow> ('t, 'i, 'w) socket_ops \<Rightarrow> (('s, 't) connection_security, 'i, 'w) socket_ops" where
  "security_ops so ts =
     \<lparr> sock_poll_read = on_security (sock_poll_read so) (sock_poll_read ts),
       sock_is_write_vectored = case_connection_security (sock_is_write_vectored so) (sock_is_write_vectored ts),
       sock_poll_write = (\<lambda>buf. on_security (sock_poll_write so buf) (sock_poll_write ts buf)),
       sock_poll_write_vectored = (\<lambda>bs. on_security (sock_poll_write_vectored so bs) (sock_poll_write_vectored ts bs)),
       sock_poll_flush = on_security (sock_poll_flush so) (sock_poll_flush ts),
       sock_poll_shutdown = on_security (sock_poll_shutdown so) (sock_poll_shutdown ts) \<rparr>"

section \<open>\<open>MaybeConnection\<close>\<close>

text \<open>Every operation unwraps the stream and passes the call on.\<close>

type_synonym 's maybe_connection = "'s option"

definition unwrapping ::
    "('s \<Rightarrow> 'w \<Rightarrow> 'r \<times> 's \<times> 'w) \<Rightarrow> 's maybe_connection \<Rightarrow> 'w \<Rightarrow> ('r \<times> 's maybe_connection \<times> 'w) option" where
  "unwrapping f m w = map_option (\<lambda>s. case f s w of (r, s, w) \<Rightarrow> (r, Some s, w)) m"

record ('s, 'i, 'w) maybe_ops =
  maybe_poll_read :: "'s maybe_connection \<Rightarrow> 'w \<Rightarrow> (('i io_error + bytes) poll \<times> 's maybe_connection \<times> 'w) option"
  maybe_poll_write :: "bytes \<Rightarrow> 's maybe_connection \<Rightarrow> 'w \<Rightarrow> (('i io_error + nat) poll \<times> 's maybe_connection \<times> 'w) option"
  maybe_poll_write_vectored ::
    "bytes list \<Rightarrow> 's maybe_connection \<Rightarrow> 'w \<Rightarrow> (('i io_error + nat) poll \<times> 's maybe_connection \<times> 'w) option"
  maybe_is_write_vectored :: "'s maybe_connection \<Rightarrow> bool option"
  maybe_poll_flush :: "'s maybe_connection \<Rightarrow> 'w \<Rightarrow> (('i io_error + unit) poll \<times> 's maybe_connection \<times> 'w) option"
  maybe_poll_shutdown :: "'s maybe_connection \<Rightarrow> 'w \<Rightarrow> (('i io_error + unit) poll \<times> 's maybe_connection \<times> 'w) option"

definition maybe_connection_ops :: "('s, 'i, 'w) socket_ops \<Rightarrow> ('s, 'i, 'w) maybe_ops" where
  "maybe_connection_ops so =
     \<lparr> maybe_poll_read = unwrapping (sock_poll_read so),
       maybe_poll_write = (\<lambda>buf. unwrapping (sock_poll_write so buf)),
       maybe_poll_write_vectored = (\<lambda>bs. unwrapping (sock_poll_write_vectored so bs)),
       maybe_is_write_vectored = map_option (sock_is_write_vectored so),
       maybe_poll_flush = unwrapping (sock_poll_flush so),
       maybe_poll_shutdown = unwrapping (sock_poll_shutdown so) \<rparr>"

section \<open>\<open>ZstdStream\<close>\<close>

text \<open>The codecs: a decoder \<open>'d\<close> and an encoder \<open>'e\<close>, given the operations of the stream below them.\<close>

record ('d, 'e, 's, 'i, 'w) zstd_codec =
  zd_new :: 'd
  ze_with_quality :: "8 word \<Rightarrow> 'e"
  zd_poll_read :: "('s, 'i, 'w) maybe_ops \<Rightarrow> 'd \<Rightarrow> 's maybe_connection \<Rightarrow> 'w \<Rightarrow>
    (('i io_error + bytes) poll \<times> 'd \<times> 's maybe_connection \<times> 'w) option"
  ze_poll_write :: "('s, 'i, 'w) maybe_ops \<Rightarrow> bytes \<Rightarrow> 'e \<Rightarrow> 's maybe_connection \<Rightarrow> 'w \<Rightarrow>
    (('i io_error + nat) poll \<times> 'e \<times> 's maybe_connection \<times> 'w) option"
  ze_poll_write_vectored :: "('s, 'i, 'w) maybe_ops \<Rightarrow> bytes list \<Rightarrow> 'e \<Rightarrow> 's maybe_connection \<Rightarrow> 'w \<Rightarrow>
    (('i io_error + nat) poll \<times> 'e \<times> 's maybe_connection \<times> 'w) option"
  ze_poll_flush :: "('s, 'i, 'w) maybe_ops \<Rightarrow> 'e \<Rightarrow> 's maybe_connection \<Rightarrow> 'w \<Rightarrow>
    (('i io_error + unit) poll \<times> 'e \<times> 's maybe_connection \<times> 'w) option"
  ze_poll_shutdown :: "('s, 'i, 'w) maybe_ops \<Rightarrow> 'e \<Rightarrow> 's maybe_connection \<Rightarrow> 'w \<Rightarrow>
    (('i io_error + unit) poll \<times> 'e \<times> 's maybe_connection \<times> 'w) option"

record ('d, 'e, 's) zstd_stream =
  zs_decoder :: 'd
  zs_decoder_conn :: "'s maybe_connection"
  zs_encoder :: 'e
  zs_encoder_conn :: "'s maybe_connection"

definition zstd_stream_new ::
    "('d, 'e, 's, 'i, 'w) zstd_codec \<Rightarrow> 's \<Rightarrow> 8 word \<Rightarrow> ('d, 'e, 's) zstd_stream" where
  "zstd_stream_new z stream compression_level =
     \<lparr> zs_decoder = zd_new z, zs_decoder_conn = Some stream,
       zs_encoder = ze_with_quality z compression_level, zs_encoder_conn = None \<rparr>"

text \<open>The stream is handed to the side that needs it.\<close>

definition give_decoder :: "('d, 'e, 's) zstd_stream \<Rightarrow> ('d, 'e, 's) zstd_stream" where
  "give_decoder zs = (case zs_encoder_conn zs of
     None \<Rightarrow> zs | Some s \<Rightarrow> zs\<lparr>zs_encoder_conn := None, zs_decoder_conn := Some s\<rparr>)"

definition give_encoder :: "('d, 'e, 's) zstd_stream \<Rightarrow> ('d, 'e, 's) zstd_stream" where
  "give_encoder zs = (case zs_decoder_conn zs of
     None \<Rightarrow> zs | Some s \<Rightarrow> zs\<lparr>zs_decoder_conn := None, zs_encoder_conn := Some s\<rparr>)"

definition encoding ::
    "('e \<Rightarrow> 's maybe_connection \<Rightarrow> 'w \<Rightarrow> ('r \<times> 'e \<times> 's maybe_connection \<times> 'w) option) \<Rightarrow>
     ('d, 'e, 's) zstd_stream \<Rightarrow> 'w \<Rightarrow> ('r \<times> ('d, 'e, 's) zstd_stream \<times> 'w) option" where
  "encoding f zs w =
     (let zs = give_encoder zs in
      map_option (\<lambda>(r, e, c, w). (r, zs\<lparr>zs_encoder := e, zs_encoder_conn := c\<rparr>, w))
        (f (zs_encoder zs) (zs_encoder_conn zs) w))"

definition zstd_poll_read where
  "zstd_poll_read z so zs w =
     (let zs = give_decoder zs in
      map_option (\<lambda>(r, d, c, w). (r, zs\<lparr>zs_decoder := d, zs_decoder_conn := c\<rparr>, w))
        (zd_poll_read z (maybe_connection_ops so) (zs_decoder zs) (zs_decoder_conn zs) w))"

definition zstd_poll_write where
  "zstd_poll_write z so buf = encoding (ze_poll_write z (maybe_connection_ops so) buf)"

definition zstd_poll_write_vectored where
  "zstd_poll_write_vectored z so bs = encoding (ze_poll_write_vectored z (maybe_connection_ops so) bs)"

definition zstd_poll_flush where
  "zstd_poll_flush z so = encoding (ze_poll_flush z (maybe_connection_ops so))"

definition zstd_poll_shutdown where
  "zstd_poll_shutdown z so = encoding (ze_poll_shutdown z (maybe_connection_ops so))"

definition zstd_is_write_vectored :: "('s, 'i, 'w) socket_ops \<Rightarrow> ('d, 'e, 's) zstd_stream \<Rightarrow> bool option" where
  "zstd_is_write_vectored so zs =
     (case zs_encoder_conn zs of
        Some stream \<Rightarrow> Some (sock_is_write_vectored so stream)
      | None \<Rightarrow> (case zs_decoder_conn zs of
          Some stream \<Rightarrow> Some (sock_is_write_vectored so stream)
        | None \<Rightarrow> None))"

section \<open>\<open>ConnectionCompression\<close>\<close>

datatype ('s, 'z) connection_compression = Comp_Plain 's | Comp_Zstd 'z

definition upgrade_zstd ::
    "('d, 'e, 's, 'i, 'w) zstd_codec \<Rightarrow> 8 word \<Rightarrow> ('s, ('d, 'e, 's) zstd_stream) connection_compression \<Rightarrow>
     ('s, ('d, 'e, 's) zstd_stream) connection_compression option" where
  "upgrade_zstd z compression_level c =
     (case c of
        Comp_Plain socket \<Rightarrow> Some (Comp_Zstd (zstd_stream_new z socket compression_level))
      | Comp_Zstd _ \<Rightarrow> None)"

definition is_zstd_compressed_stream :: "('s, 'z) connection_compression \<Rightarrow> bool" where
  "is_zstd_compressed_stream c = (case c of Comp_Plain _ \<Rightarrow> False | Comp_Zstd _ \<Rightarrow> True)"

definition on_compression ::
    "('s \<Rightarrow> 'w \<Rightarrow> 'r \<times> 's \<times> 'w) \<Rightarrow> ('z \<Rightarrow> 'w \<Rightarrow> ('r \<times> 'z \<times> 'w) option) \<Rightarrow>
     ('s, 'z) connection_compression \<Rightarrow> 'w \<Rightarrow> ('r \<times> ('s, 'z) connection_compression \<times> 'w) option" where
  "on_compression f g c w =
     (case c of
        Comp_Plain conn \<Rightarrow> (case f conn w of (r, conn, w) \<Rightarrow> Some (r, Comp_Plain conn, w))
      | Comp_Zstd conn \<Rightarrow> map_option (\<lambda>(r, conn, w). (r, Comp_Zstd conn, w)) (g conn w))"

definition compression_poll_read where
  "compression_poll_read z so = on_compression (sock_poll_read so) (zstd_poll_read z so)"

definition compression_poll_write where
  "compression_poll_write z so buf = on_compression (sock_poll_write so buf) (zstd_poll_write z so buf)"

definition compression_poll_write_vectored where
  "compression_poll_write_vectored z so bs =
     on_compression (sock_poll_write_vectored so bs) (zstd_poll_write_vectored z so bs)"

definition compression_poll_flush where
  "compression_poll_flush z so = on_compression (sock_poll_flush so) (zstd_poll_flush z so)"

definition compression_poll_shutdown where
  "compression_poll_shutdown z so = on_compression (sock_poll_shutdown so) (zstd_poll_shutdown z so)"

definition compression_is_write_vectored where
  "compression_is_write_vectored so c =
     (case c of
        Comp_Plain conn \<Rightarrow> Some (sock_is_write_vectored so conn)
      | Comp_Zstd conn \<Rightarrow> zstd_is_write_vectored so conn)"

section \<open>The stream is always where it is needed\<close>

definition zstd_inv :: "('d, 'e, 's) zstd_stream \<Rightarrow> bool" where
  "zstd_inv zs \<longleftrightarrow> (zs_decoder_conn zs = None) \<noteq> (zs_encoder_conn zs = None)"

definition compression_inv :: "('s, ('d, 'e, 's) zstd_stream) connection_compression \<Rightarrow> bool" where
  "compression_inv c = (case c of Comp_Plain _ \<Rightarrow> True | Comp_Zstd zs \<Rightarrow> zstd_inv zs)"

text \<open>What the codecs rely on and promise: when the stream below is there, its operations do not panic and
  leave it there; then neither do the codecs panic, and they leave it there.\<close>

definition stays ::
    "('c \<Rightarrow> 's maybe_connection \<Rightarrow> 'w \<Rightarrow> ('r \<times> 'c \<times> 's maybe_connection \<times> 'w) option) \<Rightarrow> bool" where
  "stays f \<longleftrightarrow> (\<forall>c s w. \<exists>r c' s' w'. f c (Some s) w = Some (r, c', Some s', w'))"

definition maybe_ops_ok :: "('s, 'i, 'w) maybe_ops \<Rightarrow> bool" where
  "maybe_ops_ok m \<longleftrightarrow> (\<forall>s w.
     (\<exists>r s' w'. maybe_poll_read m (Some s) w = Some (r, Some s', w')) \<and>
     (\<forall>b. \<exists>r s' w'. maybe_poll_write m b (Some s) w = Some (r, Some s', w')) \<and>
     (\<forall>bs. \<exists>r s' w'. maybe_poll_write_vectored m bs (Some s) w = Some (r, Some s', w')) \<and>
     maybe_is_write_vectored m (Some s) \<noteq> None \<and>
     (\<exists>r s' w'. maybe_poll_flush m (Some s) w = Some (r, Some s', w')) \<and>
     (\<exists>r s' w'. maybe_poll_shutdown m (Some s) w = Some (r, Some s', w')))"

definition codec_ok :: "('d, 'e, 's, 'i, 'w) zstd_codec \<Rightarrow> bool" where
  "codec_ok z \<longleftrightarrow> (\<forall>m. maybe_ops_ok m \<longrightarrow> stays (zd_poll_read z m) \<and> (\<forall>b. stays (ze_poll_write z m b)) \<and>
     (\<forall>bs. stays (ze_poll_write_vectored z m bs)) \<and> stays (ze_poll_flush z m) \<and> stays (ze_poll_shutdown z m))"

lemma unwrapping_Some: "\<exists>r s' w'. unwrapping f (Some s) w = Some (r, Some s', w')"
  by (simp add: unwrapping_def split: prod.split)

lemma maybe_connection_ops_ok: "maybe_ops_ok (maybe_connection_ops so)"
  by (simp add: maybe_ops_ok_def maybe_connection_ops_def unwrapping_Some)

lemma codec_okD:
  assumes "codec_ok z"
  shows "stays (zd_poll_read z (maybe_connection_ops so))" "stays (ze_poll_write z (maybe_connection_ops so) b)"
    "stays (ze_poll_write_vectored z (maybe_connection_ops so) bs)"
    "stays (ze_poll_flush z (maybe_connection_ops so))" "stays (ze_poll_shutdown z (maybe_connection_ops so))"
  using assms maybe_connection_ops_ok [of so] by (simp_all add: codec_ok_def)

lemma encoding_inv:
  assumes "stays f" and "zstd_inv zs"
  shows "\<exists>r zs' w'. encoding f zs w = Some (r, zs', w') \<and> zstd_inv zs'"
proof -
  from assms(2) obtain s where s: "zs_encoder_conn (give_encoder zs) = Some s" "zs_decoder_conn (give_encoder zs) = None"
    by (auto simp: zstd_inv_def give_encoder_def split: option.splits)
  from assms(1) obtain r e s' w' where "f (zs_encoder (give_encoder zs)) (Some s) w = Some (r, e, Some s', w')"
    unfolding stays_def by blast
  with s show ?thesis by (simp add: encoding_def zstd_inv_def)
qed

lemma zstd_poll_read_inv:
  assumes "stays (zd_poll_read z (maybe_connection_ops so))" and "zstd_inv zs"
  shows "\<exists>r zs' w'. zstd_poll_read z so zs w = Some (r, zs', w') \<and> zstd_inv zs'"
proof -
  from assms(2) obtain s where s: "zs_decoder_conn (give_decoder zs) = Some s" "zs_encoder_conn (give_decoder zs) = None"
    by (auto simp: zstd_inv_def give_decoder_def split: option.splits)
  from assms(1) obtain r d s' w' where
    "zd_poll_read z (maybe_connection_ops so) (zs_decoder (give_decoder zs)) (Some s) w = Some (r, d, Some s', w')"
    unfolding stays_def by blast
  with s show ?thesis by (simp add: zstd_poll_read_def zstd_inv_def)
qed

lemma on_compression_inv:
  assumes "\<And>zs. zstd_inv zs \<Longrightarrow> \<exists>r zs' w'. g zs w = Some (r, zs', w') \<and> zstd_inv zs'" and "compression_inv c"
  shows "\<exists>r c' w'. on_compression f g c w = Some (r, c', w') \<and> compression_inv c'"
proof (cases c)
  case (Comp_Plain s)
  then show ?thesis by (simp add: on_compression_def compression_inv_def split: prod.split)
next
  case (Comp_Zstd zs)
  with assms show ?thesis by (fastforce simp: on_compression_def compression_inv_def)
qed

section \<open>Security keeps the contract of a socket\<close>

locale two_sinks = plain: byte_sink so sent_plain + tls: byte_sink ts sent_tls
  for so :: "('s, 'i, 'w) socket_ops" and sent_plain :: "'s \<Rightarrow> bytes"
    and ts :: "('t, 'i, 'w) socket_ops" and sent_tls :: "'t \<Rightarrow> bytes"

sublocale two_sinks \<subseteq> security: byte_sink "security_ops so ts" "case_connection_security sent_plain sent_tls"
proof
  fix k k' :: "('s, 't) connection_security" and w w' n b bs r r' r''
  show "sock_poll_write (security_ops so ts) b k w = (Ready (Inr n), k', w') \<Longrightarrow>
      n \<le> length b \<and> case_connection_security sent_plain sent_tls k' = case_connection_security sent_plain sent_tls k @ take n b"
    by (auto simp: security_ops_def on_security_def dest: plain.write_takes tls.write_takes
        split: connection_security.splits prod.splits)
  show "sock_poll_write_vectored (security_ops so ts) bs k w = (Ready (Inr n), k', w') \<Longrightarrow>
      n \<le> length (concat bs) \<and>
      case_connection_security sent_plain sent_tls k' = case_connection_security sent_plain sent_tls k @ take n (concat bs)"
    by (auto simp: security_ops_def on_security_def dest: plain.vectored_takes tls.vectored_takes
        split: connection_security.splits prod.splits)
  show "sock_poll_write (security_ops so ts) b k w = (r, k', w') \<Longrightarrow> (\<And>n. r \<noteq> Ready (Inr n)) \<Longrightarrow>
      case_connection_security sent_plain sent_tls k' = case_connection_security sent_plain sent_tls k"
    by (auto simp: security_ops_def on_security_def dest: plain.write_other tls.write_other
        split: connection_security.splits prod.splits)
  show "sock_poll_write_vectored (security_ops so ts) bs k w = (r, k', w') \<Longrightarrow> (\<And>n. r \<noteq> Ready (Inr n)) \<Longrightarrow>
      case_connection_security sent_plain sent_tls k' = case_connection_security sent_plain sent_tls k"
    by (auto simp: security_ops_def on_security_def dest: plain.vectored_other tls.vectored_other
        split: connection_security.splits prod.splits)
  show "sock_poll_read (security_ops so ts) k w = (r', k', w') \<Longrightarrow>
      case_connection_security sent_plain sent_tls k' = case_connection_security sent_plain sent_tls k"
    by (auto simp: security_ops_def on_security_def dest: plain.read_sends_nothing tls.read_sends_nothing
        split: connection_security.splits prod.splits)
  show "sock_poll_flush (security_ops so ts) k w = (r'', k', w') \<Longrightarrow>
      case_connection_security sent_plain sent_tls k' = case_connection_security sent_plain sent_tls k"
    by (auto simp: security_ops_def on_security_def dest: plain.flush_sends_nothing tls.flush_sends_nothing
        split: connection_security.splits prod.splits)
qed

section \<open>A socket in memory\<close>

text \<open>The chunks it will give to readers, and the bytes written to it. Shutting it down ends it for readers too.\<close>

type_synonym memory = "bytes list \<times> bytes"

definition memory_ops :: "(memory, unit, 'w) socket_ops" where
  "memory_ops =
     \<lparr> sock_poll_read = (\<lambda>k w. case fst k of [] \<Rightarrow> (Pending, k, w) | c # cs \<Rightarrow> (Ready (Ok c), (cs, snd k), w)),
       sock_is_write_vectored = (\<lambda>_. True),
       sock_poll_write = (\<lambda>b k w. (Ready (Ok (length b)), (fst k, snd k @ b), w)),
       sock_poll_write_vectored = (\<lambda>bs k w. (Ready (Ok (length (concat bs))), (fst k, snd k @ concat bs), w)),
       sock_poll_flush = (\<lambda>k w. (Ready (Ok ()), k, w)), sock_poll_shutdown = (\<lambda>k w. (Ready (Ok ()), (fst k @ [[]], snd k), w)) \<rparr>"

interpretation memory_sink: byte_sink memory_ops snd
  by unfold_locales (auto simp: memory_ops_def split: list.splits)

interpretation memory_sinks: two_sinks memory_ops snd memory_ops snd
  by unfold_locales

text \<open>A codec that does not compress.\<close>

definition copied :: "('r \<times> 's maybe_connection \<times> 'w) option \<Rightarrow> 'c \<Rightarrow> ('r \<times> 'c \<times> 's maybe_connection \<times> 'w) option" where
  "copied x c = map_option (\<lambda>(r, k, w). (r, c, k, w)) x"

definition copy_codec :: "(unit, unit, 's, 'i, 'w) zstd_codec" where
  "copy_codec = \<lparr> zd_new = (), ze_with_quality = (\<lambda>_. ()),
     zd_poll_read = (\<lambda>m d k w. copied (maybe_poll_read m k w) d),
     ze_poll_write = (\<lambda>m b e k w. copied (maybe_poll_write m b k w) e),
     ze_poll_write_vectored = (\<lambda>m bs e k w. copied (maybe_poll_write_vectored m bs k w) e),
     ze_poll_flush = (\<lambda>m e k w. copied (maybe_poll_flush m k w) e),
     ze_poll_shutdown = (\<lambda>m e k w. copied (maybe_poll_shutdown m k w) e) \<rparr>"

text \<open>A compressed stream never unwraps an absent socket: the socket is in exactly one of the decoder and
  the encoder, every operation first moves it to the side that uses it, and no operation panics or
  loses it.\<close>

lemma stream_is_where_needed:
  assumes "codec_ok z" and "compression_inv c"
  shows "(\<exists>r c' w'. compression_poll_read z so c w = Some (r, c', w') \<and> compression_inv c') \<and>
    (\<exists>r c' w'. compression_poll_write z so b c w = Some (r, c', w') \<and> compression_inv c') \<and>
    (\<exists>r c' w'. compression_poll_write_vectored z so bs c w = Some (r, c', w') \<and> compression_inv c') \<and>
    (\<exists>r c' w'. compression_poll_flush z so c w = Some (r, c', w') \<and> compression_inv c') \<and>
    (\<exists>r c' w'. compression_poll_shutdown z so c w = Some (r, c', w') \<and> compression_inv c') \<and>
    compression_is_write_vectored so c \<noteq> None"
proof -
  have "compression_is_write_vectored so c \<noteq> None"
    using assms(2) by (auto simp: compression_is_write_vectored_def compression_inv_def zstd_is_write_vectored_def
        zstd_inv_def split: connection_compression.splits option.splits)
  then show ?thesis
    unfolding compression_poll_read_def compression_poll_write_def compression_poll_write_vectored_def
      compression_poll_flush_def compression_poll_shutdown_def zstd_poll_write_def zstd_poll_write_vectored_def
      zstd_poll_flush_def zstd_poll_shutdown_def
    by (intro conjI on_compression_inv assms(2) zstd_poll_read_inv encoding_inv codec_okD [OF assms(1)])
qed

end
