(* ===== verification/Timers.thy ===== *)
theory Timers
  imports Prelude
begin

text \<open>
  \<open>watermelon/src/handler/pinger.rs\<close> and \<open>delayed.rs\<close>. Time is tokio's: \<open>Instant::now\<close> and the poll of a
  \<open>Sleep\<close> are fields of \<open>clock_ops\<close>, on a world that they thread through. An instant is in nanoseconds,
  and a \<open>Sleep\<close> is its deadline. \<open>clock_ok\<close> is what tokio documents of them: time does not go back, and
  a sleep is not ready before its deadline.
\<close>

record 'w clock_ops =
  now :: "'w \<Rightarrow> nat \<times> 'w"
  poll_sleep :: "nat \<Rightarrow> 'w \<Rightarrow> bool \<times> 'w"

definition clock_ok :: "('w, 'z) clock_ops_scheme \<Rightarrow> ('w \<Rightarrow> nat) \<Rightarrow> bool" where
  "clock_ok clk time \<longleftrightarrow>
     (\<forall>w t w'. now clk w = (t, w') \<longrightarrow> time w \<le> t \<and> t \<le> time w') \<and>
     (\<forall>d w r w'. poll_sleep clk d w = (r, w') \<longrightarrow> time w \<le> time w' \<and> (r \<longrightarrow> d \<le> time w'))"

section \<open>\<open>Pinger\<close>\<close>

definition INTERVAL :: nat where "INTERVAL = 10 * 1000000000"

record pinger =
  interval :: nat
  pending_pings :: "8 word"

datatype ping_outcome = Ping_Ok | TooManyInFlightPings

definition pinger_new :: "('w, 'z) clock_ops_scheme \<Rightarrow> 'w \<Rightarrow> pinger \<times> 'w" where
  "pinger_new clk w = (let (t, w) = now clk w in (\<lparr> interval = t + INTERVAL, pending_pings = 0 \<rparr>, w))"

definition pinger_reset :: "('w, 'z) clock_ops_scheme \<Rightarrow> pinger \<Rightarrow> 'w \<Rightarrow> pinger \<times> 'w" where
  "pinger_reset clk p w = (let (t, w) = now clk w in (p\<lparr>interval := t + INTERVAL\<rparr>, w))"

definition handle_pong :: "pinger \<Rightarrow> pinger" where
  "handle_pong p = p\<lparr>pending_pings := (if pending_pings p = 0 then 0 else pending_pings p - 1)\<rparr>"

text \<open>The loop that resets the timer until it is pending; it may not end if time runs too fast.\<close>

partial_function (option) rearm ::
    "('w, 'z) clock_ops_scheme \<Rightarrow> pinger \<Rightarrow> 'w \<Rightarrow> (pinger \<times> 'w) option" where
  "rearm clk p w =
     (case pinger_reset clk p w of (p, w) \<Rightarrow>
      case poll_sleep clk (interval p) w of (ready, w) \<Rightarrow>
        if ready then rearm clk p w else Some (p, w))"

definition do_ping ::
    "('w, 'z) clock_ops_scheme \<Rightarrow> ('c \<Rightarrow> 'c option) \<Rightarrow> pinger \<Rightarrow> 'c \<Rightarrow> 'w \<Rightarrow>
     (ping_outcome \<times> pinger \<times> 'c \<times> 'w) option" where
  "do_ping clk send_ping p c w =
     (if pending_pings p < 2 then do {
        c \<leftarrow> send_ping c;
        (p, w) \<leftarrow> rearm clk (p\<lparr>pending_pings := pending_pings p + 1\<rparr>) w;
        Some (Ping_Ok, p, c, w) }
      else Some (TooManyInFlightPings, p, c, w))"

definition pinger_poll ::
    "('w, 'z) clock_ops_scheme \<Rightarrow> ('c \<Rightarrow> 'c option) \<Rightarrow> pinger \<Rightarrow> 'c \<Rightarrow> 'w \<Rightarrow>
     (ping_outcome \<times> pinger \<times> 'c \<times> 'w) option" where
  "pinger_poll clk send_ping p c w =
     (case poll_sleep clk (interval p) w of (ready, w) \<Rightarrow>
        if \<not> ready then Some (Ping_Ok, p, c, w) else do_ping clk send_ping p c w)"

definition pinger_inv :: "pinger \<Rightarrow> bool" where
  "pinger_inv p \<longleftrightarrow> pending_pings p \<le> 2"

lemma pinger_reset_pending [simp]: "pinger_reset clk p w = (p', w') \<Longrightarrow> pending_pings p' = pending_pings p"
  by (auto simp: pinger_reset_def split: prod.splits)

lemma rearm_pending: "rearm clk p w = Some (p', w') \<Longrightarrow> pending_pings p' = pending_pings p"
proof -
  assume "rearm clk p w = Some (p', w')"
  then have "pending_pings (fst (p', w')) = pending_pings p"
    by (rule rearm.raw_induct [where P = "\<lambda>_ p _ r. pending_pings (fst r) = pending_pings p", rotated])
       (auto split: prod.splits if_splits)
  then show ?thesis by simp
qed

lemma word8_less_2: "x < 2 \<longleftrightarrow> unat x < 2" for x :: "8 word"
  by (simp add: word_less_nat_alt)

lemma pinger_poll_inv:
  assumes "pinger_inv p" and "pinger_poll clk send p c w = Some (r, p', c', w')"
  shows "pinger_inv p'"
proof -
  have "x < 2 \<Longrightarrow> x + 1 \<le> 2" for x :: "8 word"
    by (simp add: word_less_nat_alt word_le_nat_alt unat_word_ariths)
  with assms show ?thesis
    by (auto simp: pinger_poll_def do_ping_def pinger_inv_def dest!: rearm_pending
        split: prod.splits if_splits bind_splits)
qed

lemma pinger_other_inv: "pinger_inv p \<Longrightarrow> pinger_inv (handle_pong p)"
  "pinger_inv p \<Longrightarrow> pinger_inv (fst (pinger_reset clk p w))"
  by (auto simp: pinger_inv_def handle_pong_def pinger_reset_def word_le_nat_alt unat_sub_if' Suc_le_eq
      unat_gt_0 split: prod.splits)

text \<open>When less than an interval passes while the timer is armed, the loop ends at once.\<close>

lemma rearm_ends:
  assumes ok: "clock_ok clk time" and n: "now clk w = (t, w1)"
    and s: "poll_sleep clk (t + INTERVAL) w1 = (r, w2)" and fast: "time w2 < t + INTERVAL"
  shows "rearm clk p w = Some (p\<lparr>interval := t + INTERVAL\<rparr>, w2)"
proof -
  from ok s fast have "\<not> r" unfolding clock_ok_def by fastforce
  with n s show ?thesis
    by (subst rearm.simps) (simp add: pinger_reset_def)
qed

section \<open>\<open>Delayed\<close>\<close>

record delayed_inner =
  duration :: nat
  delay :: nat
  delay_consumed :: bool

type_synonym delayed = "delayed_inner option"

definition delayed_new :: "('w, 'z) clock_ops_scheme \<Rightarrow> nat \<Rightarrow> 'w \<Rightarrow> delayed \<times> 'w" where
  "delayed_new clk d w =
     (if d = 0 then (None, w)
      else let (t, w) = now clk w in
        (Some \<lparr> duration = d, delay = t + d, delay_consumed = True \<rparr>, w))"

definition poll_can_proceed :: "('w, 'z) clock_ops_scheme \<Rightarrow> delayed \<Rightarrow> 'w \<Rightarrow> bool \<times> delayed \<times> 'w" where
  "poll_can_proceed clk d w =
     (case d of
        None \<Rightarrow> (True, d, w)
      | Some inner \<Rightarrow>
          let (inner, w) =
            (if delay_consumed inner
             then let (t, w) = now clk w in
               (inner\<lparr>delay_consumed := False, delay := t + duration inner\<rparr>, w)
             else (inner, w));
            (ready, w) = poll_sleep clk (delay inner) w in
          if ready then (True, Some (inner\<lparr>delay_consumed := True\<rparr>), w)
          else (False, Some inner, w))"

text \<open>A sequence of polls, between which time may pass, that has not been let through since \<open>t\<close>.\<close>

inductive polls :: "('w, 'z) clock_ops_scheme \<Rightarrow> ('w \<Rightarrow> nat) \<Rightarrow> delayed \<Rightarrow> 'w \<Rightarrow> delayed \<Rightarrow> 'w \<Rightarrow> bool"
  for clk :: "('w, 'z) clock_ops_scheme" and time :: "'w \<Rightarrow> nat" where
  none: "polls clk time d w d w"
| wait: "polls clk time d w d' w' \<Longrightarrow> time w' \<le> time w'' \<Longrightarrow> polls clk time d w d' w''"
| poll: "polls clk time d w d' w' \<Longrightarrow> poll_can_proceed clk d' w' = (False, d'', w'') \<Longrightarrow> polls clk time d w d'' w''"

definition waiting_since :: "nat \<Rightarrow> nat \<Rightarrow> delayed \<Rightarrow> bool" where
  "waiting_since n t d \<longleftrightarrow> (\<exists>inner. d = Some inner \<and> duration inner = n \<and>
     (delay_consumed inner \<or> t + n \<le> delay inner))"

lemma poll_can_proceed_waiting:
  assumes "clock_ok clk time" and "waiting_since n t d" and "t \<le> time w"
    and "poll_can_proceed clk d w = (ready, d', w')"
  shows "time w \<le> time w' \<and> (if ready then t + n \<le> time w' \<and> (\<exists>i. d' = Some i \<and> duration i = n \<and> delay_consumed i)
    else waiting_since n t d')"
proof -
  obtain i where i: "d = Some i" "duration i = n" "delay_consumed i \<or> t + n \<le> delay i"
    using assms(2) by (auto simp: waiting_since_def)
  obtain i1 w1 where i1: "(if delay_consumed i then let (t, w) = now clk w in
      (i\<lparr>delay_consumed := False, delay := t + duration i\<rparr>, w) else (i, w)) = (i1, w1)"
    by fastforce
  with i assms(1,3) have a: "duration i1 = n" "t + n \<le> delay i1" "time w \<le> time w1"
    by (fastforce simp: clock_ok_def split: if_splits prod.splits)+
  obtain r w2 where r: "poll_sleep clk (delay i1) w1 = (r, w2)" by fastforce
  with assms(1) have "time w1 \<le> time w2" "r \<Longrightarrow> delay i1 \<le> time w2"
    by (auto simp: clock_ok_def)
  with a i1 r i(1) assms(4) show ?thesis
    by (auto simp: poll_can_proceed_def Let_def waiting_since_def split: if_splits prod.splits)
qed

lemma polls_waiting:
  assumes "polls clk time d w d' w'" and "clock_ok clk time" and "waiting_since n t d" and "t \<le> time w"
  shows "waiting_since n t d' \<and> t \<le> time w'"
  using assms
proof (induction rule: polls.induct)
  case (poll d w d' w' d'' w'')
  then show ?case using poll_can_proceed_waiting [of clk time n t d' w' False d'' w''] by auto
qed auto

text \<open>Two operations that were let through are separated by the duration.\<close>

lemma delayed_separation:
  assumes ok: "clock_ok clk time"
    and first: "poll_can_proceed clk d w = (True, d1, w1)" and inner: "d = Some i" "duration i = n"
    and ps: "polls clk time d1 w1 d2 w2" and second: "poll_can_proceed clk d2 w2 = (True, d3, w3)"
  shows "time w1 + n \<le> time w3"
proof -
  have "waiting_since n (time w1) d1"
    using first inner by (auto simp: poll_can_proceed_def waiting_since_def Let_def split: if_splits prod.splits)
  then have "waiting_since n (time w1) d2" "time w1 \<le> time w2"
    using polls_waiting [OF ps ok] by auto
  from poll_can_proceed_waiting [OF ok this second] show ?thesis by simp
qed

text \<open>Two flushes that the delay lets through are at least its duration apart, whatever polls that must
  wait come between them.\<close>

lemma flushes_separated:
  assumes "clock_ok clk time" and "poll_can_proceed clk (Some i) w = (True, d1, w1)"
    and "polls clk time d1 w1 d2 w2" and "poll_can_proceed clk d2 w2 = (True, d3, w3)"
  shows "time w1 + duration i \<le> time w3"
  using delayed_separation [OF assms(1,2) refl refl assms(3,4)] .

text \<open>At most two pings are ever waiting for their pong: a poll of the pinger keeps the bound, and so its
  8 bit counter never wraps.\<close>

lemma pinger_bounded:
  assumes "pending_pings p \<le> 2" and "pinger_poll clk send p c w = Some (r, p', c', w')"
  shows "pending_pings p' \<le> 2"
  using pinger_poll_inv [OF _ assms(2)] assms(1) by (simp add: pinger_inv_def)

end
