(* ===== verification/Happy_Eyeballs.thy ===== *)
theory Happy_Eyeballs
  imports Timers Server_Addr Connection "HOL-Library.Multiset"
begin

text \<open>
  \<open>watermelon-net/src/happy_eyeballs.rs\<close>: connecting to the addresses of a host, IPv6 and IPv4 in turn, a
  new attempt 250 ms after the last when none has ended. The resolver \<open>'d\<close>, the set of running tasks \<open>'t\<close>
  and the connected sockets \<open>'k\<close> are tokio's; a \<open>Sleep\<close> is its deadline.
\<close>

datatype socket_addr = SocketAddr ip_addr u16

datatype last_attempted = Ipv4 | Ipv6

record ('d, 't, 'k, 'i, 'w) he_ops = "'w clock_ops" +
  dns_poll_next :: "'d \<Rightarrow> 'w \<Rightarrow> socket_addr option poll \<times> 'd \<times> 'w"
  dns_size_hint :: "'d \<Rightarrow> usize \<times> usize option"
  join_next :: "'t \<Rightarrow> 'w \<Rightarrow> ('i io_error + 'k) option poll \<times> 't \<times> 'w"
  join_spawn :: "socket_addr \<Rightarrow> 't \<Rightarrow> 'w \<Rightarrow> 't \<times> 'w"
  join_len :: "'t \<Rightarrow> nat"
  lookup_host :: "bytes \<times> u16 \<Rightarrow> 'w \<Rightarrow> ('i io_error + 'd) \<times> 'w"
  tcp_connect :: "socket_addr \<Rightarrow> 'w \<Rightarrow> ('i io_error + 'k) \<times> 'w"

record ('d, 't) happy_eyeballs =
  he_dns :: "'d option"
  he_dns_received :: "socket_addr list"
  he_connecting :: 't
  he_last_attempted :: "last_attempted option"
  he_next_attempt_delay :: "nat option"

definition CONN_ATTEMPT_DELAY :: nat where "CONN_ATTEMPT_DELAY = 250 * 1000000"

fun from_addr :: "socket_addr \<Rightarrow> last_attempted" where
  "from_addr (SocketAddr (V4 _ _ _ _) _) = Ipv4"
| "from_addr (SocketAddr (V6 _) _) = Ipv6"

fun opposite :: "last_attempted \<Rightarrow> last_attempted" where
  "opposite Ipv4 = Ipv6"
| "opposite Ipv6 = Ipv4"

text \<open>\<open>no_tasks\<close> is the new \<open>JoinSet\<close>.\<close>

definition happy_eyeballs_new :: "'t \<Rightarrow> 'd \<Rightarrow> ('d, 't) happy_eyeballs" where
  "happy_eyeballs_new no_tasks d = \<lparr> he_dns = Some d, he_dns_received = [], he_connecting = no_tasks,
     he_last_attempted = None, he_next_attempt_delay = None \<rparr>"

text \<open>The first record of a kind: the loop over the indices, with \<open>Vec::remove\<close>.\<close>

fun remove_kind :: "last_attempted \<Rightarrow> socket_addr list \<Rightarrow> (socket_addr \<times> socket_addr list) option" where
  "remove_kind kind [] = None"
| "remove_kind kind (a # as) =
     (if from_addr a = kind then Some (a, as)
      else map_option (\<lambda>(r, as). (r, a # as)) (remove_kind kind as))"

definition next_dns_record ::
    "('d, 't) happy_eyeballs \<Rightarrow> socket_addr option \<times> ('d, 't) happy_eyeballs" where
  "next_dns_record h =
     (if he_dns_received h = [] then (None, h)
      else
        let next_kind = (case he_last_attempted h of None \<Rightarrow> Ipv6 | Some k \<Rightarrow> opposite k) in
        (case remove_kind next_kind (he_dns_received h) of
           Some (record, rest) \<Rightarrow>
             (Some record, h\<lparr>he_last_attempted := Some next_kind, he_dns_received := rest\<rparr>)
         | None \<Rightarrow>
             let record = hd (he_dns_received h) in
             (Some record, h\<lparr>he_dns_received := tl (he_dns_received h),
                he_last_attempted := Some (from_addr record)\<rparr>)))"

partial_function (option) drain_dns ::
    "('d, 't, 'k, 'i, 'w, 'y) he_ops_scheme \<Rightarrow> ('d, 't) happy_eyeballs \<Rightarrow> 'w \<Rightarrow>
     (('d, 't) happy_eyeballs \<times> 'w) option" where
  "drain_dns he h w =
     (case he_dns h of
        None \<Rightarrow> Some (h, w)
      | Some d \<Rightarrow>
          (case dns_poll_next he d w of
             (Pending, d, w) \<Rightarrow> Some (h\<lparr>he_dns := Some d\<rparr>, w)
           | (Ready (Some record), d, w) \<Rightarrow>
               drain_dns he (h\<lparr>he_dns := Some d, he_dns_received := he_dns_received h @ [record]\<rparr>) w
           | (Ready None, d, w) \<Rightarrow> drain_dns he (h\<lparr>he_dns := None\<rparr>) w))"

lemma remove_kind_length: "remove_kind k as = Some (r, rest) \<Longrightarrow> length as = Suc (length rest)"
  by (induction as arbitrary: rest) (auto split: if_splits)

lemma next_dns_record_length:
  "next_dns_record h = (Some r, h') \<Longrightarrow> length (he_dns_received h) = Suc (length (he_dns_received h'))"
  by (auto simp: next_dns_record_def Let_def remove_kind_length split: if_splits option.splits)

text \<open>Whether the timer lets another attempt start, and what is left of it.\<close>

definition poll_delay ::
    "('d, 't, 'k, 'i, 'w, 'y) he_ops_scheme \<Rightarrow> nat option \<Rightarrow> 'w \<Rightarrow> bool \<times> nat option \<times> 'w" where
  "poll_delay he timer w =
     (case timer of
        None \<Rightarrow> (True, None, w)
      | Some d \<Rightarrow> (case poll_sleep he d w of (ready, w) \<Rightarrow> (ready, if ready then None else Some d, w)))"

function attempt_loop ::
    "('d, 't, 'k, 'i, 'w, 'y) he_ops_scheme \<Rightarrow> ('d, 't) happy_eyeballs \<Rightarrow> 'w \<Rightarrow>
     ('i io_error + 'k) option \<times> ('d, 't) happy_eyeballs \<times> 'w" where
  "attempt_loop he h w =
     (case join_next he (he_connecting h) w of
        (Ready (Some maybe_conn), t, w) \<Rightarrow> (Some maybe_conn, h\<lparr>he_connecting := t\<rparr>, w)
      | (r, t, w) \<Rightarrow>
          (case (if r = Pending then poll_delay he (he_next_attempt_delay h) w
                 else (True, he_next_attempt_delay h, w)) of
             (proceed, timer, w) \<Rightarrow>
               let h = h\<lparr>he_connecting := t, he_next_attempt_delay := timer\<rparr> in
               if \<not> proceed then (None, h, w)
               else (case next_dns_record h of
                  (None, h) \<Rightarrow> (None, h\<lparr>he_next_attempt_delay := None\<rparr>, w)
                | (Some record, h) \<Rightarrow>
                    (case join_spawn he record (he_connecting h) w of
                       (t, w) \<Rightarrow>
                         (case now he w of
                            (start, w) \<Rightarrow>
                              attempt_loop he (h\<lparr>he_connecting := t,
                                he_next_attempt_delay := Some (start + CONN_ATTEMPT_DELAY)\<rparr>) w)))))"
  by pat_completeness auto

termination
  by (relation "measure (\<lambda>(he, h, w). length (he_dns_received h))")
     (auto dest!: next_dns_record_length [OF sym])

definition he_is_terminated ::
    "('d, 't, 'k, 'i, 'w, 'y) he_ops_scheme \<Rightarrow> ('d, 't) happy_eyeballs \<Rightarrow> bool" where
  "he_is_terminated he h \<longleftrightarrow>
     he_dns h = None \<and> join_len he (he_connecting h) = 0 \<and> he_next_attempt_delay h = None"

definition he_poll_next ::
    "('d, 't, 'k, 'i, 'w, 'y) he_ops_scheme \<Rightarrow> ('d, 't) happy_eyeballs \<Rightarrow> 'w \<Rightarrow>
     (('i io_error + 'k) option poll \<times> ('d, 't) happy_eyeballs \<times> 'w) option" where
  "he_poll_next he h w = do {
     (h, w) \<leftarrow> drain_dns he h w;
     (case attempt_loop he h w of
        (Some maybe_conn, h, w) \<Rightarrow> Some (Ready (Some maybe_conn), h, w)
      | (None, h, w) \<Rightarrow>
          Some (if he_is_terminated he h then Ready None else Pending, h, w)) }"

definition he_size_hint ::
    "('d, 't, 'k, 'i, 'w, 'y) he_ops_scheme \<Rightarrow> ('d, 't) happy_eyeballs \<Rightarrow> usize \<times> usize option" where
  "he_size_hint he h =
     (case (case he_dns h of None \<Rightarrow> (0, Some 0) | Some d \<Rightarrow> dns_size_hint he d) of
        (low, high) \<Rightarrow>
          let held = of_nat (length (he_dns_received h) + join_len he (he_connecting h)) in
          (saturating_add low held, map_option (\<lambda>m. saturating_add m held) high))"

section \<open>\<open>connect\<close>\<close>

partial_function (option) he_connect_loop ::
    "('d, 't, 'k, 'i, 'w, 'y) he_ops_scheme \<Rightarrow> 'i io_error option \<Rightarrow> ('d, 't) happy_eyeballs \<Rightarrow> 'w \<Rightarrow>
     (('i io_error + 'k) \<times> 'w) option" where
  "he_connect_loop he last_err h w = do {
     (r, h, w) \<leftarrow> await (he_poll_next he) h w;
     (case r of
        Some (Inr conn) \<Rightarrow> Some (Ok conn, w)
      | Some (Inl err) \<Rightarrow> he_connect_loop he (Some err) h w
      | None \<Rightarrow> Some (Err (case last_err of None \<Rightarrow> InvalidInput | Some err \<Rightarrow> err), w)) }"

definition connect_tcp ::
    "('d, 't, 'k, 'i, 'w, 'y) he_ops_scheme \<Rightarrow> 't \<Rightarrow> server_addr \<Rightarrow> 'w \<Rightarrow> (('i io_error + 'k) \<times> 'w) option" where
  "connect_tcp he no_tasks addr w =
     (case host addr of
        Ip ip \<Rightarrow> Some (tcp_connect he (SocketAddr ip (port addr)) w)
      | Dns h \<Rightarrow>
          (case lookup_host he (h, port addr) w of
             (Inl err, w) \<Rightarrow> Some (Err err, w)
           | (Inr addrs, w) \<Rightarrow> he_connect_loop he None (happy_eyeballs_new no_tasks addrs) w))"

section \<open>The order of the attempts\<close>

lemma remove_kind_Some:
  "remove_kind k as = Some (r, rest) \<Longrightarrow>
    from_addr r = k \<and> (\<exists>xs ys. as = xs @ r # ys \<and> rest = xs @ ys \<and> (\<forall>a\<in>set xs. from_addr a \<noteq> k))"
proof (induction as arbitrary: rest)
  case (Cons a as)
  show ?case
  proof (cases "from_addr a = k")
    case True
    with Cons.prems show ?thesis by (auto intro: exI [of _ "[]"])
  next
    case False
    with Cons.prems obtain rest' where r: "remove_kind k as = Some (r, rest')" "rest = a # rest'"
      by (auto split: if_splits)
    with Cons.IH [OF r(1)] False show ?thesis by (metis append_Cons set_ConsD)
  qed
qed simp

lemma remove_kind_None: "remove_kind k as = None \<longleftrightarrow> (\<forall>a\<in>set as. from_addr a \<noteq> k)"
  by (induction as) auto

definition next_kind :: "('d, 't) happy_eyeballs \<Rightarrow> last_attempted" where
  "next_kind h = (case he_last_attempted h of None \<Rightarrow> Ipv6 | Some k \<Rightarrow> opposite k)"

lemma next_dns_record_None: "next_dns_record h = (None, h') \<longleftrightarrow> he_dns_received h = [] \<and> h' = h"
  by (auto simp: next_dns_record_def Let_def split: option.splits)

lemma next_dns_record_Some:
  assumes "next_dns_record h = (Some r, h')"
  shows "\<exists>xs ys. he_dns_received h = xs @ r # ys \<and>
    h' = h\<lparr>he_dns_received := xs @ ys, he_last_attempted := Some (from_addr r)\<rparr> \<and>
    (\<forall>a\<in>set xs. from_addr a \<noteq> from_addr r) \<and>
    (from_addr r = next_kind h \<or> (\<forall>a\<in>set (he_dns_received h). from_addr a \<noteq> next_kind h))"
proof (cases "remove_kind (next_kind h) (he_dns_received h)")
  case None
  from assms obtain a as where as: "he_dns_received h = a # as"
    by (cases "he_dns_received h") (auto simp: next_dns_record_def)
  with None assms have "r = a" "h' = h\<lparr>he_dns_received := as, he_last_attempted := Some (from_addr a)\<rparr>"
    by (auto simp: next_dns_record_def next_kind_def [symmetric] Let_def)
  with None as show ?thesis
    by (intro exI [of _ "[]"] exI [of _ as]) (auto simp: remove_kind_None)
next
  case (Some p)
  obtain q rest where p: "p = (q, rest)" by (cases p)
  from remove_kind_Some [OF Some [unfolded p]] assms Some p show ?thesis
    by (fastforce simp: next_dns_record_def next_kind_def [symmetric] Let_def split: if_splits)
qed

section \<open>Every record is tried once\<close>

text \<open>The records a resolver yields.\<close>

inductive dns_yields ::
    "('d, 't, 'k, 'i, 'w, 'y) he_ops_scheme \<Rightarrow> 'd option \<Rightarrow> 'w \<Rightarrow> socket_addr list \<Rightarrow> 'd option \<Rightarrow> 'w \<Rightarrow> bool"
  for he :: "('d, 't, 'k, 'i, 'w, 'y) he_ops_scheme" where
  none: "dns_yields he None w [] None w"
| pending: "dns_poll_next he d w = (Pending, d', w') \<Longrightarrow> dns_yields he (Some d) w [] (Some d') w'"
| yields: "dns_poll_next he d w = (Ready (Some a), d1, w1) \<Longrightarrow> dns_yields he (Some d1) w1 as d' w' \<Longrightarrow>
    dns_yields he (Some d) w (a # as) d' w'"
| ended: "dns_poll_next he d w = (Ready None, d1, w') \<Longrightarrow> dns_yields he (Some d) w [] None w'"

lemma drain_dns_yields:
  fixes he :: "('d, 't, 'k, 'i, 'w, 'y) he_ops_scheme"
  assumes "drain_dns he h w = Some (h', w')"
  shows "\<exists>as d'. dns_yields he (he_dns h) w as d' w' \<and>
    h' = h\<lparr>he_dns := d', he_dns_received := he_dns_received h @ as\<rparr>"
proof -
  have "\<exists>as d'. dns_yields he (he_dns h) w as d' (snd (h', w')) \<and>
      fst (h', w') = h\<lparr>he_dns := d', he_dns_received := he_dns_received h @ as\<rparr>"
    using assms
  proof (rule drain_dns.raw_induct [where P = "\<lambda>he h w r. \<exists>as d'. dns_yields he (he_dns h) w as d' (snd r) \<and>
      fst r = h\<lparr>he_dns := d', he_dns_received := he_dns_received h @ as\<rparr>", rotated])
    fix dr :: "('d, 't, 'k, 'i, 'w, 'y) he_ops_scheme \<Rightarrow> ('d, 't) happy_eyeballs \<Rightarrow> 'w \<Rightarrow>
        (('d, 't) happy_eyeballs \<times> 'w) option"
      and he :: "('d, 't, 'k, 'i, 'w, 'y) he_ops_scheme" and h w r
    assume IH: "\<And>he h w r. dr he h w = Some r \<Longrightarrow> \<exists>as d'. dns_yields he (he_dns h) w as d' (snd r) \<and>
        fst r = h\<lparr>he_dns := d', he_dns_received := he_dns_received h @ as\<rparr>"
      and body: "(case he_dns h of
          None \<Rightarrow> Some (h, w)
        | Some d \<Rightarrow>
            (case dns_poll_next he d w of
               (Pending, d, w) \<Rightarrow> Some (h\<lparr>he_dns := Some d\<rparr>, w)
             | (Ready None, d, w) \<Rightarrow> dr he (h\<lparr>he_dns := None\<rparr>) w
             | (Ready (Some record), d, w) \<Rightarrow>
                 dr he (h\<lparr>he_dns := Some d, he_dns_received := he_dns_received h @ [record]\<rparr>) w)) = Some r"
    show "\<exists>as d'. dns_yields he (he_dns h) w as d' (snd r) \<and>
        fst r = h\<lparr>he_dns := d', he_dns_received := he_dns_received h @ as\<rparr>"
    proof (cases "he_dns h")
      case None
      with body show ?thesis by (intro exI [of _ "[]"] exI [of _ None]) (auto intro: dns_yields.none)
    next
      case (Some d)
      obtain q d1 w1 where q: "dns_poll_next he d w = (q, d1, w1)" by (cases "dns_poll_next he d w")
      consider "q = Pending" | a where "q = Ready (Some a)" | "q = Ready None"
        by (cases q) (metis option.exhaust)+
      then show ?thesis
      proof cases
        case 1
        with body Some q show ?thesis
          by (intro exI [of _ "[]"] exI [of _ "Some d1"]) (auto intro: dns_yields.pending)
      next
        case (2 a)
        with body Some q have "dr he (h\<lparr>he_dns := Some d1, he_dns_received := he_dns_received h @ [a]\<rparr>) w1 = Some r" by simp
        from IH [OF this] obtain as d' where "dns_yields he (Some d1) w1 as d' (snd r)"
            "fst r = h\<lparr>he_dns := d', he_dns_received := he_dns_received h @ a # as\<rparr>" by auto
        with dns_yields.yields [OF q [unfolded 2]] Some show ?thesis
          by (intro exI [of _ "a # as"] exI [of _ d']) auto
      next
        case 3
        with body Some q have "dr he (h\<lparr>he_dns := None\<rparr>) w1 = Some r" by simp
        from IH [OF this] obtain as d' where "dns_yields he None w1 as d' (snd r)"
            "fst r = h\<lparr>he_dns := d', he_dns_received := he_dns_received h @ as\<rparr>" by auto
        then have "as = [] \<and> d' = None \<and> snd r = w1" by (auto elim: dns_yields.cases)
        with dns_yields.ended [OF q [unfolded 3]] Some \<open>fst r = _\<close> show ?thesis
          by (intro exI [of _ "[]"] exI [of _ None]) auto
      qed
    qed
  qed
  then show ?thesis by simp
qed

text \<open>What tokio documents of a \<open>JoinSet\<close>: a spawn adds one task, and waiting for one starts none;
  \<open>started\<close> are the addresses ever spawned.\<close>

definition join_set_ok ::
    "('d, 't, 'k, 'i, 'w, 'y) he_ops_scheme \<Rightarrow> ('t \<Rightarrow> socket_addr list) \<Rightarrow> bool" where
  "join_set_ok he started \<longleftrightarrow>
     (\<forall>a t w. started (fst (join_spawn he a t w)) = started t @ [a]) \<and>
     (\<forall>t w. started (fst (snd (join_next he t w))) = started t)"

definition accounted :: "('t \<Rightarrow> socket_addr list) \<Rightarrow> ('d, 't) happy_eyeballs \<Rightarrow> socket_addr multiset" where
  "accounted started h = mset (started (he_connecting h)) + mset (he_dns_received h)"

lemma next_dns_record_accounted:
  "next_dns_record h = (Some r, h') \<Longrightarrow> add_mset r (mset (he_dns_received h')) = mset (he_dns_received h) \<and>
    he_connecting h' = he_connecting h \<and> he_dns h' = he_dns h"
  by (auto dest!: next_dns_record_Some)

text \<open>One turn of the loop.\<close>

lemma attempt_loop_turn:
  obtains c t w1 where "join_next he (he_connecting h) w = (Ready (Some c), t, w1)"
      "attempt_loop he h w = (Some c, h\<lparr>he_connecting := t\<rparr>, w1)"
  | q t w1 d w2 where "join_next he (he_connecting h) w = (q, t, w1)" "d \<noteq> None"
      "attempt_loop he h w = (None, h\<lparr>he_connecting := t, he_next_attempt_delay := d\<rparr>, w2)"
  | q t w1 w2 where "join_next he (he_connecting h) w = (q, t, w1)" "he_dns_received h = []"
      "attempt_loop he h w = (None, h\<lparr>he_connecting := t, he_next_attempt_delay := None\<rparr>, w2)"
  | q t w1 d a h1 t2 w2 w3 start w4 where "join_next he (he_connecting h) w = (q, t, w1)"
      "next_dns_record (h\<lparr>he_connecting := t, he_next_attempt_delay := d\<rparr>) = (Some a, h1)"
      "join_spawn he a (he_connecting h1) w2 = (t2, w3)" "now he w3 = (start, w4)"
      "attempt_loop he h w = attempt_loop he (h1\<lparr>he_connecting := t2,
         he_next_attempt_delay := Some (start + CONN_ATTEMPT_DELAY)\<rparr>) w4"
proof -
  obtain q t w1 where q: "join_next he (he_connecting h) w = (q, t, w1)" by (cases "join_next he (he_connecting h) w")
  obtain proceed d w2 where d: "(if q = Pending then poll_delay he (he_next_attempt_delay h) w1
      else (True, he_next_attempt_delay h, w1)) = (proceed, d, w2)"
    by (cases "if q = Pending then poll_delay he (he_next_attempt_delay h) w1 else (True, he_next_attempt_delay h, w1)")
  let ?h = "h\<lparr>he_connecting := t, he_next_attempt_delay := d\<rparr>"
  obtain x h1 where n: "next_dns_record ?h = (x, h1)" by (cases "next_dns_record ?h")
  have eq: "attempt_loop he h w =
      (if \<not> proceed then (None, ?h, w2)
       else case x of None \<Rightarrow> (None, h1\<lparr>he_next_attempt_delay := None\<rparr>, w2)
          | Some a \<Rightarrow> (case join_spawn he a (he_connecting h1) w2 of (t, w) \<Rightarrow>
              case now he w of (start, w) \<Rightarrow>
                attempt_loop he (h1\<lparr>he_connecting := t, he_next_attempt_delay := Some (start + CONN_ATTEMPT_DELAY)\<rparr>) w))"
    if "\<forall>c. q \<noteq> Ready (Some c)"
    using that q d n
    by (cases q) (auto simp: attempt_loop.simps [of he h w] Let_def simp del: attempt_loop.simps split: option.split)
  consider c where "q = Ready (Some c)" | "\<forall>c. q \<noteq> Ready (Some c)" "\<not> proceed"
    | "\<forall>c. q \<noteq> Ready (Some c)" "proceed" "x = None"
    | a where "\<forall>c. q \<noteq> Ready (Some c)" "proceed" "x = Some a"
    by (cases x) auto
  then show thesis
  proof cases
    case (1 c)
    with q that(1) show thesis by (simp add: attempt_loop.simps [of he h w] del: attempt_loop.simps)
  next
    case 2
    then have "d \<noteq> None" using d
      by (auto simp: poll_delay_def split: if_splits option.splits prod.splits) (metis option.exhaust)?
    with eq 2 q that(2) [of q t w1 d w2] show thesis by (simp del: attempt_loop.simps)
  next
    case 3
    then have h1: "h1 = ?h" "he_dns_received h = []" using n by (simp_all add: next_dns_record_None)
    with eq 3 q that(3) [of q t w1 w2] show thesis by (simp del: attempt_loop.simps)
  next
    case (4 a)
    obtain t2 w3 start w4 where s: "join_spawn he a (he_connecting h1) w2 = (t2, w3)" "now he w3 = (start, w4)"
      by (cases "join_spawn he a (he_connecting h1) w2") (metis surj_pair)
    from eq 4 s q n that(4) [of q t w1 d a h1 w2 t2 w3 start w4] show thesis by (simp del: attempt_loop.simps)
  qed
qed

declare attempt_loop.simps [simp del]

lemma attempt_loop_accounted:
  assumes ok: "join_set_ok he started" and "attempt_loop he h w = (r, h', w')"
  shows "accounted started h' = accounted started h \<and> he_dns h' = he_dns h \<and>
    (r = None \<longrightarrow> he_next_attempt_delay h' = None \<longrightarrow> he_dns_received h' = [])"
  using assms(2)
proof (induction "length (he_dns_received h)" arbitrary: h w rule: less_induct)
  case less
  have j: "started t = started (he_connecting h)" if "join_next he (he_connecting h) w = (q, t, w1)" for q t w1
    using ok that by (metis join_set_ok_def fst_conv snd_conv)
  show ?case
  proof (cases rule: attempt_loop_turn [of he h w])
    case (4 q t w1 d a h1 t2 w2 w3 start w4)
    let ?h = "h1\<lparr>he_connecting := t2, he_next_attempt_delay := Some (start + CONN_ATTEMPT_DELAY)\<rparr>"
    note a = next_dns_record_accounted [OF 4(2)] next_dns_record_length [OF 4(2)]
    have "started t2 = started (he_connecting h1) @ [a]"
      using ok 4(3) by (metis join_set_ok_def fst_conv)
    with a j [OF 4(1)] have "accounted started ?h = accounted started h" by (simp add: accounted_def)
    with less.hyps [of ?h w4] less.prems 4(5) a show ?thesis by simp
  qed (use less.prems j in \<open>auto simp: accounted_def\<close>)
qed

text \<open>A run of polls: their results, and the records the resolver yielded meanwhile.\<close>

inductive he_run ::
    "('d, 't, 'k, 'i, 'w, 'y) he_ops_scheme \<Rightarrow> ('d, 't) happy_eyeballs \<Rightarrow>
     ('i io_error + 'k) option poll list \<Rightarrow> socket_addr list \<Rightarrow> ('d, 't) happy_eyeballs \<Rightarrow> bool"
  for he :: "('d, 't, 'k, 'i, 'w, 'y) he_ops_scheme" and h where
  start: "he_run he h [] [] h"
| poll: "he_run he h rs as h1 \<Longrightarrow> drain_dns he h1 w = Some (h2, w2) \<Longrightarrow>
    he_dns_received h2 = he_dns_received h1 @ bs \<Longrightarrow> he_poll_next he h1 w = Some (r, h3, w3) \<Longrightarrow>
    he_run he h (rs @ [r]) (as @ bs) h3"

lemma he_poll_next_accounted:
  assumes ok: "join_set_ok he started" and dr: "drain_dns he h w = Some (h2, w2)"
    and new: "he_dns_received h2 = he_dns_received h @ bs" and p: "he_poll_next he h w = Some (r, h3, w3)"
  shows "accounted started h3 = accounted started h + mset bs"
    and "r = Ready None \<Longrightarrow> he_dns h3 = None \<and> join_len he (he_connecting h3) = 0 \<and> he_dns_received h3 = []"
    and "r = Pending \<Longrightarrow> \<not> he_is_terminated he h3"
proof -
  obtain x h4 w4 where x: "attempt_loop he h2 w2 = (x, h4, w4)" by (cases "attempt_loop he h2 w2")
  have "he_connecting h2 = he_connecting h" using drain_dns_yields [OF dr] by auto
  then have acc: "accounted started h2 = accounted started h + mset bs" using new by (simp add: accounted_def)
  note a = attempt_loop_accounted [OF ok x]
  have h3: "h3 = h4" "r = (case x of Some c \<Rightarrow> Ready (Some c) | None \<Rightarrow> if he_is_terminated he h4 then Ready None else Pending)"
    using p dr x by (auto simp: he_poll_next_def split: option.splits)
  with a acc show "accounted started h3 = accounted started h + mset bs" by simp
  show "r = Ready None \<Longrightarrow> he_dns h3 = None \<and> join_len he (he_connecting h3) = 0 \<and> he_dns_received h3 = []"
    using h3 a by (auto simp: he_is_terminated_def split: option.splits if_splits)
  show "r = Pending \<Longrightarrow> \<not> he_is_terminated he h3" using h3 by (auto split: option.splits if_splits)
qed

lemma he_run_accounted:
  assumes ok: "join_set_ok he started" and "he_run he h rs as h'"
  shows "accounted started h' = accounted started h + mset as"
    and "rs \<noteq> [] \<Longrightarrow> last rs = Ready None \<Longrightarrow> he_dns_received h' = []"
proof -
  show "accounted started h' = accounted started h + mset as"
    using assms(2) by (induction) (simp_all add: he_poll_next_accounted(1) [OF ok] union_ac)
  show "rs \<noteq> [] \<Longrightarrow> last rs = Ready None \<Longrightarrow> he_dns_received h' = []"
    using assms(2) by cases (auto dest: he_poll_next_accounted(2) [OF ok])
qed

text \<open>The next address tried is the first received of its family, and its family is the one not tried last
  (IPv6 at the start) unless no address of that family is waiting; the others keep their order.\<close>

lemma attempts_alternate:
  assumes "next_dns_record h = (Some r, h')"
  shows "\<exists>xs ys. he_dns_received h = xs @ r # ys \<and> he_dns_received h' = xs @ ys \<and>
    he_last_attempted h' = Some (from_addr r) \<and> (\<forall>a\<in>set xs. from_addr a \<noteq> from_addr r) \<and>
    (from_addr r = (case he_last_attempted h of None \<Rightarrow> Ipv6 | Some k \<Rightarrow> opposite k) \<or>
     (\<forall>a\<in>set (he_dns_received h). from_addr a \<noteq> (case he_last_attempted h of None \<Rightarrow> Ipv6 | Some k \<Rightarrow> opposite k)))"
  using next_dns_record_Some [OF assms] unfolding next_kind_def by fastforce

section \<open>Properties\<close>



end
