(* ===== verification/Quick_Info.thy ===== *)
theory Quick_Info
  imports Prelude
begin

text \<open>
  \<open>watermelon/src/client/quick_info.rs\<close>: the flags of a connection, packed in a 32 bit word that is
  shared by the handler task and the clients. A single atomic operation is one function on the word;
  \<open>store\<close> is two of them, a load and a store, between which other threads may run.
\<close>

unbundle bit_operations_syntax

definition IS_CONNECTED :: u32 where "IS_CONNECTED = push_bit 0 1"
definition IS_ZSTD_COMPRESSED :: u32 where "IS_ZSTD_COMPRESSED = push_bit 1 1"
definition IS_LAMEDUCK :: u32 where "IS_LAMEDUCK = push_bit 2 1"
definition IS_FAILED_UNSUBSCRIBE :: u32 where "IS_FAILED_UNSUBSCRIBE = push_bit 31 1"

lemmas quick_info_masks =
  IS_CONNECTED_def IS_ZSTD_COMPRESSED_def IS_LAMEDUCK_def IS_FAILED_UNSUBSCRIBE_def

record quick_info =
  is_connected :: bool
  is_zstd_compressed :: bool
  is_lameduck :: bool
  is_failed_unsubscribe :: bool

definition quick_info_encode :: "quick_info \<Rightarrow> u32" where
  "quick_info_encode q =
     (let val = 0;
          val = (if is_connected q then val OR IS_CONNECTED else val);
          val = (if is_zstd_compressed q then val OR IS_ZSTD_COMPRESSED else val);
          val = (if is_lameduck q then val OR IS_LAMEDUCK else val);
          val = (if is_failed_unsubscribe q then val OR IS_FAILED_UNSUBSCRIBE else val) in val)"

definition quick_info_decode :: "u32 \<Rightarrow> quick_info" where
  "quick_info_decode val =
     \<lparr> is_connected = (val AND IS_CONNECTED \<noteq> 0),
       is_zstd_compressed = (val AND IS_ZSTD_COMPRESSED \<noteq> 0),
       is_lameduck = (val AND IS_LAMEDUCK \<noteq> 0),
       is_failed_unsubscribe = (val AND IS_FAILED_UNSUBSCRIBE \<noteq> 0) \<rparr>"

section \<open>The shared word\<close>

type_synonym raw_quick_info = u32

definition raw_quick_info_new :: raw_quick_info where
  "raw_quick_info_new = quick_info_encode
     \<lparr> is_connected = False, is_zstd_compressed = False, is_lameduck = False,
       is_failed_unsubscribe = False \<rparr>"

definition quick_info_get :: "raw_quick_info \<Rightarrow> quick_info" where
  "quick_info_get r = quick_info_decode r"

text \<open>\<open>fetch_or\<close> and \<open>fetch_and\<close>, each one atomic step; the assertion is on constants.\<close>

definition store_bit :: "u32 \<Rightarrow> bool \<Rightarrow> raw_quick_info \<Rightarrow> raw_quick_info" where
  "store_bit bits val r = (if val then r OR bits else r AND NOT bits)"

definition store_is_connected :: "bool \<Rightarrow> raw_quick_info \<Rightarrow> raw_quick_info" where
  "store_is_connected = store_bit IS_CONNECTED"

definition store_is_lameduck :: "bool \<Rightarrow> raw_quick_info \<Rightarrow> raw_quick_info" where
  "store_is_lameduck = store_bit IS_LAMEDUCK"

definition store_is_failed_unsubscribe :: "bool \<Rightarrow> raw_quick_info \<Rightarrow> raw_quick_info" where
  "store_is_failed_unsubscribe = store_bit IS_FAILED_UNSUBSCRIBE"

text \<open>The second step of \<open>store\<close> writes what was computed from an earlier load.\<close>

definition quick_info_store_from :: "(quick_info \<Rightarrow> quick_info) \<Rightarrow> raw_quick_info \<Rightarrow> raw_quick_info" where
  "quick_info_store_from f loaded = quick_info_encode (f (quick_info_get loaded))"

definition quick_info_store :: "(quick_info \<Rightarrow> quick_info) \<Rightarrow> raw_quick_info \<Rightarrow> raw_quick_info" where
  "quick_info_store f r = quick_info_store_from f r"

section \<open>Flags\<close>

lemma and_mask_bit: "v AND push_bit n 1 \<noteq> 0 \<longleftrightarrow> bit v n" for v :: u32
  by (simp add: bit_iff_and_push_bit_not_eq_0)

lemma quick_info_decode_bits:
  "quick_info_decode v = \<lparr> is_connected = bit v 0, is_zstd_compressed = bit v 1, is_lameduck = bit v 2,
     is_failed_unsubscribe = bit v 31 \<rparr>"
  by (simp only: quick_info_decode_def quick_info_masks and_mask_bit)

lemma bit_flag:
  "m < 32 \<Longrightarrow> bit (if b then v OR push_bit m 1 else v) n \<longleftrightarrow> n = m \<and> b \<or> bit v n" for v :: u32
  by (cases b) (auto simp: bit_or_iff bit_push_bit_iff bit_1_iff simp del: push_bit_of_1)

lemma bit_quick_info_encode:
  "bit (quick_info_encode q) n \<longleftrightarrow> n = 31 \<and> is_failed_unsubscribe q \<or> n = 2 \<and> is_lameduck q \<or>
     n = 1 \<and> is_zstd_compressed q \<or> n = 0 \<and> is_connected q"
proof -
  have "(0 :: nat) < 32" "(1 :: nat) < 32" "(2 :: nat) < 32" "(31 :: nat) < 32" by simp_all
  note flags = this [THEN bit_flag]
  show ?thesis
    unfolding quick_info_encode_def Let_def quick_info_masks flags by simp
qed

lemma decode_encode: "quick_info_decode (quick_info_encode q) = q"
  by (simp add: quick_info_decode_bits bit_quick_info_encode)

lemma bit_store_bit:
  "m < 32 \<Longrightarrow> n < 32 \<Longrightarrow> bit (store_bit (push_bit m 1) val r) n \<longleftrightarrow> (if n = m then val else bit r n)"
  by (auto simp: store_bit_def bit_or_iff bit_and_iff bit_not_iff bit_push_bit_iff bit_1_iff
      simp del: push_bit_of_1)

lemma get_store_bits [simp]:
  "quick_info_get (store_is_connected b r) = (quick_info_get r)\<lparr>is_connected := b\<rparr>"
  "quick_info_get (store_is_lameduck b r) = (quick_info_get r)\<lparr>is_lameduck := b\<rparr>"
  "quick_info_get (store_is_failed_unsubscribe b r) = (quick_info_get r)\<lparr>is_failed_unsubscribe := b\<rparr>"
  by (simp_all add: quick_info_get_def quick_info_decode_bits store_is_connected_def store_is_lameduck_def
      store_is_failed_unsubscribe_def quick_info_masks bit_store_bit
      bit_store_bit [of 0, simplified] del: push_bit_of_1)

lemma get_store: "quick_info_get (quick_info_store f r) = f (quick_info_get r)"
  by (simp add: quick_info_store_def quick_info_store_from_def quick_info_get_def decode_encode)

section \<open>Interleaving\<close>

text \<open>The atomic steps of two threads on the word: the handler's \<open>store\<close> is a load into a local
  followed by a store, a client's \<open>store_bit\<close> is one step.\<close>

datatype atomic_step =
    Load
  | Store_From "quick_info \<Rightarrow> quick_info"
  | Fetch_Bit u32 bool

fun atomic_exec :: "atomic_step \<Rightarrow> raw_quick_info \<times> raw_quick_info \<Rightarrow> raw_quick_info \<times> raw_quick_info" where
  "atomic_exec Load (r, local) = (r, r)"
| "atomic_exec (Store_From f) (r, local) = (quick_info_store_from f local, local)"
| "atomic_exec (Fetch_Bit m b) (r, local) = (store_bit m b r, local)"

definition atomic_run :: "atomic_step list \<Rightarrow> raw_quick_info \<Rightarrow> raw_quick_info" where
  "atomic_run steps r = fst (fold atomic_exec steps (r, r))"

lemma atomic_run_store: "atomic_run [Load, Store_From f] r = quick_info_store f r"
  by (simp add: atomic_run_def quick_info_store_def)

text \<open>The handler's update on connecting, and what each interleaving with a client that records a failed
  unsubscribe leaves behind.\<close>

definition connected_update :: "bool \<Rightarrow> quick_info \<Rightarrow> quick_info" where
  "connected_update zstd q = q\<lparr>is_connected := True, is_zstd_compressed := zstd, is_lameduck := False\<rparr>"

lemma store_interleavings:
  fixes zstd :: bool
  defines "fail \<equiv> Fetch_Bit IS_FAILED_UNSUBSCRIBE True"
    and "upd \<equiv> Store_From (connected_update zstd)"
  shows "is_failed_unsubscribe (quick_info_get (atomic_run [fail, Load, upd] r))"
    and "is_failed_unsubscribe (quick_info_get (atomic_run [Load, upd, fail] r))"
    and "is_failed_unsubscribe (quick_info_get (atomic_run [Load, fail, upd] r)) \<longleftrightarrow>
      is_failed_unsubscribe (quick_info_get r)"
proof -
  have g: "quick_info_get (quick_info_store_from f r) = f (quick_info_get r)" for f r
    by (simp add: quick_info_store_from_def quick_info_get_def decode_encode)
  show "is_failed_unsubscribe (quick_info_get (atomic_run [fail, Load, upd] r))"
    and "is_failed_unsubscribe (quick_info_get (atomic_run [Load, upd, fail] r))"
    and "is_failed_unsubscribe (quick_info_get (atomic_run [Load, fail, upd] r)) \<longleftrightarrow>
      is_failed_unsubscribe (quick_info_get r)"
    using get_store_bits(3) [of True, unfolded store_is_failed_unsubscribe_def]
    by (simp_all add: fail_def upd_def atomic_run_def g connected_update_def)
qed

text \<open>The update of the flags when a connection is made is a load followed by a store: a failed
  unsubscribe recorded before or after both is kept, but one recorded between them is lost.\<close>

lemma store_loses_update:
  "is_failed_unsubscribe (quick_info_get (atomic_run
     [Fetch_Bit IS_FAILED_UNSUBSCRIBE True, Load, Store_From (connected_update zstd)] r)) \<and>
   is_failed_unsubscribe (quick_info_get (atomic_run
     [Load, Store_From (connected_update zstd), Fetch_Bit IS_FAILED_UNSUBSCRIBE True] r)) \<and>
   \<not> is_failed_unsubscribe (quick_info_get (atomic_run
     [Load, Fetch_Bit IS_FAILED_UNSUBSCRIBE True, Store_From (connected_update zstd)] raw_quick_info_new))"
proof -
  have "\<not> is_failed_unsubscribe (quick_info_get raw_quick_info_new)"
    by (simp add: raw_quick_info_new_def quick_info_get_def decode_encode)
  then show ?thesis by (simp only: store_interleavings not_False_eq_True simp_thms)
qed

text \<open>The flags of a connection packed in 32 bits are read back unchanged, a store of one flag changes
  that flag alone, and an update sees and replaces the flags as a whole.\<close>

lemma quick_info_round_trip:
  "quick_info_decode (quick_info_encode q) = q \<and>
   quick_info_get (store_is_connected b r) = (quick_info_get r)\<lparr>is_connected := b\<rparr> \<and>
   quick_info_get (store_is_lameduck b r) = (quick_info_get r)\<lparr>is_lameduck := b\<rparr> \<and>
   quick_info_get (store_is_failed_unsubscribe b r) = (quick_info_get r)\<lparr>is_failed_unsubscribe := b\<rparr> \<and>
   quick_info_get (quick_info_store g r) = g (quick_info_get r)"
  by (simp add: decode_encode get_store)

end
