(* ===== verification/Handler.thy ===== *)
theory Handler
  imports Proto_Types Quick_Info Timers
begin

text \<open>
  \<open>watermelon/src/handler/mod.rs\<close>: the task that owns a connection. Its state is the record \<open>handler\<close>;
  what it calls is in \<open>env\<close>: the connection (a dictionary of the operations of
  \<open>watermelon_net::Connection\<close>, on a type \<open>'c\<close>), and tokio's channels, clock and budget, which act on a
  world \<open>'w\<close>. Senders of a subscription have type \<open>'s\<close>, oneshot senders of a multiplexed request \<open>'o\<close>.
  \<open>None\<close> is a panic, or a loop that never ends.
\<close>

section \<open>Data\<close>

datatype try_send_result = Sent | Full | Closed

record 's subscription =
  sub_subject :: subject
  sub_queue_group :: "queue_group option"
  messages :: 's
  remaining :: "u64 option"
  failed_subscribe :: bool

datatype ('s, 'o) handler_command =
    Cmd_Publish message_base
  | Cmd_RequestMultiplexed subject subject header_map bytes 'o
  | Cmd_UnsubscribeMultiplexed subject
  | Cmd_Subscribe subscription_id subject "queue_group option" 's
  | Cmd_Unsubscribe subscription_id "u64 option"

datatype in_flight_command = Unimportant | In_Subscribe subscription_id

datatype handler_output = ServerError | UnexpectedState | Disconnected | Out_Closed

datatype receive_outcome = NoMoreCommands | NoMoreSpace

record ('c, 's, 'o) handler =
  conn :: 'c
  h_info :: "server_info option"
  h_quick_info :: raw_quick_info
  delayed_write :: delayed
  writing :: bool
  flushing :: bool
  shutting_down :: bool
  h_pinger :: pinger
  recv_buf :: "('s, 'o) handler_command list"
  in_flight_commands :: "in_flight_command list"
  multiplexed_subscription_prefix :: subject
  multiplexed_subscriptions :: "(subject, 'o) btree_map option"
  subscriptions :: "(subscription_id, 's subscription) btree_map"

record 's recycled_handler =
  r_info :: "server_info option"
  r_quick_info :: raw_quick_info
  r_multiplexed_subscription_prefix :: subject
  r_subscriptions :: "(subscription_id, 's subscription) btree_map"

text \<open>The environment. \<open>poll_read_next\<close> and \<open>poll_write_next\<close> give an error as \<open>Inl ()\<close>: the handler does
  not look at it. \<open>poll_recv_many\<close> gives the commands it appended to the buffer.\<close>

record ('c, 's, 'o, 'w) env = "'w clock_ops" +
  enqueue_write_op :: "client_op \<Rightarrow> 'c \<Rightarrow> 'c option"
  may_enqueue_more_ops :: "'c \<Rightarrow> 'w \<Rightarrow> (bool \<times> 'c \<times> 'w) option"
  poll_read_next :: "'c \<Rightarrow> 'w \<Rightarrow> ((unit + server_op) poll \<times> 'c \<times> 'w) option"
  is_streaming :: "'c \<Rightarrow> bool"
  may_write :: "'c \<Rightarrow> bool option"
  poll_write_next :: "'c \<Rightarrow> 'w \<Rightarrow> ((unit + nat) poll \<times> 'c \<times> 'w) option"
  should_flush :: "'c \<Rightarrow> bool"
  poll_flush :: "'c \<Rightarrow> 'w \<Rightarrow> ((unit + unit) poll \<times> 'c \<times> 'w) option"
  try_send :: "'s \<Rightarrow> server_error + server_message \<Rightarrow> 'w \<Rightarrow> try_send_result \<times> 'w"
  is_closed :: "'s \<Rightarrow> 'w \<Rightarrow> bool"
  oneshot_send :: "'o \<Rightarrow> server_message \<Rightarrow> 'w \<Rightarrow> 'w"
  oneshot_is_closed :: "'o \<Rightarrow> 'w \<Rightarrow> bool"
  poll_recv_many :: "nat \<Rightarrow> 'w \<Rightarrow> ('s, 'o) handler_command list poll \<times> 'w"
  close_commands :: "'w \<Rightarrow> 'w"
  poll_shutdown :: "'w \<Rightarrow> bool \<times> 'w"
  has_budget_remaining :: "'w \<Rightarrow> bool"

definition MULTIPLEXED_SUBSCRIPTION_ID :: subscription_id where
  "MULTIPLEXED_SUBSCRIPTION_ID = subscription_id_min"

definition RECV_BUF :: nat where "RECV_BUF = 16"

definition sub_key :: "subscription_id \<Rightarrow> subscription_id" where "sub_key i = i"

text \<open>Enqueue an operation on the connection of the handler, and remember what the server will answer.\<close>

definition h_enqueue ::
    "('c, 's, 'o, 'w, 'z) env_scheme \<Rightarrow> client_op \<Rightarrow> ('c, 's, 'o) handler \<Rightarrow> ('c, 's, 'o) handler option" where
  "h_enqueue e op h = map_option (\<lambda>c. h\<lparr>conn := c\<rparr>) (enqueue_write_op e op (conn h))"

definition push_in_flight :: "in_flight_command \<Rightarrow> ('c, 's, 'o) handler \<Rightarrow> ('c, 's, 'o) handler" where
  "push_in_flight c h = h\<lparr>in_flight_commands := in_flight_commands h @ [c]\<rparr>"

section \<open>Server operations\<close>

text \<open>\<open>NonZero::new(remaining.get() - 1)\<close>.\<close>

definition dec_remaining :: "u64 \<Rightarrow> u64 option" where
  "dec_remaining r = (if r - 1 = 0 then None else Some (r - 1))"

definition handle_message ::
    "('c, 's, 'o, 'w, 'z) env_scheme \<Rightarrow> server_message \<Rightarrow> ('c, 's, 'o) handler \<Rightarrow> 'w \<Rightarrow>
     (('c, 's, 'o) handler \<times> 'w) option" where
  "handle_message e message h w =
     (let sid = subscription_id message in
      case bt_get sub_key sid (subscriptions h) of
        None \<Rightarrow> Some (h, w)
      | Some sub \<Rightarrow>
          (case try_send e (messages sub) (Ok message) w of (r, w) \<Rightarrow>
             if r = Closed then do {
               h \<leftarrow> h_enqueue e (C_Unsubscribe sid None) (push_in_flight Unimportant h);
               Some (h, w) }
             else (case remaining sub of
                 None \<Rightarrow> Some (h, w)
               | Some rem \<Rightarrow> (case dec_remaining rem of
                     Some new_remaining \<Rightarrow>
                       Some (h\<lparr>subscriptions := bt_insert sub_key sid
                         (sub\<lparr>remaining := Some new_remaining\<rparr>) (subscriptions h)\<rparr>, w)
                   | None \<Rightarrow> Some (h\<lparr>subscriptions := bt_remove sub_key sid (subscriptions h)\<rparr>, w)))))"

definition handle_multiplexed ::
    "('c, 's, 'o, 'w, 'z) env_scheme \<Rightarrow> server_message \<Rightarrow> ('c, 's, 'o) handler \<Rightarrow> 'w \<Rightarrow>
     (('c, 's, 'o) handler \<times> 'w) option" where
  "handle_multiplexed e message h w =
     (case multiplexed_subscriptions h of
        None \<Rightarrow> Some (h, w)
      | Some m \<Rightarrow>
          (let subject = msg_subject (base message) in
           case bt_get subject_as_str subject m of
             Some sender \<Rightarrow>
               Some (h\<lparr>multiplexed_subscriptions := Some (bt_remove subject_as_str subject m)\<rparr>,
                 oneshot_send e sender message w)
           | None \<Rightarrow> Some (h, w)))"

text \<open>A non-fatal error answers the oldest command in flight; a subscription it rejects gets the error.\<close>

definition handle_soft_error ::
    "('c, 's, 'o, 'w, 'z) env_scheme \<Rightarrow> server_error \<Rightarrow> ('c, 's, 'o) handler \<Rightarrow> 'w \<Rightarrow>
     (handler_output option \<times> ('c, 's, 'o) handler \<times> 'w) option" where
  "handle_soft_error e error h w =
     (case in_flight_commands h of
        [] \<Rightarrow> Some (Some UnexpectedState, h, w)
      | cmd # cmds \<Rightarrow>
          let h = h\<lparr>in_flight_commands := cmds\<rparr> in
          (case cmd of
             Unimportant \<Rightarrow> Some (None, h, w)
           | In_Subscribe sid \<Rightarrow>
               (case bt_get sub_key sid (subscriptions h) of
                  None \<Rightarrow> Some (None, h, w)
                | Some sub \<Rightarrow>
                    let h = h\<lparr>subscriptions := bt_remove sub_key sid (subscriptions h)\<rparr> in
                    (case try_send e (messages sub) (Err error) w of (r, w) \<Rightarrow>
                       if r = Full then
                         Some (None, h\<lparr>subscriptions :=
                             bt_insert sub_key sid (sub\<lparr>failed_subscribe := True\<rparr>) (subscriptions h),
                           h_quick_info := store_is_failed_unsubscribe True (h_quick_info h)\<rparr>, w)
                       else Some (None, h, w)))))"

fun handle_server_op ::
    "('c, 's, 'o, 'w, 'z) env_scheme \<Rightarrow> server_op \<Rightarrow> ('c, 's, 'o) handler \<Rightarrow> 'w \<Rightarrow>
     (handler_output option \<times> ('c, 's, 'o) handler \<times> 'w) option" where
  "handle_server_op e (S_Message message) h w =
     (if subscription_id message = MULTIPLEXED_SUBSCRIPTION_ID
      then map_option (Pair None) (handle_multiplexed e message h w)
      else map_option (Pair None) (handle_message e message h w))"
| "handle_server_op e S_Success h w =
     (case in_flight_commands h of
        [] \<Rightarrow> Some (Some UnexpectedState, h, w)
      | _ # cmds \<Rightarrow> Some (None, h\<lparr>in_flight_commands := cmds\<rparr>, w))"
| "handle_server_op e (S_Error error) h w =
     (if is_fatal error = Some False then handle_soft_error e error h w
      else Some (Some ServerError, h, w))"
| "handle_server_op e S_Ping h w = do { h \<leftarrow> h_enqueue e C_Pong h; Some (None, h, w) }"
| "handle_server_op e S_Pong h w = Some (None, h\<lparr>h_pinger := handle_pong (h_pinger h)\<rparr>, w)"
| "handle_server_op e (S_Info info) h w =
     Some (None, h\<lparr>h_quick_info := store_is_lameduck (lame_duck_mode info) (h_quick_info h),
       h_info := Some info\<rparr>, w)"

section \<open>Failed unsubscribes and shutdown\<close>

datatype close_reason = FailedSubscribe | Dropped

definition close_reason_of ::
    "('c, 's, 'o, 'w, 'z) env_scheme \<Rightarrow> 'w \<Rightarrow> 's subscription \<Rightarrow> close_reason option" where
  "close_reason_of e w sub =
     (if failed_subscribe sub then Some FailedSubscribe
      else if is_closed e (messages sub) w then Some Dropped else None)"

definition closed_subscription_ids ::
    "('c, 's, 'o, 'w, 'z) env_scheme \<Rightarrow> 'w \<Rightarrow> ('c, 's, 'o) handler \<Rightarrow> (subscription_id \<times> close_reason) list" where
  "closed_subscription_ids e w h =
     List.map_filter (\<lambda>(sid, sub). map_option (Pair sid) (close_reason_of e w sub)) (subscriptions h)"

fun remove_closed ::
    "('c, 's, 'o, 'w, 'z) env_scheme \<Rightarrow> (subscription_id \<times> close_reason) list \<Rightarrow> ('c, 's, 'o) handler \<Rightarrow>
     ('c, 's, 'o) handler option" where
  "remove_closed e [] h = Some h"
| "remove_closed e ((sid, reason) # ids) h = do {
     h \<leftarrow> (if reason = Dropped
          then h_enqueue e (C_Unsubscribe sid None) (push_in_flight Unimportant h) else Some h);
     remove_closed e ids (h\<lparr>subscriptions := bt_remove sub_key sid (subscriptions h)\<rparr>) }"

definition failed_unsubscribe ::
    "('c, 's, 'o, 'w, 'z) env_scheme \<Rightarrow> 'w \<Rightarrow> ('c, 's, 'o) handler \<Rightarrow> ('c, 's, 'o) handler option" where
  "failed_unsubscribe e w h =
     (let h = h\<lparr>h_quick_info := store_is_failed_unsubscribe False (h_quick_info h),
           multiplexed_subscriptions :=
             map_option (filter (\<lambda>(_, sender). \<not> oneshot_is_closed e sender w)) (multiplexed_subscriptions h)\<rparr>
      in remove_closed e (closed_subscription_ids e w h) h)"

definition begin_shutdown ::
    "('c, 's, 'o, 'w, 'z) env_scheme \<Rightarrow> ('c, 's, 'o) handler \<Rightarrow> 'w \<Rightarrow> ('c, 's, 'o) handler \<times> 'w" where
  "begin_shutdown e h w =
     (if shutting_down h then (h, w) else (h\<lparr>shutting_down := True\<rparr>, close_commands e w))"

section \<open>Commands of the clients\<close>

definition init_multiplexed_subscriptions ::
    "('c, 's, 'o, 'w, 'z) env_scheme \<Rightarrow> bool \<Rightarrow> ('c, 's, 'o) handler \<Rightarrow> ('c, 's, 'o) handler option" where
  "init_multiplexed_subscriptions e dbg h = do {
     let h = push_in_flight (In_Subscribe MULTIPLEXED_SUBSCRIPTION_ID) h;
     subject \<leftarrow> subject_from_dangerous_value dbg
       (subject_as_str (multiplexed_subscription_prefix h) @ ''.*'');
     h \<leftarrow> h_enqueue e (C_Subscribe MULTIPLEXED_SUBSCRIPTION_ID subject None) h;
     Some (h\<lparr>multiplexed_subscriptions := Some []\<rparr>) }"

fun handle_command ::
    "('c, 's, 'o, 'w, 'z) env_scheme \<Rightarrow> bool \<Rightarrow> ('s, 'o) handler_command \<Rightarrow> ('c, 's, 'o) handler \<Rightarrow>
     ('c, 's, 'o) handler option" where
  "handle_command e dbg (Cmd_Publish message) h =
     h_enqueue e (C_Publish message) (push_in_flight Unimportant h)"
| "handle_command e dbg (Cmd_RequestMultiplexed subject reply_subject hdrs payload reply) h = do {
     _ \<leftarrow> debug_assert dbg (starts_with (subject_as_str reply_subject)
       (subject_as_str (multiplexed_subscription_prefix h)));
     h \<leftarrow> (case multiplexed_subscriptions h of
         Some _ \<Rightarrow> Some h
       | None \<Rightarrow> init_multiplexed_subscriptions e dbg h);
     let h = push_in_flight Unimportant h;
     let h = h\<lparr>multiplexed_subscriptions :=
       map_option (bt_insert subject_as_str reply_subject reply) (multiplexed_subscriptions h)\<rparr>;
     h_enqueue e (C_Publish \<lparr> msg_subject = subject, msg_reply_subject = Some reply_subject,
       msg_headers = hdrs, msg_payload = payload \<rparr>) h }"
| "handle_command e dbg (Cmd_UnsubscribeMultiplexed reply_subject) h = do {
     _ \<leftarrow> debug_assert dbg (starts_with (subject_as_str reply_subject)
       (subject_as_str (multiplexed_subscription_prefix h)));
     Some (h\<lparr>multiplexed_subscriptions :=
       map_option (bt_remove subject_as_str reply_subject) (multiplexed_subscriptions h)\<rparr>) }"
| "handle_command e dbg (Cmd_Subscribe sid subject queue_group msgs) h =
     h_enqueue e (C_Subscribe sid subject queue_group)
       (push_in_flight (In_Subscribe sid)
         (h\<lparr>subscriptions := bt_insert sub_key sid
            \<lparr> sub_subject = subject, sub_queue_group = queue_group, messages = msgs,
              remaining = None, failed_subscribe = False \<rparr> (subscriptions h)\<rparr>))"
| "handle_command e dbg (Cmd_Unsubscribe sid (Some max_messages)) h =
     (case bt_get sub_key sid (subscriptions h) of
        None \<Rightarrow> Some h
      | Some sub \<Rightarrow> h_enqueue e (C_Unsubscribe sid (Some max_messages))
          (push_in_flight Unimportant (h\<lparr>subscriptions := bt_insert sub_key sid
             (sub\<lparr>remaining := Some max_messages\<rparr>) (subscriptions h)\<rparr>)))"
| "handle_command e dbg (Cmd_Unsubscribe sid None) h =
     (case bt_get sub_key sid (subscriptions h) of
        None \<Rightarrow> Some h
      | Some _ \<Rightarrow> h_enqueue e (C_Unsubscribe sid None)
          (push_in_flight Unimportant (h\<lparr>subscriptions := bt_remove sub_key sid (subscriptions h)\<rparr>)))"

fun handle_commands ::
    "('c, 's, 'o, 'w, 'z) env_scheme \<Rightarrow> bool \<Rightarrow> ('s, 'o) handler_command list \<Rightarrow> ('c, 's, 'o) handler \<Rightarrow>
     ('c, 's, 'o) handler option" where
  "handle_commands e dbg [] h = Some h"
| "handle_commands e dbg (cmd # cmds) h = do {
     h \<leftarrow> handle_command e dbg cmd (h\<lparr>recv_buf := cmds\<rparr>);
     handle_commands e dbg cmds h }"

partial_function (option) receive_command ::
    "('c, 's, 'o, 'w, 'z) env_scheme \<Rightarrow> bool \<Rightarrow> ('c, 's, 'o) handler \<Rightarrow> 'w \<Rightarrow>
     (receive_outcome \<times> ('c, 's, 'o) handler \<times> 'w) option" where
  "receive_command e dbg h w = do {
     (room, c, w) \<leftarrow> may_enqueue_more_ops e (conn h) w;
     let h = h\<lparr>conn := c\<rparr>;
     if \<not> room then Some (NoMoreSpace, h, w)
     else do {
       _ \<leftarrow> debug_assert dbg (recv_buf h = []);
       (case poll_recv_many e RECV_BUF w of
          (Pending, w) \<Rightarrow> Some (NoMoreCommands, h, w)
        | (Ready cmds, w) \<Rightarrow>
            if cmds = [] then Some (NoMoreCommands, h\<lparr>shutting_down := True\<rparr>, w)
            else do {
              h \<leftarrow> handle_commands e dbg cmds (h\<lparr>recv_buf := recv_buf h @ cmds\<rparr>);
              receive_command e dbg h w }) } }"

section \<open>The future\<close>

partial_function (option) read_loop ::
    "('c, 's, 'o, 'w, 'z) env_scheme \<Rightarrow> bool \<Rightarrow> ('c, 's, 'o) handler \<Rightarrow> 'w \<Rightarrow>
     (handler_output option \<times> bool \<times> ('c, 's, 'o) handler \<times> 'w) option" where
  "read_loop e handled_server_op h w = do {
     (r, c, w) \<leftarrow> poll_read_next e (conn h) w;
     let h = h\<lparr>conn := c\<rparr>;
     (case r of
        Pending \<Rightarrow> Some (None, handled_server_op, h, w)
      | Ready (Inr server_op) \<Rightarrow> do {
          (out, h, w) \<leftarrow> handle_server_op e server_op h w;
          (case out of
             Some out \<Rightarrow> Some (Some out, handled_server_op, h, w)
           | None \<Rightarrow> read_loop e True h w) }
      | Ready (Inl _) \<Rightarrow> Some (Some Disconnected, handled_server_op, h, w)) }"

text \<open>The part of the write loop after \<open>receive_command\<close>: an output that ends the future, or whether to
  iterate again.\<close>

definition write_step ::
    "('c, 's, 'o, 'w, 'z) env_scheme \<Rightarrow> ('c, 's, 'o) handler \<Rightarrow> 'w \<Rightarrow>
     (handler_output option \<times> bool \<times> ('c, 's, 'o) handler \<times> 'w) option" where
  "write_step e h w =
     (if is_streaming e (conn h) then do {
        may \<leftarrow> may_write e (conn h);
        if may then
          (let (h, w) =
             (if \<not> writing h then
                if flushing h then (h\<lparr>writing := True\<rparr>, w)
                else (case poll_can_proceed e (delayed_write h) w of (ready, d, w) \<Rightarrow>
                  (h\<lparr>delayed_write := d, writing := ready\<rparr>, w))
              else (h, w)) in
           if writing h \<and> has_budget_remaining e w then do {
             (r, c, w) \<leftarrow> poll_write_next e (conn h) w;
             let h = h\<lparr>conn := c\<rparr>;
             Some (case r of
                Pending \<Rightarrow> (None, False,
                  (if has_budget_remaining e w then h\<lparr>flushing := False\<rparr> else h), w)
              | Ready (Inr _) \<Rightarrow> (None, True, h, w)
              | Ready (Inl _) \<Rightarrow> (Some Disconnected, False, h, w)) }
           else Some (None, False, h, w))
        else if writing h then Some (None, False, h\<lparr>writing := False, flushing := True\<rparr>, w)
        else Some (None, False, h, w) }
      else if should_flush e (conn h) \<and> \<not> flushing h then
        (case poll_can_proceed e (delayed_write h) w of (ready, d, w) \<Rightarrow>
          Some (None, False, h\<lparr>delayed_write := d, flushing := ready\<rparr>, w))
      else Some (None, False, h, w))"

partial_function (option) write_loop ::
    "('c, 's, 'o, 'w, 'z) env_scheme \<Rightarrow> bool \<Rightarrow> ('c, 's, 'o) handler \<Rightarrow> 'w \<Rightarrow>
     (handler_output option \<times> receive_outcome \<times> ('c, 's, 'o) handler \<times> 'w) option" where
  "write_loop e dbg h w = do {
     (receive_outcome, h, w) \<leftarrow> receive_command e dbg h w;
     let h = (if receive_outcome = NoMoreSpace then h\<lparr>writing := True\<rparr> else h);
     (out, iterate_again, h, w) \<leftarrow> write_step e h w;
     (case out of
        Some out \<Rightarrow> Some (Some out, receive_outcome, h, w)
      | None \<Rightarrow>
          if iterate_again then write_loop e dbg h w else Some (None, receive_outcome, h, w)) }"

text \<open>The checks before the reads: failed unsubscribes and the shutdown channel.\<close>

definition poll_requests ::
    "('c, 's, 'o, 'w, 'z) env_scheme \<Rightarrow> ('c, 's, 'o) handler \<Rightarrow> 'w \<Rightarrow> (('c, 's, 'o) handler \<times> 'w) option" where
  "poll_requests e h w =
     (if shutting_down h then Some (h, w)
      else do {
        h \<leftarrow> (if is_failed_unsubscribe (quick_info_get (h_quick_info h))
             then failed_unsubscribe e w h else Some h);
        (case poll_shutdown e w of (ready, w) \<Rightarrow>
          Some (if ready then begin_shutdown e h w else (h, w))) })"

definition poll_finish ::
    "('c, 's, 'o, 'w, 'z) env_scheme \<Rightarrow> receive_outcome \<Rightarrow> ('c, 's, 'o) handler \<Rightarrow> 'w \<Rightarrow>
     (handler_output poll \<times> ('c, 's, 'o) handler \<times> 'w) option" where
  "poll_finish e receive_outcome h w = do {
     (failed, h, w) \<leftarrow> (if flushing h then do {
         (r, c, w) \<leftarrow> poll_flush e (conn h) w;
         let h = h\<lparr>conn := c\<rparr>;
         Some (case r of
            Pending \<Rightarrow> (False, h, w)
          | Ready (Inr _) \<Rightarrow> (False, h\<lparr>flushing := False\<rparr>, w)
          | Ready (Inl _) \<Rightarrow> (True, h, w)) }
       else Some (False, h, w));
     Some (if failed then Ready Disconnected
       else if shutting_down h \<and> receive_outcome = NoMoreCommands \<and> \<not> writing h \<and> \<not> flushing h
       then Ready Out_Closed else Pending, h, w) }"

definition handler_poll ::
    "('c, 's, 'o, 'w, 'z) env_scheme \<Rightarrow> bool \<Rightarrow> ('c, 's, 'o) handler \<Rightarrow> 'w \<Rightarrow>
     (handler_output poll \<times> ('c, 's, 'o) handler \<times> 'w) option" where
  "handler_poll e dbg h w = do {
     (ping, p, c, w) \<leftarrow> pinger_poll e (enqueue_write_op e C_Ping) (h_pinger h) (conn h) w;
     let h = h\<lparr>h_pinger := p, conn := c\<rparr>;
     if ping = TooManyInFlightPings then Some (Ready Disconnected, h, w)
     else do {
       (h, w) \<leftarrow> poll_requests e h w;
       (out, handled_server_op, h, w) \<leftarrow> read_loop e False h w;
       (case out of
          Some out \<Rightarrow> Some (Ready out, h, w)
        | None \<Rightarrow> do {
            let (h, w) = (if handled_server_op then
                (case pinger_reset e (h_pinger h) w of (p, w) \<Rightarrow> (h\<lparr>h_pinger := p\<rparr>, w)) else (h, w));
            (out, receive_outcome, h, w) \<leftarrow> write_loop e dbg h w;
            (case out of
               Some out \<Rightarrow> Some (Ready out, h, w)
             | None \<Rightarrow> poll_finish e receive_outcome h w) }) } }"

section \<open>Connecting and recycling\<close>

text \<open>\<open>fuse_shutdown\<close>: one poll of a future that yields to the shutdown channel.\<close>

datatype 'a fuse_shutdown = Fuse_Output 'a | Fuse_Stopped

definition fuse_shutdown_poll ::
    "('c, 's, 'o, 'w, 'z) env_scheme \<Rightarrow> ('f \<Rightarrow> 'w \<Rightarrow> 'a poll \<times> 'f \<times> 'w) \<Rightarrow> 'f \<Rightarrow> 'w \<Rightarrow>
     'a fuse_shutdown poll \<times> 'f \<times> 'w" where
  "fuse_shutdown_poll e poll_fut fut w =
     (case poll_shutdown e w of (ready, w) \<Rightarrow>
        if ready then (Ready Fuse_Stopped, fut, w)
        else (case poll_fut fut w of
            (Pending, fut, w) \<Rightarrow> (Pending, fut, w)
          | (Ready x, fut, w) \<Rightarrow> (Ready (Fuse_Output x), fut, w)))"

text \<open>How the attempt to connect ended: the shutdown came first, the timeout elapsed, an error, or a
  connection and the first \<open>INFO\<close>.\<close>

datatype ('c, 'e) connect_outcome =
  Fuse_Shutdown | Elapsed | Connect_Failed 'e | Connected 'c server_info

datatype 'e connect_handler_error = Connect 'e | TimedOut

primrec resubscribe ::
    "('c, 's, 'o, 'w, 'z) env_scheme \<Rightarrow> (subscription_id \<times> 's subscription) list \<Rightarrow>
     in_flight_command list \<Rightarrow> 'c \<Rightarrow> (in_flight_command list \<times> 'c) option" where
  "resubscribe e [] q c = Some (q, c)"
| "resubscribe e (entry # subs) q c =
     (case entry of (sid, sub) \<Rightarrow> do {
        c \<leftarrow> enqueue_write_op e (C_Subscribe sid (sub_subject sub) (sub_queue_group sub)) c;
        let q = q @ [In_Subscribe sid];
        (q, c) \<leftarrow> (case remaining sub of
            None \<Rightarrow> Some (q, c)
          | Some rem \<Rightarrow> do {
              c \<leftarrow> enqueue_write_op e (C_Unsubscribe sid (Some rem)) c;
              Some (q @ [Unimportant], c) });
        resubscribe e subs q c })"

definition recycled_new :: "raw_quick_info \<Rightarrow> subject \<Rightarrow> 's recycled_handler" where
  "recycled_new q prefix = \<lparr> r_info = None, r_quick_info = q,
     r_multiplexed_subscription_prefix = prefix, r_subscriptions = [] \<rparr>"

definition handler_connect ::
    "('c, 's, 'o, 'w, 'z) env_scheme \<Rightarrow> ('c \<Rightarrow> bool) \<Rightarrow> nat \<Rightarrow> ('c, 'e) connect_outcome \<Rightarrow>
     's recycled_handler \<Rightarrow> 'w \<Rightarrow>
     (('e connect_handler_error \<times> 's recycled_handler + ('c, 's, 'o) handler option) \<times> 'w) option" where
  "handler_connect e is_zstd write_delay outcome recycle w =
     (case outcome of
        Fuse_Shutdown \<Rightarrow> Some (Ok None, w)
      | Connect_Failed err \<Rightarrow> Some (Err (Connect err, recycle), w)
      | Elapsed \<Rightarrow> Some (Err (TimedOut, recycle), w)
      | Connected c info \<Rightarrow> do {
          let q = quick_info_store (connected_update (is_streaming e c \<and> is_zstd c)) (r_quick_info recycle);
          (in_flight, c) \<leftarrow> resubscribe e (r_subscriptions recycle) [] c;
          (case delayed_new e write_delay w of (d, w) \<Rightarrow>
           case pinger_new e w of (p, w) \<Rightarrow>
             Some (Ok (Some \<lparr> conn = c, h_info = Some info, h_quick_info = q, delayed_write = d,
               writing = False, flushing = False, shutting_down = False, h_pinger = p, recv_buf = [],
               in_flight_commands = in_flight,
               multiplexed_subscription_prefix = r_multiplexed_subscription_prefix recycle,
               multiplexed_subscriptions = None, subscriptions = r_subscriptions recycle \<rparr>), w)) })"

text \<open>\<open>recycle\<close>, after the connection was shut down: its result is ignored.\<close>

definition handler_recycle :: "('c, 's, 'o) handler \<Rightarrow> 's recycled_handler" where
  "handler_recycle h = \<lparr> r_info = h_info h,
     r_quick_info = store_is_connected False (h_quick_info h),
     r_multiplexed_subscription_prefix = multiplexed_subscription_prefix h,
     r_subscriptions = subscriptions h \<rparr>"

end
