(* ===== verification/Handler_Spec.thy ===== *)
theory Handler_Spec
  imports Handler
begin

text \<open>
  Properties of the handler. The queue of commands in flight implements an abstract queue of answers
  the server owes: every operation written adds to its end, every answer takes from its front. The
  invariant of the subscription table, the bound on what a limited subscription delivers, and what is
  written again on a new connection follow.
\<close>

section \<open>The answers the server owes\<close>

datatype conn_event = Enqueued client_op | Received server_op

inductive conn_trace :: "('c, 's, 'o, 'w, 'z) env_scheme \<Rightarrow> 'c \<Rightarrow> conn_event list \<Rightarrow> 'c \<Rightarrow> bool"
  for e :: "('c, 's, 'o, 'w, 'z) env_scheme" and c :: 'c where
  start: "conn_trace e c [] c"
| enqueue: "conn_trace e c evs c' \<Longrightarrow> enqueue_write_op e op c' = Some c'' \<Longrightarrow>
    conn_trace e c (evs @ [Enqueued op]) c''"
| receive: "conn_trace e c evs c' \<Longrightarrow> poll_read_next e c' w = Some (Ready (Inr op), c'', w') \<Longrightarrow>
    conn_trace e c (evs @ [Received op]) c''"
| idle: "conn_trace e c evs c' \<Longrightarrow> poll_read_next e c' w = Some (r, c'', w') \<Longrightarrow>
    (\<And>op. r \<noteq> Ready (Inr op)) \<Longrightarrow> conn_trace e c evs c''"
| ready: "conn_trace e c evs c' \<Longrightarrow> may_enqueue_more_ops e c' w = Some (room, c'', w') \<Longrightarrow> conn_trace e c evs c''"
| wrote: "conn_trace e c evs c' \<Longrightarrow> poll_write_next e c' w = Some (r', c'', w') \<Longrightarrow> conn_trace e c evs c''"
| flush: "conn_trace e c evs c' \<Longrightarrow> poll_flush e c' w = Some (r'', c'', w') \<Longrightarrow> conn_trace e c evs c''"

lemma conn_trace_trans:
  "conn_trace e c' evs' c'' \<Longrightarrow> conn_trace e c evs c' \<Longrightarrow> conn_trace e c (evs @ evs') c''"
  by (induction rule: conn_trace.induct)
     (auto simp flip: append_assoc intro: conn_trace.intros)

text \<open>The operations a server in verbose mode answers with \<open>+OK\<close> or an error, and the answers.\<close>

fun in_flight_of :: "client_op \<Rightarrow> in_flight_command list" where
  "in_flight_of (C_Publish _) = [Unimportant]"
| "in_flight_of (C_Subscribe sid _ _) = [In_Subscribe sid]"
| "in_flight_of (C_Unsubscribe _ _) = [Unimportant]"
| "in_flight_of _ = []"

fun is_answer :: "server_op \<Rightarrow> bool" where
  "is_answer S_Success \<longleftrightarrow> True"
| "is_answer (S_Error error) \<longleftrightarrow> is_fatal error = Some False"
| "is_answer _ \<longleftrightarrow> False"

fun owed :: "in_flight_command list \<Rightarrow> conn_event \<Rightarrow> in_flight_command list" where
  "owed q (Enqueued op) = q @ in_flight_of op"
| "owed q (Received op) = (if is_answer op then tl q else q)"

definition explains ::
    "('c, 's, 'o, 'w, 'z) env_scheme \<Rightarrow> 'c \<Rightarrow> in_flight_command list \<Rightarrow> conn_event list \<Rightarrow>
     ('c, 's, 'o) handler \<Rightarrow> bool" where
  "explains e c q evs h \<longleftrightarrow> conn_trace e c evs (conn h) \<and> in_flight_commands h = foldl owed q evs"

lemma explains_start: "explains e (conn h) (in_flight_commands h) [] h"
  by (simp add: explains_def conn_trace.start)

text \<open>One state follows from another by events of the connection that account for the queue.\<close>

definition extends ::
    "('c, 's, 'o, 'w, 'z) env_scheme \<Rightarrow> ('c, 's, 'o) handler \<Rightarrow> ('c, 's, 'o) handler \<Rightarrow> bool" where
  "extends e h h' \<longleftrightarrow> (\<exists>evs. explains e (conn h) (in_flight_commands h) evs h')"

lemma extends_refl [simp]: "extends e h h"
  unfolding extends_def using explains_start by blast

lemma extends_trans [trans]:
  assumes "extends e h h'" and "extends e h' h''"
  shows "extends e h h''"
proof -
  obtain evs evs' where "explains e (conn h) (in_flight_commands h) evs h'"
      "explains e (conn h') (in_flight_commands h') evs' h''"
    using assms by (auto simp: extends_def)
  then have "explains e (conn h) (in_flight_commands h) (evs @ evs') h''"
    by (auto simp: explains_def intro: conn_trace_trans)
  then show ?thesis by (auto simp: extends_def)
qed

lemma extends_same:
  "conn h' = conn h \<Longrightarrow> in_flight_commands h' = in_flight_commands h \<Longrightarrow> extends e h h'"
  unfolding extends_def explains_def by (rule exI [of _ "[]"]) (simp add: conn_trace.start)

lemma extends_enqueue:
  assumes "h_enqueue e op h' = Some h''" and "conn h' = conn h"
    and "in_flight_commands h' = in_flight_commands h @ in_flight_of op"
  shows "extends e h h''"
proof -
  obtain c where c: "enqueue_write_op e op (conn h) = Some c" "h'' = h'\<lparr>conn := c\<rparr>"
    using assms(1,2) by (auto simp: h_enqueue_def)
  have "conn_trace e (conn h) ([] @ [Enqueued op]) (conn h'')"
    using conn_trace.enqueue [OF conn_trace.start c(1)] c(2) by simp
  with assms show ?thesis
    unfolding extends_def explains_def by (intro exI [of _ "[Enqueued op]"]) (auto simp: h_enqueue_def)
qed

lemma extends_io:
  assumes "conn_trace e (conn h) [] c" and "conn h' = c" and "in_flight_commands h' = in_flight_commands h"
  shows "extends e h h'"
  using assms unfolding extends_def explains_def by (intro exI [of _ "[]"]) simp

lemmas extends_idle = extends_io [OF conn_trace.idle [OF conn_trace.start]]
lemmas extends_ready = extends_io [OF conn_trace.ready [OF conn_trace.start]]
lemmas extends_write = extends_io [OF conn_trace.wrote [OF conn_trace.start]]
lemmas extends_flush = extends_io [OF conn_trace.flush [OF conn_trace.start]]

lemma push_in_flight_sel [simp]:
  "in_flight_commands (push_in_flight c h) = in_flight_commands h @ [c]"
  "conn (push_in_flight c h) = conn h" "subscriptions (push_in_flight c h) = subscriptions h"
  "multiplexed_subscriptions (push_in_flight c h) = multiplexed_subscriptions h"
  "multiplexed_subscription_prefix (push_in_flight c h) = multiplexed_subscription_prefix h"
  by (simp_all add: push_in_flight_def)

lemma extends_push:
  "h_enqueue e op (push_in_flight c h') = Some h'' \<Longrightarrow> conn h' = conn h \<Longrightarrow>
     in_flight_commands h' = in_flight_commands h \<Longrightarrow> in_flight_of op = [c] \<Longrightarrow> extends e h h''"
  by (rule extends_enqueue [of e op "push_in_flight c h'"]) simp_all

section \<open>The loops of the future\<close>

text \<open>A relation between states, and the worlds they are in, that each part of the future respects is
  respected by the future. Its loops are dealt with here once; the interpretations are the facts about a
  whole poll.\<close>

locale handler_step =
  fixes e :: "('c, 's, 'o, 'w, 'z) env_scheme" and dbg :: bool
    and R :: "('c, 's, 'o) handler \<Rightarrow> 'w \<Rightarrow> ('c, 's, 'o) handler \<Rightarrow> 'w \<Rightarrow> bool"
  assumes R_refl: "R h w h w"
    and R_trans: "R h w h' w' \<Longrightarrow> R h' w' h'' w'' \<Longrightarrow> R h w h'' w''"
    and R_read: "poll_read_next e (conn h) w = Some (Ready (Inr op), c, w1) \<Longrightarrow>
      handle_server_op e op (h\<lparr>conn := c\<rparr>) w1 = Some (out, h', w') \<Longrightarrow> R h w h' w'"
    and R_idle: "poll_read_next e (conn h) w = Some (r, c, w1) \<Longrightarrow> (\<And>op. r \<noteq> Ready (Inr op)) \<Longrightarrow>
      R h w (h\<lparr>conn := c\<rparr>) w1"
    and R_ready: "may_enqueue_more_ops e (conn h) w = Some (room, c, w1) \<Longrightarrow> R h w (h\<lparr>conn := c\<rparr>) w1"
    and R_waiting: "poll_recv_many e n w = (Pending, w') \<Longrightarrow> R h w h w'"
    and R_commands: "poll_recv_many e n w = (Ready cmds, w') \<Longrightarrow>
      handle_commands e dbg cmds (h\<lparr>recv_buf := recv_buf h @ cmds\<rparr>) = Some h' \<Longrightarrow> R h w h' w'"
    and R_flags: "R h w (h\<lparr>shutting_down := True\<rparr>) w" "R h w (h\<lparr>writing := True\<rparr>) w"
    and R_write: "write_step e h w = Some (out, again, h', w') \<Longrightarrow> R h w h' w'"
    and R_requests: "poll_requests e h w = Some (h', w') \<Longrightarrow> R h w h' w'"
    and R_finish: "poll_finish e ro h w = Some (r', h', w') \<Longrightarrow> R h w h' w'"
    and R_ping: "pinger_poll e (enqueue_write_op e C_Ping) (h_pinger h) (conn h) w = Some (po, p, c, w') \<Longrightarrow>
      R h w (h\<lparr>h_pinger := p, conn := c\<rparr>) w'"
    and R_reset: "pinger_reset e (h_pinger h) w = (p, w') \<Longrightarrow> R h w (h\<lparr>h_pinger := p\<rparr>) w'"
begin

lemma read_loop_R:
  assumes "read_loop e handled h w = Some (out, handled', h', w')"
  shows "R h w h' w'"
proof -
  from assms have "e = e \<longrightarrow> R h w (fst (snd (snd (out, handled', h', w')))) (snd (snd (snd (out, handled', h', w'))))"
  proof (rule read_loop.raw_induct [where P = "\<lambda>e' _ h w r. e' = e \<longrightarrow> R h w (fst (snd (snd r))) (snd (snd (snd r)))",
      rotated], intro impI)
    fix rl e' handled h w r
    assume IH: "\<And>e' handled h w r. rl e' handled h w = Some r \<Longrightarrow> e' = e \<longrightarrow> R h w (fst (snd (snd r))) (snd (snd (snd r)))"
      and e': "e' = e" and step: "do {
        (r, c, w) \<leftarrow> poll_read_next e' (conn h) w;
        let h = h\<lparr>conn := c\<rparr>;
        case r of Pending \<Rightarrow> Some (None, handled, h, w)
        | Ready (Inl _) \<Rightarrow> Some (Some Disconnected, handled, h, w)
        | Ready (Inr op) \<Rightarrow> do {
            (out, h, w) \<leftarrow> handle_server_op e' op h w;
            case out of None \<Rightarrow> rl e' True h w | Some out \<Rightarrow> Some (Some out, handled, h, w) } } = Some r"
    obtain x c w1 where rd: "poll_read_next e (conn h) w = Some (x, c, w1)"
      using step e' by (auto split: bind_splits)
    show "R h w (fst (snd (snd r))) (snd (snd (snd r)))"
    proof (cases "\<exists>op. x = Ready (Inr op)")
      case False
      with rd step e' have "snd (snd r) = (h\<lparr>conn := c\<rparr>, w1)"
        by (cases x) (auto simp: Let_def split: sum.splits)
      with R_idle [OF rd] False show ?thesis by simp
    next
      case True
      then obtain op where x: "x = Ready (Inr op)" by blast
      with rd step e' obtain out h2 w2 where op: "handle_server_op e op (h\<lparr>conn := c\<rparr>) w1 = Some (out, h2, w2)"
        by (auto split: bind_splits)
      have "R h w h2 w2" by (rule R_read [OF rd [unfolded x] op])
      with rd x op step e' IH [of e True h2 w2 r] show ?thesis
        by (auto split: option.splits intro: R_trans)
    qed
  qed
  then show ?thesis by simp
qed

lemma receive_command_R:
  assumes "receive_command e dbg h w = Some (out, h', w')"
  shows "R h w h' w'"
proof -
  from assms have "e = e \<longrightarrow> dbg = dbg \<longrightarrow> R h w (fst (snd (out, h', w'))) (snd (snd (out, h', w')))"
  proof (rule receive_command.raw_induct [where P = "\<lambda>e' dbg' h w r. e' = e \<longrightarrow> dbg' = dbg \<longrightarrow>
      R h w (fst (snd r)) (snd (snd r))", rotated], intro impI)
    fix rc e' dbg' h w r
    assume IH: "\<And>e' dbg' h w r. rc e' dbg' h w = Some r \<Longrightarrow> e' = e \<longrightarrow> dbg' = dbg \<longrightarrow> R h w (fst (snd r)) (snd (snd r))"
      and eq: "e' = e" "dbg' = dbg" and step: "do {
        (room, c, w) \<leftarrow> may_enqueue_more_ops e' (conn h) w;
        let h = h\<lparr>conn := c\<rparr>;
        if \<not> room then Some (NoMoreSpace, h, w)
        else do {
          _ \<leftarrow> debug_assert dbg' (recv_buf h = []);
          case poll_recv_many e' RECV_BUF w of
            (Pending, w) \<Rightarrow> Some (NoMoreCommands, h, w)
          | (Ready cmds, w) \<Rightarrow>
              if cmds = [] then Some (NoMoreCommands, h\<lparr>shutting_down := True\<rparr>, w)
              else do { h \<leftarrow> handle_commands e' dbg' cmds (h\<lparr>recv_buf := recv_buf h @ cmds\<rparr>); rc e' dbg' h w } } } =
        Some r"
    obtain room c w0 where rd: "may_enqueue_more_ops e (conn h) w = Some (room, c, w0)"
      using step eq by (auto split: bind_splits)
    let ?h = "h\<lparr>conn := c\<rparr>"
    have go: "R ?h w0 (fst (snd r)) (snd (snd r))" if "poll_recv_many e RECV_BUF w0 = (Ready cmds, w1)"
        "handle_commands e dbg cmds (?h\<lparr>recv_buf := recv_buf ?h @ cmds\<rparr>) = Some h1" "rc e dbg h1 w1 = Some r"
      for cmds h1 w1
      using R_commands [OF that(1,2)] IH [OF that(3)] R_trans by blast
    have stop: "R ?h w0 (?h\<lparr>shutting_down := True\<rparr>) w1" if "poll_recv_many e RECV_BUF w0 = (Ready [], w1)" for w1
      using R_trans [OF R_commands [OF that, of ?h ?h] R_flags(1)] by simp
    have "R ?h w0 (fst (snd r)) (snd (snd r))"
      using step [unfolded eq] rd go stop
      by (auto simp: Let_def split: bind_splits if_splits prod.splits poll.splits intro: R_refl R_waiting)
    with R_ready [OF rd] show "R h w (fst (snd r)) (snd (snd r))" by (rule R_trans)
  qed
  then show ?thesis by simp
qed

lemma write_loop_R:
  assumes "write_loop e dbg h w = Some (out, ro, h', w')"
  shows "R h w h' w'"
proof -
  from assms have "e = e \<longrightarrow> dbg = dbg \<longrightarrow> R h w (fst (snd (snd (out, ro, h', w')))) (snd (snd (snd (out, ro, h', w'))))"
  proof (rule write_loop.raw_induct [where P = "\<lambda>e' dbg' h w r. e' = e \<longrightarrow> dbg' = dbg \<longrightarrow>
      R h w (fst (snd (snd r))) (snd (snd (snd r)))", rotated], intro impI)
    fix wl e' dbg' h w r
    assume IH: "\<And>e' dbg' h w r. wl e' dbg' h w = Some r \<Longrightarrow> e' = e \<longrightarrow> dbg' = dbg \<longrightarrow>
        R h w (fst (snd (snd r))) (snd (snd (snd r)))"
      and eq: "e' = e" "dbg' = dbg" and step: "do {
        (receive_outcome, h, w) \<leftarrow> receive_command e' dbg' h w;
        let h = (if receive_outcome = NoMoreSpace then h\<lparr>writing := True\<rparr> else h);
        (out, iterate_again, h, w) \<leftarrow> write_step e' h w;
        case out of None \<Rightarrow> if iterate_again then wl e' dbg' h w else Some (None, receive_outcome, h, w)
        | Some out \<Rightarrow> Some (Some out, receive_outcome, h, w) } = Some r"
    obtain ro h1 w1 where r1: "receive_command e dbg h w = Some (ro, h1, w1)"
      using step eq by (auto split: bind_splits)
    let ?h = "if ro = NoMoreSpace then h1\<lparr>writing := True\<rparr> else h1"
    obtain out again h2 w2 where r2: "write_step e ?h w1 = Some (out, again, h2, w2)"
      using step r1 eq by (auto simp: Let_def split: bind_splits if_splits)
    have "R h1 w1 ?h w1" by (simp add: R_refl R_flags)
    then have *: "R h w h2 w2" using receive_command_R [OF r1] R_write [OF r2] R_trans by blast
    show "R h w (fst (snd (snd r))) (snd (snd (snd r)))"
    proof (cases "out = None \<and> again")
      case True
      with step r1 r2 eq have "wl e dbg h2 w2 = Some r" by (simp add: Let_def)
      with IH have "R h2 w2 (fst (snd (snd r))) (snd (snd (snd r)))" by blast
      with * show ?thesis by (rule R_trans)
    next
      case False
      with step r1 r2 eq have "snd (snd r) = (h2, w2)" by (auto simp: Let_def split: option.splits if_splits)
      with * show ?thesis by simp
    qed
  qed
  then show ?thesis by simp
qed

lemma poll_R:
  assumes "handler_poll e dbg h w = Some (r, h', w')"
  shows "R h w h' w'"
proof -
  obtain pg p c w1 where pg: "pinger_poll e (enqueue_write_op e C_Ping) (h_pinger h) (conn h) w = Some (pg, p, c, w1)"
    using assms by (auto simp: handler_poll_def split: bind_splits)
  define h1 where "h1 = h\<lparr>h_pinger := p, conn := c\<rparr>"
  have e1: "R h w h1 w1" unfolding h1_def using pg by (rule R_ping)
  show ?thesis
  proof (cases "pg = TooManyInFlightPings")
    case True
    with assms pg e1 show ?thesis by (simp add: handler_poll_def h1_def)
  next
    case False
    with assms pg obtain h2 w2 where h2: "poll_requests e h1 w1 = Some (h2, w2)"
      by (auto simp: handler_poll_def h1_def Let_def split: bind_splits)
    with assms pg False obtain out handled h3 w3 where h3: "read_loop e False h2 w2 = Some (out, handled, h3, w3)"
      by (auto simp: handler_poll_def h1_def [symmetric] Let_def split: bind_splits)
    have e3: "R h w h3 w3"
      using e1 R_requests [OF h2] read_loop_R [OF h3] R_trans by blast
    obtain h4 w4 where h4: "(if handled then (case pinger_reset e (h_pinger h3) w3 of (p, w) \<Rightarrow>
        (h3\<lparr>h_pinger := p\<rparr>, w)) else (h3, w3)) = (h4, w4)" by fastforce
    then have "R h3 w3 h4 w4" by (auto split: if_splits prod.splits intro: R_refl R_reset)
    with e3 have e4: "R h w h4 w4" by (rule R_trans)
    show ?thesis
    proof (cases out)
      case (Some o')
      with assms pg False h2 h3 e3 show ?thesis by (simp add: handler_poll_def h1_def [symmetric] Let_def)
    next
      case None
      with assms pg False h2 h3 h4 obtain out' ro h5 w5 where h5: "write_loop e dbg h4 w4 = Some (out', ro, h5, w5)"
        and fin: "(case out' of Some o' \<Rightarrow> Some (Ready o', h5, w5) | None \<Rightarrow> poll_finish e ro h5 w5) = Some (r, h', w')"
        by (auto simp: handler_poll_def h1_def [symmetric] Let_def split: bind_splits)
      have "R h w h5 w5" using e4 write_loop_R [OF h5] by (rule R_trans)
      moreover have "R h5 w5 h' w'"
        using fin by (auto split: option.splits intro: R_refl R_finish)
      ultimately show ?thesis by (rule R_trans)
    qed
  qed
qed

end

section \<open>Every step accounts for the queue\<close>

lemma handle_message_extends: "handle_message e m h w = Some (h', w') \<Longrightarrow> extends e h h'"
  by (auto simp: handle_message_def Let_def split: option.splits prod.splits if_splits bind_splits
      intro: extends_push extends_same)

lemma handle_multiplexed_extends: "handle_multiplexed e m h w = Some (h', w') \<Longrightarrow> extends e h h'"
  by (auto simp: handle_multiplexed_def Let_def split: option.splits intro: extends_same)

lemma handle_soft_error_queue:
  "handle_soft_error e error h w = Some (out, h', w') \<Longrightarrow>
     conn h' = conn h \<and> in_flight_commands h' = tl (in_flight_commands h)"
  by (auto simp: handle_soft_error_def Let_def
      split: list.splits in_flight_command.splits option.splits prod.splits if_splits)

lemma handle_answer:
  assumes "is_answer op" and "handle_server_op e op h w = Some (out, h', w')"
  shows "conn h' = conn h \<and> in_flight_commands h' = tl (in_flight_commands h)"
  using assms by (cases op) (auto dest: handle_soft_error_queue split: list.splits if_splits)

lemma handle_other_extends:
  assumes "\<not> is_answer op" and "handle_server_op e op h w = Some (out, h', w')"
  shows "extends e h h'"
proof (cases op)
  case (S_Message m)
  with assms show ?thesis
    by (auto split: if_splits dest: handle_message_extends handle_multiplexed_extends)
next
  case S_Ping
  with assms show ?thesis by (auto split: bind_splits intro: extends_enqueue)
qed (use assms in \<open>auto intro: extends_same\<close>)

lemma handle_server_op_extends:
  assumes rd: "poll_read_next e (conn h) w0 = Some (Ready (Inr op), c1, w1)"
    and op: "handle_server_op e op (h\<lparr>conn := c1\<rparr>) w1 = Some (out, h', w')"
  shows "extends e h h'"
proof -
  have tr: "conn_trace e (conn h) ([] @ [Received op]) c1"
    using conn_trace.start rd by (rule conn_trace.receive)
  show ?thesis
  proof (cases "is_answer op")
    case True
    with handle_answer [OF True op] tr show ?thesis
      unfolding extends_def explains_def by (intro exI [of _ "[Received op]"]) simp
  next
    case False
    with tr have "extends e h (h\<lparr>conn := c1\<rparr>)"
      unfolding extends_def explains_def by (intro exI [of _ "[Received op]"]) simp
    also have "extends e (h\<lparr>conn := c1\<rparr>) h'" by (rule handle_other_extends [OF False op])
    finally show ?thesis .
  qed
qed

lemma remove_closed_extends: "remove_closed e ids h = Some h' \<Longrightarrow> extends e h h'"
proof (induction ids arbitrary: h)
  case (Cons p ids)
  obtain sid reason where p: "p = (sid, reason)" by (cases p)
  obtain h1 where h1: "(if reason = Dropped
      then h_enqueue e (C_Unsubscribe sid None) (push_in_flight Unimportant h) else Some h) = Some h1"
      "remove_closed e ids (h1\<lparr>subscriptions := bt_remove sub_key sid (subscriptions h1)\<rparr>) = Some h'"
    using Cons.prems unfolding p remove_closed.simps by (rule bind_SomeE)
  have "extends e h h1"
  proof (cases "reason = Dropped")
    case True
    with h1(1) have "h_enqueue e (C_Unsubscribe sid None) (push_in_flight Unimportant h) = Some h1" by simp
    then show ?thesis by (rule extends_push) simp_all
  qed (use h1(1) in simp)
  also have "extends e h1 (h1\<lparr>subscriptions := bt_remove sub_key sid (subscriptions h1)\<rparr>)"
    by (rule extends_same) simp_all
  also have "extends e \<dots> h'" by (rule Cons.IH [OF h1(2)])
  finally show ?case .
qed simp

lemma failed_unsubscribe_extends:
  assumes "failed_unsubscribe e w h = Some h'"
  shows "extends e h h'"
proof -
  let ?h = "h\<lparr>h_quick_info := store_is_failed_unsubscribe False (h_quick_info h), multiplexed_subscriptions :=
      map_option (filter (\<lambda>(_, sender). \<not> oneshot_is_closed e sender w)) (multiplexed_subscriptions h)\<rparr>"
  have "extends e h ?h" by (rule extends_same) simp_all
  also have "extends e ?h h'"
    using assms by (auto simp: failed_unsubscribe_def Let_def intro: remove_closed_extends)
  finally show ?thesis .
qed

lemma init_multiplexed_extends:
  assumes "init_multiplexed_subscriptions e dbg h = Some h'"
  shows "extends e h h'"
proof -
  obtain s where s: "Option.bind (h_enqueue e (C_Subscribe MULTIPLEXED_SUBSCRIPTION_ID s None)
      (push_in_flight (In_Subscribe MULTIPLEXED_SUBSCRIPTION_ID) h))
      (\<lambda>h. Some (h\<lparr>multiplexed_subscriptions := Some []\<rparr>)) = Some h'"
    using assms unfolding init_multiplexed_subscriptions_def Let_def by (rule bind_SomeE)
  obtain h1 where h1: "h_enqueue e (C_Subscribe MULTIPLEXED_SUBSCRIPTION_ID s None)
      (push_in_flight (In_Subscribe MULTIPLEXED_SUBSCRIPTION_ID) h) = Some h1"
      "Some (h1\<lparr>multiplexed_subscriptions := Some []\<rparr>) = Some h'"
    using s by (rule bind_SomeE)
  from h1(2) have h': "h' = h1\<lparr>multiplexed_subscriptions := Some []\<rparr>" by simp
  have "extends e h h1" using h1(1) by (rule extends_push) simp_all
  also have "extends e h1 h'" unfolding h' by (rule extends_same) simp_all
  finally show ?thesis .
qed

lemma handle_command_extends:
  assumes "handle_command e dbg cmd h = Some h'"
  shows "extends e h h'"
proof (cases cmd)
  case (Cmd_RequestMultiplexed subject reply hdrs payload sender)
  with assms obtain h1 where h1: "(case multiplexed_subscriptions h of Some _ \<Rightarrow> Some h
      | None \<Rightarrow> init_multiplexed_subscriptions e dbg h) = Some h1"
    and h': "h_enqueue e (C_Publish \<lparr> msg_subject = subject, msg_reply_subject = Some reply,
       msg_headers = hdrs, msg_payload = payload \<rparr>)
       ((push_in_flight Unimportant h1)\<lparr>multiplexed_subscriptions :=
         map_option (bt_insert subject_as_str reply sender) (multiplexed_subscriptions h1)\<rparr>) = Some h'"
    by (auto simp: Let_def split: bind_splits)
  have "extends e h h1"
    using h1 by (auto split: option.splits intro: init_multiplexed_extends)
  also have "extends e h1 h'"
    using h' by (rule extends_enqueue) simp_all
  finally show ?thesis .
next
  case (Cmd_Unsubscribe sid n)
  with assms show ?thesis
    by (cases n) (auto split: option.splits intro: extends_push)
qed (use assms in \<open>auto split: bind_splits intro: extends_push extends_same\<close>)

lemma handle_commands_extends: "handle_commands e dbg cmds h = Some h' \<Longrightarrow> extends e h h'"
proof (induction cmds arbitrary: h)
  case (Cons cmd cmds)
  then obtain h1 where h1: "handle_command e dbg cmd (h\<lparr>recv_buf := cmds\<rparr>) = Some h1"
      "handle_commands e dbg cmds h1 = Some h'"
    by (auto split: bind_splits)
  have "extends e h (h\<lparr>recv_buf := cmds\<rparr>)" by (rule extends_same) simp_all
  also have "extends e \<dots> h1" using h1(1) by (rule handle_command_extends)
  also have "extends e h1 h'" by (rule Cons.IH [OF h1(2)])
  finally show ?case .
qed simp

lemma write_step_extends:
  assumes "write_step e h w = Some (out, again, h', w')"
  shows "extends e h h'"
  using assms
  by (auto simp: write_step_def Let_def split: bind_splits if_splits prod.splits poll.splits sum.splits
      intro: extends_same extends_write)

lemma poll_requests_extends:
  assumes "poll_requests e h w = Some (h', w')"
  shows "extends e h h'"
proof (cases "shutting_down h")
  case False
  with assms obtain h1 where h1: "(if is_failed_unsubscribe (quick_info_get (h_quick_info h))
      then failed_unsubscribe e w h else Some h) = Some h1"
    and h': "conn h' = conn h1" "in_flight_commands h' = in_flight_commands h1"
    by (auto simp: poll_requests_def begin_shutdown_def split: bind_splits prod.splits if_splits)
  have "extends e h h1" using h1 by (auto split: if_splits dest: failed_unsubscribe_extends)
  also have "extends e h1 h'" using h' by (rule extends_same)
  finally show ?thesis .
qed (use assms in \<open>simp add: poll_requests_def\<close>)

lemma poll_finish_extends:
  assumes "poll_finish e ro h w = Some (r, h', w')"
  shows "extends e h h'"
proof (cases "flushing h")
  case True
  with assms obtain x c w1 where fl: "poll_flush e (conn h) w = Some (x, c, w1)"
    and h': "conn h' = c" "in_flight_commands h' = in_flight_commands h"
    by (auto simp: poll_finish_def Let_def split: bind_splits if_splits poll.splits sum.splits)
  then show ?thesis by (rule extends_flush)
qed (use assms in \<open>simp add: poll_finish_def\<close>)

lemma pinger_poll_extends:
  assumes "pinger_poll e (enqueue_write_op e C_Ping) p (conn h) w = Some (r, p', c', w')"
  shows "extends e h (h\<lparr>h_pinger := p', conn := c'\<rparr>)"
proof (cases "c' = conn h")
  case True
  then show ?thesis by (intro extends_same) simp_all
next
  case False
  with assms have "h_enqueue e C_Ping h = Some (h\<lparr>conn := c'\<rparr>)"
    by (auto simp: pinger_poll_def do_ping_def h_enqueue_def split: prod.splits if_splits bind_splits)
  then have "extends e h (h\<lparr>conn := c'\<rparr>)" by (rule extends_enqueue) simp_all
  also have "extends e \<dots> (h\<lparr>h_pinger := p', conn := c'\<rparr>)" by (rule extends_same) simp_all
  finally show ?thesis .
qed

lemma receive_extends:
  assumes "handle_commands e dbg cmds (h\<lparr>recv_buf := recv_buf h @ cmds\<rparr>) = Some h'"
  shows "extends e h h'"
proof -
  have "extends e h (h\<lparr>recv_buf := recv_buf h @ cmds\<rparr>)" by (rule extends_same) simp_all
  also have "extends e \<dots> h'" using assms by (rule handle_commands_extends)
  finally show ?thesis .
qed

interpretation queue: handler_step e dbg "\<lambda>h _ h' _. extends e h h'" for e dbg
proof
  show "extends e h (h\<lparr>conn := c\<rparr>)"
    if "poll_read_next e (conn h) w = Some (r, c, w1)" "\<And>op. r \<noteq> Ready (Inr op)" for h w r c w1
    using that by (rule extends_idle) simp_all
  show "extends e h (h\<lparr>conn := c\<rparr>)"
    if "may_enqueue_more_ops e (conn h) w = Some (room, c, w1)" for h w room c w1
    using that by (rule extends_ready) simp_all
  show "extends e h (h\<lparr>shutting_down := True\<rparr>)" "extends e h (h\<lparr>writing := True\<rparr>)"
      "extends e h (h\<lparr>h_pinger := p\<rparr>)" for h p
    by (rule extends_same; simp)+
qed (rule extends_refl extends_trans handle_server_op_extends receive_extends write_step_extends
      poll_requests_extends poll_finish_extends pinger_poll_extends; assumption)+

section \<open>The tables\<close>

definition subscriptions_inv :: "(subscription_id, 's subscription) btree_map \<Rightarrow> bool" where
  "subscriptions_inv m \<longleftrightarrow> bt_wf sub_key m \<and>
     (\<forall>p\<in>set m. fst p \<noteq> MULTIPLEXED_SUBSCRIPTION_ID \<and> remaining (snd p) \<noteq> Some 0)"

definition handler_inv :: "('c, 's, 'o) handler \<Rightarrow> bool" where
  "handler_inv h \<longleftrightarrow> subscriptions_inv (subscriptions h) \<and> pinger_inv (h_pinger h) \<and>
     (\<forall>m. multiplexed_subscriptions h = Some m \<longrightarrow> bt_wf subject_as_str m)"

text \<open>Commands of the clients: identifiers are never the reserved one, and counts are \<open>NonZero\<close>.\<close>

fun command_ok :: "('s, 'o) handler_command \<Rightarrow> bool" where
  "command_ok (Cmd_Subscribe sid _ _ _) \<longleftrightarrow> sid \<noteq> MULTIPLEXED_SUBSCRIPTION_ID"
| "command_ok (Cmd_Unsubscribe _ n) \<longleftrightarrow> n \<noteq> Some 0"
| "command_ok _ \<longleftrightarrow> True"

lemma sub_key_eq [simp]: "sub_key a = sub_key b \<longleftrightarrow> a = b"
  by (simp add: sub_key_def)

lemma bt_insert_sub_key: "p \<in> set (bt_insert sub_key sid sub m) \<Longrightarrow> p = (sid, sub) \<or> p \<in> set m"
  by (induction m) (auto simp: sub_key_def split: if_splits)

lemma subscriptions_inv_insert:
  "subscriptions_inv m \<Longrightarrow> sid \<noteq> MULTIPLEXED_SUBSCRIPTION_ID \<Longrightarrow> remaining sub \<noteq> Some 0 \<Longrightarrow>
     subscriptions_inv (bt_insert sub_key sid sub m)"
  by (auto simp: subscriptions_inv_def bt_wf_insert dest!: bt_insert_sub_key)

lemma subscriptions_inv_remove: "subscriptions_inv m \<Longrightarrow> subscriptions_inv (bt_remove sub_key sid m)"
  using set_bt_remove [of sub_key sid m] by (auto simp: subscriptions_inv_def bt_wf_remove)

lemma bt_get_sub_key: "bt_get sub_key sid m = Some sub \<Longrightarrow> (sid, sub) \<in> set m"
  by (induction m) (auto simp: sub_key_def split: if_splits)

lemma subscriptions_inv_get:
  "subscriptions_inv m \<Longrightarrow> bt_get sub_key sid m = Some sub \<Longrightarrow>
     sid \<noteq> MULTIPLEXED_SUBSCRIPTION_ID \<and> remaining sub \<noteq> Some 0"
  by (auto simp: subscriptions_inv_def dest!: bt_get_sub_key)

lemma subscriptions_inv_update:
  assumes "bt_get sub_key sid m' = Some sub'" and "subscriptions_inv m'" and "subscriptions_inv m"
    and "remaining sub = remaining sub' \<or> remaining sub \<noteq> Some 0"
  shows "subscriptions_inv (bt_insert sub_key sid sub m)"
  using subscriptions_inv_get [OF assms(2,1)] assms(3,4) by (intro subscriptions_inv_insert) auto

lemma dec_remaining_nonzero: "dec_remaining r \<noteq> Some 0"
  by (simp add: dec_remaining_def)

lemma h_enqueue_sel:
  "h_enqueue e op h = Some h' \<Longrightarrow> subscriptions h' = subscriptions h \<and> h_pinger h' = h_pinger h \<and>
     multiplexed_subscriptions h' = multiplexed_subscriptions h"
  by (auto simp: h_enqueue_def)

lemma push_in_flight_pinger [simp]: "h_pinger (push_in_flight c h) = h_pinger h"
  by (simp add: push_in_flight_def)

lemma handle_message_inv:
  "handler_inv h \<Longrightarrow> handle_message e m h w = Some (h', w') \<Longrightarrow> handler_inv h'"
  using dec_remaining_nonzero
  by (auto simp: handle_message_def Let_def handler_inv_def subscriptions_inv_remove
      split: option.splits prod.splits if_splits bind_splits dest!: h_enqueue_sel)
     (erule (1) subscriptions_inv_update; auto)

lemma handle_multiplexed_inv:
  "handler_inv h \<Longrightarrow> handle_multiplexed e m h w = Some (h', w') \<Longrightarrow> handler_inv h'"
  by (auto simp: handle_multiplexed_def Let_def handler_inv_def bt_wf_remove split: option.splits)

lemma handle_soft_error_inv:
  "handler_inv h \<Longrightarrow> handle_soft_error e err h w = Some (out, h', w') \<Longrightarrow> handler_inv h'"
  by (auto simp: handle_soft_error_def Let_def handler_inv_def subscriptions_inv_remove
      split: list.splits in_flight_command.splits option.splits prod.splits if_splits)
     (erule (1) subscriptions_inv_update; auto simp: subscriptions_inv_remove)

lemma handle_server_op_inv:
  assumes "handler_inv h" and "handle_server_op e op h w = Some (out, h', w')"
  shows "handler_inv h'"
proof (cases op)
  case (S_Message m)
  with assms show ?thesis
    by (auto split: if_splits dest: handle_message_inv handle_multiplexed_inv)
next
  case (S_Error err)
  with assms show ?thesis by (auto split: if_splits dest: handle_soft_error_inv)
qed (use assms in \<open>auto simp: handler_inv_def pinger_other_inv split: list.splits bind_splits
      dest!: h_enqueue_sel\<close>)

lemma handle_command_inv:
  assumes "handler_inv h" and "command_ok cmd" and "handle_command e dbg cmd h = Some h'"
  shows "handler_inv h'"
proof (cases cmd)
  case (Cmd_RequestMultiplexed subject reply hdrs payload sender)
  with assms(1,3) show ?thesis
    by (auto simp: handler_inv_def init_multiplexed_subscriptions_def Let_def bt_wf_insert
        split: bind_splits option.splits dest!: h_enqueue_sel)
next
  case (Cmd_Subscribe sid subject q msgs)
  with assms show ?thesis
    by (auto simp: handler_inv_def intro!: subscriptions_inv_insert dest!: h_enqueue_sel)
next
  case (Cmd_Unsubscribe sid n)
  with assms show ?thesis
    by (cases n) (auto simp: handler_inv_def subscriptions_inv_remove split: option.splits
        intro!: subscriptions_inv_insert dest!: h_enqueue_sel dest: subscriptions_inv_get)
qed (use assms in \<open>auto simp: handler_inv_def bt_wf_remove split: bind_splits dest!: h_enqueue_sel\<close>)

lemma handle_commands_inv:
  "handler_inv h \<Longrightarrow> \<forall>cmd\<in>set cmds. command_ok cmd \<Longrightarrow> handle_commands e dbg cmds h = Some h' \<Longrightarrow> handler_inv h'"
proof (induction cmds arbitrary: h)
  case (Cons cmd cmds)
  obtain h1 where h1: "handle_command e dbg cmd (h\<lparr>recv_buf := cmds\<rparr>) = Some h1"
      "handle_commands e dbg cmds h1 = Some h'"
    using Cons.prems(3) unfolding handle_commands.simps by (rule bind_SomeE)
  have "handler_inv (h\<lparr>recv_buf := cmds\<rparr>)" using Cons.prems(1) by (simp add: handler_inv_def)
  then have "handler_inv h1" using handle_command_inv h1(1) Cons.prems(2) by (metis list.set_intros(1))
  with Cons.IH h1(2) Cons.prems(2) show ?case by simp
qed simp

lemma remove_closed_inv: "handler_inv h \<Longrightarrow> remove_closed e ids h = Some h' \<Longrightarrow> handler_inv h'"
proof (induction ids arbitrary: h)
  case (Cons p ids)
  obtain sid reason where p: "p = (sid, reason)" by (cases p)
  obtain h1 where h1: "(if reason = Dropped
      then h_enqueue e (C_Unsubscribe sid None) (push_in_flight Unimportant h) else Some h) = Some h1"
      "remove_closed e ids (h1\<lparr>subscriptions := bt_remove sub_key sid (subscriptions h1)\<rparr>) = Some h'"
    using Cons.prems(2) unfolding p remove_closed.simps by (rule bind_SomeE)
  from h1(1) Cons.prems(1) have "handler_inv h1"
    by (auto simp: handler_inv_def split: if_splits dest!: h_enqueue_sel)
  then have "handler_inv (h1\<lparr>subscriptions := bt_remove sub_key sid (subscriptions h1)\<rparr>)"
    by (simp add: handler_inv_def subscriptions_inv_remove)
  from Cons.IH [OF this h1(2)] show ?case .
qed simp

lemma bt_wf_filter: "bt_wf key m \<Longrightarrow> bt_wf key (filter P m)"
  by (induction m) auto

lemma failed_unsubscribe_inv:
  assumes "handler_inv h" and "failed_unsubscribe e w h = Some h'"
  shows "handler_inv h'"
proof -
  let ?h = "h\<lparr>h_quick_info := store_is_failed_unsubscribe False (h_quick_info h), multiplexed_subscriptions :=
      map_option (filter (\<lambda>(_, sender). \<not> oneshot_is_closed e sender w)) (multiplexed_subscriptions h)\<rparr>"
  have "handler_inv ?h" using assms(1) by (auto simp: handler_inv_def bt_wf_filter)
  moreover have "remove_closed e (closed_subscription_ids e w ?h) ?h = Some h'"
    using assms(2) by (simp add: failed_unsubscribe_def Let_def)
  ultimately show ?thesis by (rule remove_closed_inv)
qed

lemma handler_inv_same:
  "handler_inv h \<Longrightarrow> subscriptions h' = subscriptions h \<Longrightarrow> h_pinger h' = h_pinger h \<Longrightarrow>
     multiplexed_subscriptions h' = multiplexed_subscriptions h \<Longrightarrow> handler_inv h'"
  by (simp add: handler_inv_def)

lemma write_step_inv: "handler_inv h \<Longrightarrow> write_step e h w = Some (out, again, h', w') \<Longrightarrow> handler_inv h'"
  by (erule handler_inv_same)
     (auto simp: write_step_def Let_def split: bind_splits if_splits prod.splits poll.splits sum.splits)

lemma poll_finish_inv: "handler_inv h \<Longrightarrow> poll_finish e ro h w = Some (r, h', w') \<Longrightarrow> handler_inv h'"
  by (erule handler_inv_same)
     (auto simp: poll_finish_def Let_def split: bind_splits if_splits poll.splits sum.splits)

lemma poll_requests_inv:
  "handler_inv h \<Longrightarrow> poll_requests e h w = Some (h', w') \<Longrightarrow> handler_inv h'"
  by (auto simp: poll_requests_def begin_shutdown_def split: bind_splits if_splits prod.splits
      dest: failed_unsubscribe_inv intro: handler_inv_same)

text \<open>The channel of the clients yields such commands only.\<close>

definition commands_ok :: "('c, 's, 'o, 'w, 'z) env_scheme \<Rightarrow> bool" where
  "commands_ok e \<longleftrightarrow> (\<forall>n w cmds w'. poll_recv_many e n w = (Ready cmds, w') \<longrightarrow> (\<forall>cmd\<in>set cmds. command_ok cmd))"

definition keeps_inv ::
    "('c, 's, 'o, 'w, 'z) env_scheme \<Rightarrow> ('c, 's, 'o) handler \<Rightarrow> ('c, 's, 'o) handler \<Rightarrow> bool" where
  "keeps_inv e h h' \<longleftrightarrow> (commands_ok e \<longrightarrow> handler_inv h \<longrightarrow> handler_inv h')"

lemma keeps_inv_same:
  "subscriptions h' = subscriptions h \<Longrightarrow> h_pinger h' = h_pinger h \<Longrightarrow>
     multiplexed_subscriptions h' = multiplexed_subscriptions h \<Longrightarrow> keeps_inv e h h'"
  by (auto simp: keeps_inv_def intro: handler_inv_same)

interpretation tables: handler_step e dbg "\<lambda>h _ h' _. keeps_inv e h h'"
  for e :: "('c, 's, 'o, 'w, 'z) env_scheme" and dbg
proof
  fix h h' :: "('c, 's, 'o) handler" and op c w1 out w' w n cmds
  show "poll_read_next e (conn h) w = Some (Ready (Inr op), c, w1) \<Longrightarrow>
      handle_server_op e op (h\<lparr>conn := c\<rparr>) w1 = Some (out, h', w') \<Longrightarrow> keeps_inv e h h'"
    using handler_inv_same [of h "h\<lparr>conn := c\<rparr>"] handle_server_op_inv unfolding keeps_inv_def by fastforce
  show "poll_recv_many e n w = (Ready cmds, w') \<Longrightarrow>
      handle_commands e dbg cmds (h\<lparr>recv_buf := recv_buf h @ cmds\<rparr>) = Some h' \<Longrightarrow> keeps_inv e h h'"
    unfolding keeps_inv_def commands_ok_def
    by (blast intro: handle_commands_inv handler_inv_same [of h "h\<lparr>recv_buf := recv_buf h @ cmds\<rparr>", simplified])
  show "pinger_poll e (enqueue_write_op e C_Ping) (h_pinger h) (conn h) w = Some (po, p, c, w') \<Longrightarrow>
      keeps_inv e h (h\<lparr>h_pinger := p, conn := c\<rparr>)" for po p
    using pinger_poll_inv unfolding keeps_inv_def handler_inv_def by fastforce
  show "pinger_reset e (h_pinger h) w = (p, w') \<Longrightarrow> keeps_inv e h (h\<lparr>h_pinger := p\<rparr>)" for p
    using pinger_other_inv(2) [of "h_pinger h" e w] unfolding keeps_inv_def handler_inv_def by fastforce
  show "write_step e h w = Some (out, again, h', w') \<Longrightarrow> keeps_inv e h h'" for again
    unfolding keeps_inv_def by (blast intro: write_step_inv)
  show "poll_requests e h w = Some (h', w') \<Longrightarrow> keeps_inv e h h'"
    unfolding keeps_inv_def by (blast intro: poll_requests_inv)
  show "poll_finish e ro h w = Some (r', h', w') \<Longrightarrow> keeps_inv e h h'" for ro r'
    unfolding keeps_inv_def by (blast intro: poll_finish_inv)
qed (auto intro: keeps_inv_same, auto simp: keeps_inv_def)

section \<open>Delivery\<close>

text \<open>A run of messages for one subscription.\<close>

fun handle_messages ::
    "('c, 's, 'o, 'w, 'z) env_scheme \<Rightarrow> server_message list \<Rightarrow> ('c, 's, 'o) handler \<Rightarrow> 'w \<Rightarrow>
     (('c, 's, 'o) handler \<times> 'w) option" where
  "handle_messages e [] h w = Some (h, w)"
| "handle_messages e (m # ms) h w = do {
     (_, h, w) \<leftarrow> handle_server_op e (S_Message m) h w;
     handle_messages e ms h w }"

definition never_closed :: "('c, 's, 'o, 'w, 'z) env_scheme \<Rightarrow> bool" where
  "never_closed e \<longleftrightarrow> (\<forall>s m w. fst (try_send e s m w) \<noteq> Closed)"

lemma handle_messages_unknown:
  assumes "bt_get sub_key sid (subscriptions h) = None" and "sid \<noteq> MULTIPLEXED_SUBSCRIPTION_ID"
    and "\<forall>m\<in>set ms. subscription_id m = sid"
  shows "handle_messages e ms h w = Some (h, w)"
  using assms(3) by (induction ms) (simp_all add: assms(1,2) handle_message_def)

lemma handle_messages_limited:
  assumes "never_closed e" and "sid \<noteq> MULTIPLEXED_SUBSCRIPTION_ID" and "\<forall>m\<in>set ms. subscription_id m = sid"
    and "bt_wf sub_key (subscriptions h)" and "bt_get sub_key sid (subscriptions h) = Some sub"
    and "remaining sub = Some n" and "n \<noteq> 0"
  shows "\<exists>h' w'. handle_messages e ms h w = Some (h', w') \<and>
      handle_messages e (take (unat n) ms) h w = Some (h', w') \<and>
      bt_get sub_key sid (subscriptions h') =
        (if length ms < unat n then Some (sub\<lparr>remaining := Some (n - of_nat (length ms))\<rparr>) else None)"
  using assms(3-)
proof (induction ms arbitrary: h w sub n)
  case Nil
  then have "sub\<lparr>remaining := Some n\<rparr> = sub" by simp
  with Nil show ?case by (simp add: unat_gt_0)
next
  case (Cons m ms)
  obtain r w1 where ts: "try_send e (messages sub) (Ok m) w = (r, w1)" by fastforce
  with assms(1) have r: "r \<noteq> Closed" unfolding never_closed_def by (metis fst_conv)
  have m: "subscription_id m = sid" using Cons.prems(1) by simp
  have un: "unat (n - 1) = unat n - 1" "0 < unat n"
    using Cons.prems(5) by (simp_all add: unat_minus_one unat_gt_0)
  show ?case
  proof (cases "n - 1 = 0")
    case True
    let ?h = "h\<lparr>subscriptions := bt_remove sub_key sid (subscriptions h)\<rparr>"
    have step: "handle_server_op e (S_Message m) h w = Some (None, ?h, w1)"
      using assms(2) m Cons.prems(3,4) ts r True by (simp add: handle_message_def dec_remaining_def)
    have "unat n = 1" using True un by (metis One_nat_def Suc_pred unat_0)
    moreover have "handle_messages e ms ?h w1 = Some (?h, w1)"
      using Cons.prems(1,2) assms(2) by (intro handle_messages_unknown [of sid]) simp_all
    ultimately show ?thesis using step Cons.prems(2) by simp
  next
    case False
    let ?sub = "sub\<lparr>remaining := Some (n - 1)\<rparr>"
    let ?h = "h\<lparr>subscriptions := bt_insert sub_key sid ?sub (subscriptions h)\<rparr>"
    have step: "handle_server_op e (S_Message m) h w = Some (None, ?h, w1)"
      using assms(2) m Cons.prems(3,4) ts r False by (simp add: handle_message_def dec_remaining_def)
    have IH: "\<exists>h' w'. handle_messages e ms ?h w1 = Some (h', w') \<and>
        handle_messages e (take (unat (n - 1)) ms) ?h w1 = Some (h', w') \<and>
        bt_get sub_key sid (subscriptions h') = (if length ms < unat (n - 1)
          then Some (?sub\<lparr>remaining := Some (n - 1 - of_nat (length ms))\<rparr>) else None)"
      using Cons.prems False by (intro Cons.IH) (simp_all add: bt_wf_insert)
    obtain k where k: "unat n = Suc k" using un(2) by (cases "unat n") auto
    with un have k': "unat (n - 1) = k" by simp
    from IH obtain h2 w2 where "handle_messages e ms ?h w1 = Some (h2, w2)"
        "handle_messages e (take k ms) ?h w1 = Some (h2, w2)" "bt_get sub_key sid (subscriptions h2) =
        (if length ms < k then Some (sub\<lparr>remaining := Some (n - 1 - of_nat (length ms))\<rparr>) else None)"
      unfolding k' by auto
    with step k show ?thesis
      by (intro exI [of _ h2] exI [of _ w2]) (simp add: diff_diff_eq)
  qed
qed

text \<open>A receiver that was dropped without unsubscribing: every message is answered with one more
  \<open>UNSUB\<close>, and the subscription stays.\<close>

fun enqueue_all :: "('c, 's, 'o, 'w, 'z) env_scheme \<Rightarrow> client_op list \<Rightarrow> 'c \<Rightarrow> 'c option" where
  "enqueue_all e [] c = Some c"
| "enqueue_all e (op # ops) c = Option.bind (enqueue_write_op e op c) (enqueue_all e ops)"

lemma enqueue_all_append:
  "enqueue_all e (ops @ ops') c = Option.bind (enqueue_all e ops c) (enqueue_all e ops')"
proof (induction ops arbitrary: c)
  case (Cons op ops)
  then show ?case by (cases "enqueue_write_op e op c") simp_all
qed simp

lemma handle_messages_closed:
  assumes "sid \<noteq> MULTIPLEXED_SUBSCRIPTION_ID" and "\<forall>m\<in>set ms. subscription_id m = sid"
    and "bt_get sub_key sid (subscriptions h) = Some sub"
    and "\<And>m w. fst (try_send e (messages sub) m w) = Closed"
    and "handle_messages e ms h w = Some (h', w')"
  shows "subscriptions h' = subscriptions h \<and>
    enqueue_all e (replicate (length ms) (C_Unsubscribe sid None)) (conn h) = Some (conn h') \<and>
    in_flight_commands h' = in_flight_commands h @ replicate (length ms) Unimportant"
  using assms(2,3,5)
proof (induction ms arbitrary: h w)
  case (Cons m ms)
  obtain w1 where ts: "try_send e (messages sub) (Ok m) w = (Closed, w1)"
    using assms(4) [of "Ok m" w] by (metis prod.collapse)
  have m: "subscription_id m = sid" using Cons.prems(1) by simp
  obtain h1 where h1: "h_enqueue e (C_Unsubscribe sid None) (push_in_flight Unimportant h) = Some h1"
      and rest: "handle_messages e ms h1 w1 = Some (h', w')"
    using Cons.prems(2,3) m assms(1) ts by (auto simp: handle_message_def Let_def split: bind_splits)
  have c: "subscriptions h1 = subscriptions h" "in_flight_commands h1 = in_flight_commands h @ [Unimportant]"
      "enqueue_write_op e (C_Unsubscribe sid None) (conn h) = Some (conn h1)"
    using h1 by (auto simp: h_enqueue_def)
  with Cons.IH [OF _ _ rest] Cons.prems(1,2) show ?case by simp
qed simp

section \<open>Failed unsubscribes\<close>

lemma remove_closed_get:
  assumes "bt_wf sub_key (subscriptions h)" and "remove_closed e ids h = Some h'"
  shows "bt_wf sub_key (subscriptions h') \<and> bt_get sub_key sid (subscriptions h') =
    (if sid \<in> fst ` set ids then None else bt_get sub_key sid (subscriptions h))"
  using assms
proof (induction ids arbitrary: h)
  case (Cons p ids)
  obtain i reason where p: "p = (i, reason)" by (cases p)
  obtain h1 where h1: "(if reason = Dropped
      then h_enqueue e (C_Unsubscribe i None) (push_in_flight Unimportant h) else Some h) = Some h1"
      "remove_closed e ids (h1\<lparr>subscriptions := bt_remove sub_key i (subscriptions h1)\<rparr>) = Some h'"
    using Cons.prems(2) unfolding p remove_closed.simps by (rule bind_SomeE)
  from h1(1) have "subscriptions h1 = subscriptions h" by (auto split: if_splits dest!: h_enqueue_sel)
  with Cons.IH [OF _ h1(2)] Cons.prems(1) p show ?case by (simp add: bt_wf_remove)
qed simp

lemma closed_ids_iff:
  assumes "bt_wf sub_key (subscriptions h)"
  shows "sid \<in> fst ` set (closed_subscription_ids e w h) \<longleftrightarrow>
    (\<exists>sub. bt_get sub_key sid (subscriptions h) = Some sub \<and> close_reason_of e w sub \<noteq> None)"
proof
  assume "sid \<in> fst ` set (closed_subscription_ids e w h)"
  then obtain sub where "(sid, sub) \<in> set (subscriptions h)" "close_reason_of e w sub \<noteq> None"
    by (auto simp: closed_subscription_ids_def map_filter_def)
  with bt_in_set_get [OF assms] show "\<exists>sub. bt_get sub_key sid (subscriptions h) = Some sub \<and>
      close_reason_of e w sub \<noteq> None" by blast
next
  assume "\<exists>sub. bt_get sub_key sid (subscriptions h) = Some sub \<and> close_reason_of e w sub \<noteq> None"
  then show "sid \<in> fst ` set (closed_subscription_ids e w h)"
    by (force simp: closed_subscription_ids_def map_filter_def dest: bt_get_sub_key)
qed

lemma failed_unsubscribe_get:
  assumes "bt_wf sub_key (subscriptions h)" and "failed_unsubscribe e w h = Some h'"
  shows "bt_get sub_key sid (subscriptions h') =
    (case bt_get sub_key sid (subscriptions h) of
       None \<Rightarrow> None
     | Some sub \<Rightarrow> if close_reason_of e w sub = None then Some sub else None)"
proof -
  define h1 where "h1 = h\<lparr>h_quick_info := store_is_failed_unsubscribe False (h_quick_info h), multiplexed_subscriptions :=
      map_option (filter (\<lambda>(_, sender). \<not> oneshot_is_closed e sender w)) (multiplexed_subscriptions h)\<rparr>"
  have "remove_closed e (closed_subscription_ids e w h1) h1 = Some h'" "subscriptions h1 = subscriptions h"
    using assms(2) by (simp_all add: failed_unsubscribe_def Let_def h1_def)
  with assms(1) remove_closed_get [of h1 e _ h' sid] closed_ids_iff [of h1 sid e w] show ?thesis
    by (auto split: option.splits)
qed

text \<open>An \<open>UNSUB\<close> is written for each dropped receiver, in the order of the identifiers.\<close>

definition dropped_ids :: "(subscription_id \<times> close_reason) list \<Rightarrow> subscription_id list" where
  "dropped_ids ids = map fst (filter (\<lambda>p. snd p = Dropped) ids)"

lemma remove_closed_unsubscribes:
  "remove_closed e ids h = Some h' \<Longrightarrow>
    enqueue_all e (map (\<lambda>sid. C_Unsubscribe sid None) (dropped_ids ids)) (conn h) = Some (conn h')"
proof (induction e ids h rule: remove_closed.induct)
  case (2 e sid reason ids h)
  then obtain h1 where h1: "(if reason = Dropped
      then h_enqueue e (C_Unsubscribe sid None) (push_in_flight Unimportant h) else Some h) = Some h1"
      "remove_closed e ids (h1\<lparr>subscriptions := bt_remove sub_key sid (subscriptions h1)\<rparr>) = Some h'"
    unfolding remove_closed.simps by (blast elim: bind_SomeE)
  with "2.IH" [OF this] show ?case
    by (auto simp: dropped_ids_def h_enqueue_def split: if_splits)
qed (simp add: dropped_ids_def)

lemma failed_unsubscribe_unsubscribes:
  assumes "failed_unsubscribe e w h = Some h'"
  shows "enqueue_all e (map (\<lambda>sid. C_Unsubscribe sid None) (dropped_ids (closed_subscription_ids e w h))) (conn h) =
    Some (conn h')"
proof -
  have "closed_subscription_ids e w (h\<lparr>h_quick_info := q, multiplexed_subscriptions := m\<rparr>) = closed_subscription_ids e w h"
    for q m by (simp add: closed_subscription_ids_def)
  with assms remove_closed_unsubscribes show ?thesis by (fastforce simp: failed_unsubscribe_def Let_def)
qed

section \<open>A new connection\<close>

text \<open>What is written for each subscription on a new connection.\<close>

definition resubscribe_ops :: "subscription_id \<times> 's subscription \<Rightarrow> client_op list" where
  "resubscribe_ops p = C_Subscribe (fst p) (sub_subject (snd p)) (sub_queue_group (snd p)) #
     (case remaining (snd p) of None \<Rightarrow> [] | Some n \<Rightarrow> [C_Unsubscribe (fst p) (Some n)])"

lemma resubscribe_eq:
  assumes "resubscribe e subs q c = Some (q', c')"
  shows "enqueue_all e (concat (map resubscribe_ops subs)) c = Some c' \<and>
    q' = q @ concat (map in_flight_of (concat (map resubscribe_ops subs)))"
  using assms
proof (induction subs arbitrary: q c)
  case (Cons p subs)
  obtain sid sub where p: "p = (sid, sub)" by (cases p)
  obtain c1 where c1: "enqueue_write_op e (C_Subscribe sid (sub_subject sub) (sub_queue_group sub)) c = Some c1"
    using Cons.prems by (auto simp: p split: bind_splits)
  show ?case
  proof (cases "remaining sub")
    case None
    with Cons.prems c1 have "resubscribe e subs (q @ [In_Subscribe sid]) c1 = Some (q', c')" by (simp add: p)
    from Cons.IH [OF this] None c1 show ?thesis by (simp add: p resubscribe_ops_def)
  next
    case (Some n)
    with Cons.prems c1 obtain c2 where c2: "enqueue_write_op e (C_Unsubscribe sid (Some n)) c1 = Some c2"
        "resubscribe e subs (q @ [In_Subscribe sid, Unimportant]) c2 = Some (q', c')"
      by (auto simp: p split: bind_splits)
    from Cons.IH [OF c2(2)] Some c1 c2(1) show ?thesis by (simp add: p resubscribe_ops_def)
  qed
qed simp

lemma handler_connect_resubscribes:
  assumes "handler_connect e is_zstd dly (Connected c info) r w = Some (Ok (Some h), w')"
  shows "enqueue_all e (concat (map resubscribe_ops (r_subscriptions r))) c = Some (conn h)"
    and "in_flight_commands h = concat (map in_flight_of (concat (map resubscribe_ops (r_subscriptions r))))"
    and "subscriptions h = r_subscriptions r" and "multiplexed_subscriptions h = None"
    and "h_info h = Some info" and "is_connected (quick_info_get (h_quick_info h))"
    and "\<not> shutting_down h" and "pending_pings (h_pinger h) = 0"
proof -
  obtain q c' where rs: "resubscribe e (r_subscriptions r) [] c = Some (q, c')"
    using assms by (auto simp: handler_connect_def split: bind_splits)
  from assms rs have h: "conn h = c'" "in_flight_commands h = q" "subscriptions h = r_subscriptions r"
      "multiplexed_subscriptions h = None" "h_info h = Some info" "\<not> shutting_down h"
      "pending_pings (h_pinger h) = 0"
      "h_quick_info h = quick_info_store (connected_update (is_streaming e c \<and> is_zstd c)) (r_quick_info r)"
    by (auto simp: handler_connect_def pinger_new_def Let_def split: prod.splits)
  note eq = resubscribe_eq [OF rs]
  show "enqueue_all e (concat (map resubscribe_ops (r_subscriptions r))) c = Some (conn h)"
    and "in_flight_commands h = concat (map in_flight_of (concat (map resubscribe_ops (r_subscriptions r))))"
    using eq h by simp_all
  show "is_connected (quick_info_get (h_quick_info h))"
    unfolding h(8) get_store by (simp add: connected_update_def)
qed (use assms in \<open>auto simp: handler_connect_def pinger_new_def Let_def split: prod.splits bind_splits\<close>)

end
