(* ===== verification/Handler_Net.thy ===== *)
theory Handler_Net
  imports Connection Sockets Handler_Spec
begin

text \<open>
  The handler on the connection of \<open>watermelon-net\<close>: the environment of \<open>Handler\<close> is built from the
  operations of \<open>Connection\<close>, and what remains of it, tokio's channels, clock and budget, is the record
  \<open>tokio\<close>. Closing and recycling a handler (\<open>watermelon/src/handler/mod.rs\<close>) are here, since they wait on
  the connection. The properties relate the bytes on the socket to the operations of the handler.
\<close>

record ('s, 'o, 'w) tokio = "'w clock_ops" +
  t_try_send :: "'s \<Rightarrow> server_error + server_message \<Rightarrow> 'w \<Rightarrow> try_send_result \<times> 'w"
  t_is_closed :: "'s \<Rightarrow> 'w \<Rightarrow> bool"
  t_oneshot_send :: "'o \<Rightarrow> server_message \<Rightarrow> 'w \<Rightarrow> 'w"
  t_oneshot_is_closed :: "'o \<Rightarrow> 'w \<Rightarrow> bool"
  t_poll_recv_many :: "nat \<Rightarrow> 'w \<Rightarrow> ('s, 'o) handler_command list poll \<times> 'w"
  t_close_commands :: "'w \<Rightarrow> 'w"
  t_poll_shutdown :: "'w \<Rightarrow> bool \<times> 'w"
  t_has_budget_remaining :: "'w \<Rightarrow> bool"

text \<open>Errors of the connection are all alike to the handler.\<close>

definition forget_error :: "('r \<times> 'c \<times> 'w) \<Rightarrow> ('r \<Rightarrow> 'q) \<Rightarrow> 'q \<times> 'c \<times> 'w" where
  "forget_error x f = (case x of (r, c, w) \<Rightarrow> (f r, c, w))"

definition no_error :: "('e + 'a) poll \<Rightarrow> (unit + 'a) poll" where
  "no_error = map_poll (map_err (\<lambda>_. ()))"

definition handler_env ::
    "('j, 'k, 'l, 'i, 'x, 'w) net \<Rightarrow> bool \<Rightarrow> ('s, 'o, 'w) tokio \<Rightarrow> (('k, 'l, 'i) connection, 's, 'o, 'w) env" where
  "handler_env n dbg t =
     \<lparr> now = now t, poll_sleep = poll_sleep t,
       enqueue_write_op = connection_enqueue_write_op n dbg,
       may_enqueue_more_ops = connection_may_enqueue_more_ops n dbg,
       poll_read_next = (\<lambda>c w. map_option (\<lambda>x. forget_error x no_error) (connection_poll_read_next n dbg c w)),
       is_streaming = (\<lambda>c. case c of Streaming _ \<Rightarrow> True | Websocket _ \<Rightarrow> False),
       may_write = (\<lambda>c. case c of Streaming s \<Rightarrow> streaming_may_write dbg s | Websocket _ \<Rightarrow> None),
       poll_write_next = (\<lambda>c w. case c of
           Streaming s \<Rightarrow> map_option (\<lambda>(r, s, w). (no_error r, Streaming s, w)) (streaming_poll_write_next dbg (net_socket n) s w)
         | Websocket _ \<Rightarrow> None),
       should_flush = connection_should_flush,
       poll_flush = (\<lambda>c w. map_option (\<lambda>x. forget_error x no_error) (connection_poll_flush n c w)),
       try_send = t_try_send t, is_closed = t_is_closed t, oneshot_send = t_oneshot_send t,
       oneshot_is_closed = t_oneshot_is_closed t, poll_recv_many = t_poll_recv_many t,
       close_commands = t_close_commands t, poll_shutdown = t_poll_shutdown t,
       has_budget_remaining = t_has_budget_remaining t \<rparr>"

section \<open>Closing and recycling\<close>

definition CLOSE_TIMEOUT :: nat where "CLOSE_TIMEOUT = 5 * 1000000000"

text \<open>\<open>timeout(CLOSE_TIMEOUT, ...)\<close> around the reads: the reads are polled first, then the timer.\<close>

partial_function (option) close_wait ::
    "('j, 'k, 'l, 'i, 'x, 'w) net \<Rightarrow> bool \<Rightarrow> ('s, 'o, 'w) tokio \<Rightarrow> nat \<Rightarrow> ('k, 'l, 'i) connection \<Rightarrow> 'w \<Rightarrow>
     (('k, 'l, 'i) connection \<times> 'w) option" where
  "close_wait n dbg t deadline c w = do {
     (r, c, w) \<leftarrow> connection_poll_read_next n dbg c w;
     (case r of
        Ready (Inr _) \<Rightarrow> close_wait n dbg t deadline c w
      | Ready (Inl _) \<Rightarrow> Some (c, w)
      | Pending \<Rightarrow> (case poll_sleep t deadline w of (elapsed, w) \<Rightarrow>
          if elapsed then Some (c, w) else close_wait n dbg t deadline c w)) }"

definition handler_close ::
    "('j, 'k, 'l, 'i, 'x, 'w) net \<Rightarrow> bool \<Rightarrow> ('s, 'o, 'w) tokio \<Rightarrow> (('k, 'l, 'i) connection, 's, 'o) handler \<Rightarrow> 'w \<Rightarrow>
     ((('k, 'l, 'i) connection, 's, 'o) handler \<times> 'w) option" where
  "handler_close n dbg t h w = do {
     let h = h\<lparr>h_quick_info := store_is_connected False (h_quick_info h)\<rparr>;
     (r, c, w) \<leftarrow> await (connection_poll_shutdown n) (conn h) w;
     let h = h\<lparr>conn := c\<rparr>;
     (case r of
        Inl _ \<Rightarrow> Some (h, w)
      | Inr _ \<Rightarrow> (case now t w of (start, w) \<Rightarrow> do {
          (c, w) \<leftarrow> close_wait n dbg t (start + CLOSE_TIMEOUT) (conn h) w;
          Some (h\<lparr>conn := c\<rparr>, w) })) }"

definition recycle_run ::
    "('j, 'k, 'l, 'i, 'x, 'w) net \<Rightarrow> (('k, 'l, 'i) connection, 's, 'o) handler \<Rightarrow> 'w \<Rightarrow>
     ('s recycled_handler \<times> 'w) option" where
  "recycle_run n h w = do {
     (_, _, w) \<leftarrow> await (connection_poll_shutdown n) (conn h) w;
     Some (handler_recycle h, w) }"

section \<open>The bytes of the operations\<close>

text \<open>A streaming connection whose bytes, sent or held, are \<open>b\<close>.\<close>

definition carries ::
    "('j, 'k, 'l, 'i, 'x, 'w) net \<Rightarrow> ('k \<Rightarrow> bytes) \<Rightarrow> bytes \<Rightarrow> ('k, 'l, 'i) connection \<Rightarrow> bool" where
  "carries n sent b cn \<longleftrightarrow> (\<exists>c. cn = Streaming c \<and> stream_inv (sc_encoder c) \<and>
     decoder_inv (net_json n) (sc_decoder c) \<and> enqueued sent c = b)"

fun event_text :: "('j, 'z) json_ext_scheme \<Rightarrow> conn_event \<Rightarrow> bytes" where
  "event_text e (Enqueued op) = client_op_text e op"
| "event_text e (Received op) = []"

lemma carries_enqueue:
  assumes "carries n sent b c" and "connection_enqueue_write_op n dbg op c = Some c'"
  shows "carries n sent (b @ client_op_text (net_json n) op) c'"
proof -
  from assms(1) obtain s where s: "c = Streaming s" "stream_inv (sc_encoder s)"
      "decoder_inv (net_json n) (sc_decoder s)" "enqueued sent s = b" by (auto simp: carries_def)
  with streaming_enqueue_appends [OF s(2), of "net_json n" dbg op] assms(2) show ?thesis
    by (auto simp: carries_def connection_enqueue_write_op_def enqueued_def)
qed

lemma carries_read:
  assumes sink: "byte_sink (net_socket n) sent" and e: "ext_ok (net_json n)" and c: "carries n sent b c"
    and "connection_poll_read_next n False c w = Some (r, c', w')"
  shows "carries n sent b c'"
proof -
  from c obtain s where s: "c = Streaming s" "stream_inv (sc_encoder s)"
      "decoder_inv (net_json n) (sc_decoder s)" "enqueued sent s = b" by (auto simp: carries_def)
  from streaming_read_explained [OF e s(3), of "net_socket n" w] obtain q s' w1 cs where
      q: "streaming_poll_read_next (net_json n) False (net_socket n) s w = Some (q, s', w1)"
        "decoder_inv (net_json n) (sc_decoder s')" "sc_encoder s' = sc_encoder s"
        "read_explained (net_json n) (net_socket n) s w (q, s', w1) cs" by blast
  with assms(4) s(1) have "c' = Streaming s'" by (simp add: connection_poll_read_next_def)
  with q s byte_sink.poll_read_next_keeps [OF sink q(4,3)] show ?thesis by (simp add: carries_def)
qed

lemma carries_ready:
  "carries n sent b c \<Longrightarrow> connection_may_enqueue_more_ops n dbg c w = Some (room, c', w') \<Longrightarrow> carries n sent b c'"
  by (auto simp: carries_def connection_may_enqueue_more_ops_def)

lemma carries_write:
  assumes sink: "byte_sink (net_socket n) sent" and "carries n sent b (Streaming s)"
    and "streaming_poll_write_next dbg (net_socket n) s w = Some (r, s', w')"
  shows "carries n sent b (Streaming s')"
  using byte_sink.poll_write_next_keeps [OF sink, of s dbg w] assms(2,3) by (auto simp: carries_def)

lemma carries_flush:
  assumes sink: "byte_sink (net_socket n) sent" and c: "carries n sent b c"
    and "connection_poll_flush n c w = Some (r, c', w')"
  shows "carries n sent b c'"
proof -
  from c obtain s where s: "c = Streaming s" by (auto simp: carries_def)
  obtain q s' w1 where q: "streaming_poll_flush (net_socket n) s w = (q, s', w1)"
    by (cases "streaming_poll_flush (net_socket n) s w")
  with byte_sink.poll_flush_keeps [OF sink q] assms(2,3) s show ?thesis
    by (auto simp: carries_def connection_poll_flush_def)
qed

lemma handler_env_sel:
  "enqueue_write_op (handler_env n dbg t) op c = connection_enqueue_write_op n dbg op c"
  "may_enqueue_more_ops (handler_env n dbg t) c w = connection_may_enqueue_more_ops n dbg c w"
  "poll_read_next (handler_env n dbg t) c w =
     map_option (\<lambda>(r, c, w). (map_poll (map_err (\<lambda>_. ())) r, c, w)) (connection_poll_read_next n dbg c w)"
  "poll_write_next (handler_env n dbg t) c w = (case c of
     Streaming s \<Rightarrow> map_option (\<lambda>(r, s, w). (map_poll (map_err (\<lambda>_. ())) r, Streaming s, w))
       (streaming_poll_write_next dbg (net_socket n) s w)
   | Websocket _ \<Rightarrow> None)"
  "poll_flush (handler_env n dbg t) c w =
     map_option (\<lambda>(r, c, w). (map_poll (map_err (\<lambda>_. ())) r, c, w)) (connection_poll_flush n c w)"
  by (simp_all add: handler_env_def forget_error_def no_error_def split: connection.split)

lemma conn_trace_carries:
  assumes sink: "byte_sink (net_socket n) sent" and e: "ext_ok (net_json n)"
    and "conn_trace (handler_env n False t) c evs c'" and "carries n sent b c"
  shows "carries n sent (b @ concat (map (event_text (net_json n)) evs)) c'"
  using assms(3,4)
proof (induction rule: conn_trace.induct)
  case (enqueue evs c1 op c2)
  then have "carries n sent (b @ concat (map (event_text (net_json n)) evs)) c1" by blast
  from carries_enqueue [OF this] enqueue.hyps(2) show ?case by (simp add: handler_env_sel)
next
  case (receive evs c1 w op c2 w')
  then have c1: "carries n sent (b @ concat (map (event_text (net_json n)) evs)) c1" by blast
  from receive.hyps(2) obtain r where "connection_poll_read_next n False c1 w = Some (r, c2, w')" by (auto simp: handler_env_sel)
  from carries_read [OF sink e c1 this] show ?case by simp
next
  case (idle evs c1 w r c2 w')
  then have c1: "carries n sent (b @ concat (map (event_text (net_json n)) evs)) c1" by blast
  from idle.hyps(2) obtain r where "connection_poll_read_next n False c1 w = Some (r, c2, w')" by (auto simp: handler_env_sel)
  from carries_read [OF sink e c1 this] show ?case by simp
next
  case (ready evs c1 w room c2 w')
  then have c1: "carries n sent (b @ concat (map (event_text (net_json n)) evs)) c1" by blast
  from carries_ready [OF this] ready.hyps(2) show ?case by (simp add: handler_env_sel)
next
  case (wrote evs c1 w r' c2 w')
  then have c1: "carries n sent (b @ concat (map (event_text (net_json n)) evs)) c1" by blast
  then obtain s where s: "c1 = Streaming s" by (auto simp: carries_def)
  with wrote.hyps(2) obtain r s' where p: "streaming_poll_write_next False (net_socket n) s w = Some (r, s', w')"
      "c2 = Streaming s'" by (auto simp: handler_env_sel)
  from carries_write [OF sink c1 [unfolded s] p(1)] p(2) show ?case by simp
next
  case (flush evs c1 w r'' c2 w')
  then have c1: "carries n sent (b @ concat (map (event_text (net_json n)) evs)) c1" by blast
  from flush.hyps(2) obtain r where "connection_poll_flush n c1 w = Some (r, c2, w')" by (auto simp: handler_env_sel)
  from carries_flush [OF sink c1 this] show ?case by simp
qed simp

section \<open>An example environment\<close>

text \<open>A connection in memory, and a runtime on which no timer fires and no channel has anything to give.\<close>

definition memory_net :: "(unit, memory, unit, unit, unit, unit) net" where
  "memory_net = \<lparr> net_json = ref_json (\<lambda>_. Err ()) (\<lambda>_. ''{}''), net_socket = memory_ops,
     net_ws = \<lparr> ws_poll_next = (\<lambda>k w. (Pending, k, w)), ws_poll_ready = (\<lambda>k w. (Ready (Ok ()), k, w)),
       ws_start_send = (\<lambda>b k. (Ok (), k)), ws_poll_flush = (\<lambda>k w. (Ready (Ok ()), k, w)),
       ws_poll_close = (\<lambda>k w. (Ready (Ok ()), k, w)), io_error_other = (\<lambda>x. x) \<rparr> \<rparr>"

definition idle_tokio :: "(unit, unit, unit) tokio" where
  "idle_tokio = \<lparr> now = (\<lambda>w. (0, w)), poll_sleep = (\<lambda>d w. (False, w)),
     t_try_send = (\<lambda>s m w. (Sent, w)), t_is_closed = (\<lambda>s w. False),
     t_oneshot_send = (\<lambda>s m w. w), t_oneshot_is_closed = (\<lambda>s w. False),
     t_poll_recv_many = (\<lambda>k w. (Pending, w)), t_close_commands = (\<lambda>w. w),
     t_poll_shutdown = (\<lambda>w. (False, w)), t_has_budget_remaining = (\<lambda>w. True) \<rparr>"

definition ping_text :: bytes where "ping_text = ''PING'' @ CRLF"
definition pong_text :: bytes where "pong_text = ''PONG'' @ CRLF"

text \<open>A connection with \<open>inp\<close> read, \<open>held\<close> to be written and \<open>out\<close> written, and a handler on it.\<close>

definition memory_connection :: "bytes \<Rightarrow> bytes \<Rightarrow> bytes \<Rightarrow> bool \<Rightarrow> (memory, unit, unit) connection" where
  "memory_connection inp held out mf = Streaming \<lparr> sc_socket = ([], out),
     sc_encoder = stream_encoder_new\<lparr>flattened_writes := held\<rparr>,
     sc_decoder = stream_decoder_put inp stream_decoder_new, sc_may_flush = mf \<rparr>"

definition memory_handler ::
    "bytes \<Rightarrow> bytes \<Rightarrow> bool \<Rightarrow> delayed \<Rightarrow> ((memory, unit, unit) connection, unit, unit) handler" where
  "memory_handler inp held stop d = \<lparr> conn = memory_connection inp held [] False,
     h_info = None, h_quick_info = raw_quick_info_new, delayed_write = d, writing = False, flushing = False,
     shutting_down = stop, h_pinger = \<lparr> interval = INTERVAL, pending_pings = 0 \<rparr>, recv_buf = [],
     in_flight_commands = [], multiplexed_subscription_prefix = Subject ''_INBOX.a'',
     multiplexed_subscriptions = None, subscriptions = [] \<rparr>"

lemma memory_net_sel:
  "net_json memory_net = ref_json (\<lambda>_. Err ()) (\<lambda>_. ''{}'')" "net_socket memory_net = memory_ops"
  "sock_poll_read memory_ops ([], b) w = (Pending, ([], b), w)" "sock_is_write_vectored memory_ops k"
  "sock_poll_write memory_ops b k w = (Ready (Ok (length b)), (fst k, snd k @ b), w)"
  "sock_poll_flush memory_ops k w = (Ready (Ok ()), k, w)"
  "sock_poll_shutdown memory_ops k w = (Ready (Ok ()), (fst k @ [[]], snd k), w)"
  by (simp_all add: memory_net_def memory_ops_def)

lemma memory_encoder:
  "stream_inv (stream_encoder_new\<lparr>flattened_writes := b\<rparr>)"
  "stream_contents (stream_encoder_new\<lparr>flattened_writes := b\<rparr>) = b"
  using stream_encoder_new_inv by (auto simp: stream_inv_def stream_contents_def stream_encoder_new_def)

lemma memory_read:
  "connection_poll_read_next memory_net False (memory_connection ping_text b out mf) w =
     Some (Ready (Ok S_Ping), memory_connection [] b out mf, w)"
  "connection_poll_read_next memory_net False (memory_connection [] b out mf) w =
     Some (Pending, memory_connection [] b out mf, w)"
  by (simp_all add: ping_text_def connection_poll_read_next_def memory_connection_def stream_decoder_decode_def
      stream_decoder_put_def stream_decoder_new_def streaming_poll_read_next.simps decode_ControlLine [OF ref_json_ok]
      decode_control_line_def map_poll_def sub_p_def truncate_to_def memory_net_sel)

lemma memory_enqueue:
  "connection_enqueue_write_op memory_net False C_Pong (memory_connection inp b out mf) =
     Some (memory_connection inp (b @ pong_text) out mf)"
  by (simp add: pong_text_def connection_enqueue_write_op_def memory_connection_def streaming_enqueue_write_op_def
      Encoder.enqueue_write_op_def stream_encoder_new_def stream_writer_def stream_small_write_def)

lemma memory_room:
  "connection_may_enqueue_more_ops memory_net False (memory_connection inp b out mf) w =
     Some (length b < 8290304, memory_connection inp b out mf, w)"
  by (simp add: connection_may_enqueue_more_ops_def memory_connection_def streaming_may_enqueue_more_ops_def
      stream_remaining_eq memory_encoder)

lemma memory_write:
  "b \<noteq> [] \<Longrightarrow> streaming_poll_write_next False memory_ops \<lparr> sc_socket = ([], out),
       sc_encoder = stream_encoder_new\<lparr>flattened_writes := b\<rparr>, sc_decoder = d, sc_may_flush = mf \<rparr> w =
     Some (Ready (Ok (length b)), \<lparr> sc_socket = ([], out @ b),
       sc_encoder = stream_encoder_new\<lparr>flattened_writes := []\<rparr>, sc_decoder = d, sc_may_flush = True \<rparr>, w)"
  by (simp add: streaming_poll_write_next_def stream_remaining_eq memory_encoder streaming_write_outcome_def
      stream_chunk_def stream_encoder_new_def buf_list_new_def buf_list_chunk_def stream_advance_def memory_net_sel
      stream_remaining_def buf_list_remaining_def buf_list_advance_def flattened_advance_def)

lemma handler_env_memory:
  "poll_sleep (handler_env n dbg t) = poll_sleep t" "now (handler_env n dbg t) = now t"
  "poll_recv_many (handler_env n dbg t) = t_poll_recv_many t"
  "poll_shutdown (handler_env n dbg t) = t_poll_shutdown t"
  "has_budget_remaining (handler_env n dbg t) = t_has_budget_remaining t"
  "enqueue_write_op (handler_env memory_net False t) C_Pong (memory_connection inp b out mf) =
     Some (memory_connection inp (b @ pong_text) out mf)"
  "may_enqueue_more_ops (handler_env memory_net False t) (memory_connection inp b out mf) w =
     Some (length b < 8290304, memory_connection inp b out mf, w)"
  "poll_read_next (handler_env memory_net False t) (memory_connection ping_text b out mf) w =
     Some (Ready (Ok S_Ping), memory_connection [] b out mf, w)"
  "poll_read_next (handler_env memory_net False t) (memory_connection [] b out mf) w =
     Some (Pending, memory_connection [] b out mf, w)"
  "is_streaming (handler_env memory_net False t) (memory_connection inp b out mf)"
  "may_write (handler_env memory_net False t) (memory_connection inp b out mf) = Some (b \<noteq> [])"
  "b \<noteq> [] \<Longrightarrow> poll_write_next (handler_env memory_net False t) (memory_connection inp b out mf) w =
     Some (Ready (Ok (length b)), memory_connection inp [] (out @ b) True, w)"
  "poll_flush (handler_env memory_net False t) (memory_connection inp b out mf) w =
     Some (Ready (Ok ()), memory_connection inp b out False, w)"
  by (simp_all add: handler_env_def forget_error_def no_error_def memory_read memory_enqueue memory_room map_poll_def)
     (simp_all add: memory_connection_def streaming_may_write_eq memory_encoder memory_write memory_net_sel
       connection_poll_flush_def streaming_poll_flush_def no_error_def map_poll_def)

lemma idle_tokio_sel:
  "poll_sleep idle_tokio d w = (False, w)" "now idle_tokio w = (0, w)" "t_poll_recv_many idle_tokio k w = (Pending, w)"
  "t_poll_shutdown idle_tokio w = (False, w)" "t_has_budget_remaining idle_tokio w"
  "pong_text \<noteq> []" "length pong_text = 6"
  by (simp_all add: idle_tokio_def pong_text_def)

lemma quick_info_new_failed: "\<not> is_failed_unsubscribe (quick_info_get raw_quick_info_new)"
  by (simp add: raw_quick_info_new_def quick_info_get_def decode_encode)

lemmas memory_simps = memory_handler_def handler_env_memory idle_tokio_sel quick_info_new_failed

text \<open>A ping that has arrived is answered and the answer written and flushed within one poll.\<close>

lemma memory_write_loop:
  "write_loop (handler_env memory_net False idle_tokio) False (memory_handler [] pong_text False None) w =
     Some (None, NoMoreCommands, (memory_handler [] [] False None)\<lparr>
       conn := memory_connection [] [] pong_text True, flushing := True\<rparr>, w)"
  by (subst write_loop.simps, simp add: receive_command.simps memory_simps write_step_def poll_can_proceed_def,
      subst write_loop.simps, simp add: receive_command.simps memory_simps write_step_def poll_can_proceed_def)

lemma memory_poll_ping:
  "handler_poll (handler_env memory_net False idle_tokio) False (memory_handler ping_text [] False None) w =
     Some (Pending, (memory_handler [] [] False None)\<lparr>conn := memory_connection [] [] pong_text False\<rparr>, w)"
  by (simp add: handler_poll_def pinger_poll_def memory_simps poll_requests_def,
      subst read_loop.simps, simp add: h_enqueue_def memory_simps,
      subst read_loop.simps, simp add: pinger_reset_def memory_simps,
      simp add: poll_finish_def memory_write_loop [unfolded memory_handler_def, simplified] memory_simps)

text \<open>Bytes are held until the write delay elapses. The handler shuts down, all commands having been received.\<close>

definition closed_tokio :: "(unit, unit, unit) tokio" where
  "closed_tokio = idle_tokio\<lparr>t_poll_recv_many := (\<lambda>k w. (Ready [], w))\<rparr>"

lemma closed_tokio_sel:
  "poll_sleep closed_tokio d w = (False, w)" "now closed_tokio w = (0, w)" "t_poll_recv_many closed_tokio k w = (Ready [], w)"
  "t_poll_shutdown closed_tokio w = (False, w)" "t_has_budget_remaining closed_tokio w"
  by (simp_all add: closed_tokio_def idle_tokio_def)

definition waiting_delay :: delayed where
  "waiting_delay = Some \<lparr> duration = 1, delay = 1, delay_consumed = False \<rparr>"

lemma memory_poll_closed:
  "handler_poll (handler_env memory_net False closed_tokio) False (memory_handler [] pong_text True waiting_delay) w =
     Some (Ready Out_Closed, memory_handler [] pong_text True waiting_delay, w)"
  by (simp add: handler_poll_def pinger_poll_def memory_simps poll_requests_def closed_tokio_sel,
      subst read_loop.simps, simp add: memory_simps,
      subst write_loop.simps, simp add: receive_command.simps memory_simps write_step_def poll_can_proceed_def
        poll_finish_def closed_tokio_sel waiting_delay_def)

lemma memory_read_end:
  "connection_poll_read_next memory_net False (Streaming \<lparr> sc_socket = ([[]], out), sc_encoder = enc,
     sc_decoder = stream_decoder_put [] stream_decoder_new, sc_may_flush = mf \<rparr>) w =
   Some (Ready (Err (Read_Streaming (Streaming_Io UnexpectedEof))), Streaming \<lparr> sc_socket = ([], out), sc_encoder = enc,
     sc_decoder = stream_decoder_put [] stream_decoder_new, sc_may_flush = mf \<rparr>, w)"
  by (simp add: connection_poll_read_next_def stream_decoder_decode_def stream_decoder_put_def stream_decoder_new_def
      streaming_poll_read_next.simps decode_ControlLine [OF ref_json_ok] map_poll_def memory_net_sel)
     (simp add: memory_ops_def)

lemma memory_close:
  "\<exists>h'. handler_close memory_net False closed_tokio (memory_handler [] b stop d) w = Some (h', w) \<and>
     conn h' = memory_connection [] b [] False"
  by (simp add: handler_close_def memory_handler_def memory_connection_def, subst await.simps,
      simp add: connection_poll_shutdown_def streaming_poll_shutdown_def memory_net_sel closed_tokio_sel,
      subst close_wait.simps, simp add: memory_read_end)

definition sent_by :: "(memory, unit, unit) connection \<Rightarrow> bytes" where
  "sent_by c = (case c of Streaming s \<Rightarrow> snd (sc_socket s) | Websocket _ \<Rightarrow> [])"

text \<open>The handshake on the connection in memory.\<close>

lemma memory_enqueue_op:
  "connection_enqueue_write_op memory_net False C_Ping (memory_connection inp b out mf) =
     Some (memory_connection inp (b @ ping_text) out mf)"
  "connection_enqueue_write_op memory_net False (C_Connect cn) (memory_connection inp b out mf) =
     Some (memory_connection inp (b @ ''CONNECT {}'' @ CRLF) out mf)"
  by (simp_all add: ping_text_def connection_enqueue_write_op_def memory_connection_def streaming_enqueue_write_op_def
      Encoder.enqueue_write_op_def stream_encoder_new_def stream_writer_def stream_small_write_def memory_net_sel)

lemma memory_write_and_flush:
  assumes "b \<noteq> []"
  shows "write_and_flush memory_net False (memory_connection inp b out mf) w =
     Some (Ok (), memory_connection inp [] (out @ b) False, w)"
  using assms
  by (simp add: write_and_flush_def memory_connection_def, subst write_all.simps, subst await.simps, subst write_all.simps,
     subst await.simps)
   (simp add: streaming_may_write_eq memory_encoder memory_net_sel memory_write connection_poll_flush_def streaming_poll_flush_def)

lemma memory_read_two:
  "connection_read_next memory_net False (memory_connection (ping_text @ pong_text) b out mf) w =
     Some (Ok S_Ping, memory_connection pong_text b out mf, w)"
  "connection_read_next memory_net False (memory_connection pong_text b out mf) w =
     Some (Ok S_Pong, memory_connection [] b out mf, w)"
  by (simp_all add: connection_read_next_def, (subst await.simps, simp add: ping_text_def pong_text_def connection_poll_read_next_def memory_connection_def stream_decoder_decode_def
      stream_decoder_put_def stream_decoder_new_def streaming_poll_read_next.simps decode_ControlLine [OF ref_json_ok]
      decode_control_line_def map_poll_def sub_p_def truncate_to_def memory_net_sel)+)

lemma ping_text_nonempty: "ping_text \<noteq> []"
  by (simp add: ping_text_def)

lemma memory_proto_connect:
  "proto_connect memory_net False Some cn (memory_connection (ping_text @ pong_text) [] [] False) w =
    Some (Ok (), memory_connection [] pong_text (''CONNECT {}'' @ CRLF @ ping_text) False, w)"
  apply (simp add: proto_connect_def memory_enqueue_op memory_write_and_flush ping_text_nonempty)
  apply (subst connect_loop.simps, simp add: memory_read_two memory_enqueue)
  apply (subst connect_loop.simps, simp add: memory_read_two memory_enqueue)
  done

text \<open>A subscription with identifier 7, a handler that has it, and a message for it.\<close>

definition seven :: "u64 option \<Rightarrow> unit subscription" where
  "seven n = \<lparr> sub_subject = Subject ''a'', sub_queue_group = None, messages = (), remaining = n,
     failed_subscribe = False \<rparr>"

definition seven_handler :: "u64 option \<Rightarrow> ((memory, unit, unit) connection, unit, unit) handler" where
  "seven_handler n = (memory_handler [] [] False None)\<lparr>subscriptions := [(7, seven n)]\<rparr>"

definition seven_message :: server_message where
  "seven_message = \<lparr> status_code = None, status_description = None, subscription_id = 7,
     base = \<lparr> msg_subject = Subject ''a'', msg_reply_subject = None, msg_headers = header_map_new, msg_payload = [] \<rparr> \<rparr>"

text \<open>A runtime on which the receiver of every subscription has been dropped.\<close>

definition dropped_tokio :: "(unit, unit, unit) tokio" where
  "dropped_tokio = idle_tokio\<lparr>t_try_send := (\<lambda>s m w. (Closed, w)), t_is_closed := (\<lambda>s w. True)\<rparr>"

lemma memory_enqueue_sub:
  "connection_enqueue_write_op memory_net False (C_Subscribe sid s None) (memory_connection inp b out mf) =
     Some (memory_connection inp (b @ client_op_text (net_json memory_net) (C_Subscribe sid s None)) out mf)"
  "connection_enqueue_write_op memory_net False (C_Unsubscribe sid k) (memory_connection inp b out mf) =
     Some (memory_connection inp (b @ client_op_text (net_json memory_net) (C_Unsubscribe sid k)) out mf)"
  by (simp_all add: connection_enqueue_write_op_def memory_connection_def streaming_enqueue_write_op_def
      Encoder.enqueue_write_op_def stream_encoder_new_def stream_writer_def stream_small_write_def memory_net_sel
      split: option.split)

text \<open>While the receiver of a subscription is dropped and the handler has not been told, each message for
  it writes one more UNSUB and adds one more command in flight, and the subscription stays: n messages
  write n UNSUBs.\<close>

lemma dropped_receiver:
  assumes "sid \<noteq> MULTIPLEXED_SUBSCRIPTION_ID" and "\<forall>m\<in>set ms. subscription_id m = sid"
    and "bt_get sub_key sid (subscriptions h) = Some sub"
    and "\<And>m w. fst (try_send e (messages sub) m w) = Closed"
    and "handle_messages e ms h w = Some (h', w')"
  shows "subscriptions h' = subscriptions h \<and>
    enqueue_all e (replicate (length ms) (C_Unsubscribe sid None)) (conn h) = Some (conn h') \<and>
    in_flight_commands h' = in_flight_commands h @ replicate (length ms) Unimportant"
  by (rule handle_messages_closed) (fact assms)+

section \<open>Properties\<close>

text \<open>C3: A poll of the handler implements an abstract queue of answers on an abstract byte stream:
  there is a sequence of operations enqueued and received such that the bytes sent and held grow
  by exactly the text of the operations enqueued, in order, and the commands in flight are those
  before with one added for each operation the server answers and one taken for each answer.\<close>

theorem poll_accounts:
  assumes "byte_sink (net_socket n) sent" and "ext_ok (net_json n)" and "carries n sent b (conn h)"
    and "handler_poll (handler_env n False t) dbg h w = Some (r, h', w')"
  shows "\<exists>evs. conn_trace (handler_env n False t) (conn h) evs (conn h') \<and>
    carries n sent (b @ concat (map (event_text (net_json n)) evs)) (conn h') \<and>
    in_flight_commands h' = foldl owed (in_flight_commands h) evs"
proof -
  from queue.poll_R [OF assms(4)] obtain evs where
    "explains (handler_env n False t) (conn h) (in_flight_commands h) evs h'" by (auto simp: extends_def)
  with conn_trace_carries [OF assms(1,2) _ assms(3), of t evs "conn h'"] show ?thesis
    by (auto simp: explains_def)
qed

lemma poll_accounts_witness:
  "\<exists>r h' evs. handler_poll (handler_env memory_net False idle_tokio) False (memory_handler ping_text [] False None) () =
      Some (r, h', ()) \<and> sent_by (conn h') = pong_text \<and>
    carries memory_net snd (concat (map (event_text (net_json memory_net)) evs)) (conn h') \<and>
    in_flight_commands h' = foldl owed [] evs"
proof -
  have c: "carries memory_net snd [] (conn (memory_handler ping_text [] False None))"
    using stream_encoder_new_inv by (simp add: carries_def memory_handler_def memory_connection_def enqueued_def memory_encoder memory_net_sel)
  have e: "ext_ok (net_json memory_net)" by (simp add: memory_net_sel ref_json_ok)
  have k: "byte_sink (net_socket memory_net) snd" by (simp add: memory_net_sel memory_sink.byte_sink_axioms)
  let ?h = "(memory_handler [] [] False None)\<lparr>conn := memory_connection [] [] pong_text False\<rparr>"
  from poll_accounts [OF k e c memory_poll_ping] obtain evs where
    "carries memory_net snd ([] @ concat (map (event_text (net_json memory_net)) evs)) (conn ?h)"
    "in_flight_commands ?h = foldl owed (in_flight_commands (memory_handler ping_text [] False None)) evs" by blast
  then show ?thesis unfolding memory_poll_ping
    by (intro exI [of _ Pending] exI [of _ ?h] exI [of _ evs])
       (simp add: memory_handler_def, simp add: sent_by_def memory_connection_def)
qed

text \<open>C10: Every poll of the handler keeps its tables well formed: subscriptions are sorted by distinct
  identifiers, none is the reserved one, no limit left to deliver is zero, the multiplexed
  requests are sorted by distinct subjects, and at most two pings are unanswered.\<close>

theorem handler_invariant:
  assumes "commands_ok e" and "handler_inv h" and "handler_poll e dbg h w = Some (r, h', w')"
  shows "handler_inv h'"
  using tables.poll_R [OF assms(3)] assms(1,2) by (simp add: keeps_inv_def)

lemma handler_invariant_witness:
  "\<exists>r h'. handler_poll (handler_env memory_net False idle_tokio) False (memory_handler ping_text [] False None) () =
     Some (r, h', ()) \<and> handler_inv h'"
proof -
  have c: "commands_ok (handler_env memory_net False idle_tokio)"
    by (simp add: commands_ok_def handler_env_memory idle_tokio_sel)
  have i: "handler_inv (memory_handler ping_text [] False None)"
    by (simp add: handler_inv_def memory_handler_def subscriptions_inv_def pinger_inv_def)
  from handler_invariant [OF c i memory_poll_ping] memory_poll_ping show ?thesis by blast
qed

text \<open>C11: When the handshake succeeds the socket has been given exactly the CONNECT and the PING, the
  server has answered with successes and pings and then a PONG, and one PONG for each of these
  pings is held: it has been enqueued but not written.\<close>

theorem handshake_sends:
  assumes "byte_sink (net_socket n) sent" and "ext_ok (net_json n)" and "reader n sent s [] cn"
    and "\<And>c c'. reader n sent (s @ client_op_text (net_json n) (C_Connect co)) [] c \<Longrightarrow> after c = Some c' \<Longrightarrow>
      reader n sent (s @ client_op_text (net_json n) (C_Connect co)) [] c'"
    and "proto_connect n False after co cn w = Some (Ok (), cn', w')"
  shows "\<exists>ops cn1 w1. handshake n False cn1 w1 ops (Ok S_Pong) cn' w' \<and> set ops \<subseteq> {S_Success, S_Ping} \<and>
    reader n sent (s @ client_op_text (net_json n) (C_Connect co) @ client_op_text (net_json n) C_Ping)
      (concat (replicate (count_list ops S_Ping) (client_op_text (net_json n) C_Pong))) cn'"
  by (rule proto_connect_sends) (fact assms)+

lemma handshake_sends_witness:
  "\<forall>co. \<exists>cn'. proto_connect memory_net False Some co (memory_connection (ping_text @ pong_text) [] [] False) () =
     Some (Ok (), cn', ()) \<and> sent_by cn' = ''CONNECT {}'' @ CRLF @ ping_text"
proof
  fix co
  have e: "ext_ok (net_json memory_net)" by (simp add: memory_net_sel ref_json_ok)
  have k: "byte_sink (net_socket memory_net) snd" by (simp add: memory_net_sel memory_sink.byte_sink_axioms)
  have r: "reader memory_net snd [] [] (memory_connection (ping_text @ pong_text) [] [] False)"
    by (simp add: reader_def memory_connection_def memory_encoder memory_net_sel)
  from handshake_sends [OF k e r _ memory_proto_connect [of co "()"]]
  have "\<exists>held. reader memory_net snd ([] @ client_op_text (net_json memory_net) (C_Connect co) @
      client_op_text (net_json memory_net) C_Ping) held (memory_connection [] pong_text (''CONNECT {}'' @ CRLF @ ping_text) False)"
    by blast
  then show "\<exists>cn'. proto_connect memory_net False Some co (memory_connection (ping_text @ pong_text) [] [] False) () =
      Some (Ok (), cn', ()) \<and> sent_by cn' = ''CONNECT {}'' @ CRLF @ ping_text"
    unfolding memory_proto_connect by (auto simp: reader_def memory_connection_def sent_by_def memory_net_sel ping_text_def)
qed

text \<open>C12: On a new connection the handler writes, for each subscription in the order of the
  identifiers, a SUB and, when it is limited, an UNSUB with the messages left; the commands in
  flight are theirs, the subscriptions are kept, the multiplexed requests are forgotten and the
  flags say connected.\<close>

theorem reconnection_resubscribes:
  assumes "handler_connect e is_zstd dly (Connected c info) r w = Some (Ok (Some h), w')"
  shows "enqueue_all e (concat (map resubscribe_ops (r_subscriptions r))) c = Some (conn h) \<and>
    in_flight_commands h = concat (map in_flight_of (concat (map resubscribe_ops (r_subscriptions r)))) \<and>
    subscriptions h = r_subscriptions r \<and> multiplexed_subscriptions h = None \<and> h_info h = Some info \<and>
    is_connected (quick_info_get (h_quick_info h)) \<and> \<not> shutting_down h \<and> pending_pings (h_pinger h) = 0"
  using handler_connect_resubscribes [OF assms] by simp

lemma reconnection_resubscribes_witness:
  "\<forall>info. \<exists>h. handler_connect (handler_env memory_net False idle_tokio) (\<lambda>_. False) 0
     (Connected (memory_connection [] [] [] False) info :: (_, unit) connect_outcome) (handler_recycle (seven_handler (Some 2))) () = Some (Ok (Some h), ()) \<and>
     in_flight_commands h = [In_Subscribe 7, Unimportant] \<and> subscriptions h = [(7, seven (Some 2))]"
proof
  fix info :: server_info
  have s: "enqueue_write_op (handler_env memory_net False idle_tokio) op c = connection_enqueue_write_op memory_net False op c"
    for op c by (simp add: handler_env_def)
  have r: "r_subscriptions (handler_recycle (seven_handler (Some 2))) = [(7, seven (Some 2))]"
    by (simp add: handler_recycle_def seven_handler_def)
  have "\<exists>h. handler_connect (handler_env memory_net False idle_tokio) (\<lambda>_. False) 0
      (Connected (memory_connection [] [] [] False) info :: (_, unit) connect_outcome) (handler_recycle (seven_handler (Some 2))) () = Some (Ok (Some h), ())"
    by (simp add: handler_connect_def r s seven_def memory_enqueue_sub delayed_new_def pinger_new_def
        handler_env_memory idle_tokio_sel Let_def)
  then obtain h where h: "handler_connect (handler_env memory_net False idle_tokio) (\<lambda>_. False) 0
      (Connected (memory_connection [] [] [] False) info :: (_, unit) connect_outcome) (handler_recycle (seven_handler (Some 2))) () = Some (Ok (Some h), ())"
    by blast
  from reconnection_resubscribes [OF h] h show "\<exists>h. handler_connect (handler_env memory_net False idle_tokio) (\<lambda>_. False) 0
      (Connected (memory_connection [] [] [] False) info :: (_, unit) connect_outcome) (handler_recycle (seven_handler (Some 2))) () = Some (Ok (Some h), ()) \<and>
      in_flight_commands h = [In_Subscribe 7, Unimportant] \<and> subscriptions h = [(7, seven (Some 2))]"
    by (intro exI [of _ h]) (simp add: r resubscribe_ops_def seven_def)
qed






end
