(* ===== verification/Nkeys.thy ===== *)
theory Nkeys
  imports Rust_Std
begin

text \<open>
  \<open>watermelon-nkeys/src/seed.rs\<close> and \<open>crc.rs\<close>: key pairs read from encoded seeds, public keys and
  signatures. The record \<open>crypto\<close> holds what comes from other crates: the checksum of \<open>crc\<close>, base 32 and
  base 64 of \<open>data_encoding\<close>, and Ed25519 keys \<open>'k\<close>. A byte is read as an \<open>8 word\<close>.
\<close>

unbundle bit_operations_syntax

record 'k crypto =
  crc_16_xmodem :: "bytes \<Rightarrow> u16"
  base32_decode :: "bytes \<Rightarrow> bytes option"
  base32_encode :: "bytes \<Rightarrow> bytes"
  base64url_encode :: "bytes \<Rightarrow> bytes"
  from_seed_unchecked :: "bytes \<Rightarrow> 'k option"
  ed_public_key :: "'k \<Rightarrow> bytes"
  ed_sign :: "'k \<Rightarrow> bytes \<Rightarrow> bytes"

section \<open>\<open>Crc16\<close>\<close>

type_synonym crc16 = u16

definition crc16_compute :: "('k, 'z) crypto_scheme \<Rightarrow> bytes \<Rightarrow> crc16" where
  "crc16_compute x buf = crc_16_xmodem x buf"

definition crc16_from_raw :: "u16 \<Rightarrow> crc16" where "crc16_from_raw val = val"

definition crc16_to_raw :: "crc16 \<Rightarrow> u16" where "crc16_to_raw crc = crc"

text \<open>\<open>u16::from_le_bytes\<close> of an array of two bytes, and \<open>to_le_bytes\<close>.\<close>

definition crc16_from_raw_encoded :: "bytes \<Rightarrow> crc16" where
  "crc16_from_raw_encoded val = crc16_from_raw (of_nat (byte_val (val ! 0) + 256 * byte_val (val ! 1)))"

definition crc16_to_raw_encoded :: "crc16 \<Rightarrow> bytes" where
  "crc16_to_raw_encoded crc = [char_of (unat crc mod 256), char_of (unat crc div 256)]"

section \<open>\<open>KeyPair\<close>\<close>

definition SEED_PREFIX_BYTE :: "8 word" where "SEED_PREFIX_BYTE = push_bit 3 18"

record 'k key_pair =
  kp_kind :: byte
  kp_key :: 'k

datatype key_pair_from_seed_error =
  InvalidSeedLength | InvalidBase32 | InvalidRawSeedLength | BadCrc | InvalidPrefix | DecodeError

definition byte_word :: "byte \<Rightarrow> 8 word" where "byte_word b = of_nat (byte_val b)"

text \<open>An array of 34 bytes.\<close>

definition from_raw_seed :: "('k, 'z) crypto_scheme \<Rightarrow> bytes \<Rightarrow> key_pair_from_seed_error + 'k key_pair" where
  "from_raw_seed x raw_seed =
     (if byte_word (raw_seed ! 0) AND push_bit 3 (- 1) \<noteq> SEED_PREFIX_BYTE then Err InvalidPrefix
      else case from_seed_unchecked x (drop 2 raw_seed) of
        None \<Rightarrow> Err DecodeError
      | Some key \<Rightarrow> Ok \<lparr> kp_kind = raw_seed ! 1, kp_key = key \<rparr>)"

definition from_encoded_seed :: "('k, 'z) crypto_scheme \<Rightarrow> bytes \<Rightarrow> key_pair_from_seed_error + 'k key_pair" where
  "from_encoded_seed x seed =
     (if length seed \<noteq> 58 then Err InvalidSeedLength
      else case base32_decode x seed of
        None \<Rightarrow> Err InvalidBase32
      | Some full_raw_seed \<Rightarrow>
          if length full_raw_seed \<noteq> 36 then Err InvalidRawSeedLength
          else (let raw_seed = take 34 full_raw_seed; crc = drop 34 full_raw_seed in
            if crc16_compute x raw_seed \<noteq> crc16_from_raw_encoded crc then Err BadCrc
            else from_raw_seed x raw_seed))"

text \<open>\<open>Display\<close> of a public key and of a signature.\<close>

definition public_key_text :: "('k, 'z) crypto_scheme \<Rightarrow> 'k key_pair \<Rightarrow> bytes" where
  "public_key_text x kp =
     (let raw = [char_of (unat SEED_PREFIX_BYTE), kp_kind kp] @ ed_public_key x (kp_key kp) in
      base32_encode x (raw @ crc16_to_raw_encoded (crc16_compute x raw)))"

definition sign :: "('k, 'z) crypto_scheme \<Rightarrow> 'k key_pair \<Rightarrow> bytes \<Rightarrow> bytes" where
  "sign x kp buf = ed_sign x (kp_key kp) buf"

definition signature_text :: "('k, 'z) crypto_scheme \<Rightarrow> bytes \<Rightarrow> bytes" where
  "signature_text x s = base64url_encode x s"

section \<open>Encodings\<close>

text \<open>What is documented of the crates: base 32 without padding is decoded back and makes 58 characters of 36
  bytes, and an Ed25519 public key has 32 bytes.\<close>

definition crypto_ok :: "('k, 'z) crypto_scheme \<Rightarrow> bool" where
  "crypto_ok x \<longleftrightarrow> (\<forall>b. base32_decode x (base32_encode x b) = Some b) \<and>
     (\<forall>b. length b = 36 \<longrightarrow> length (base32_encode x b) = 58) \<and>
     (\<forall>k. length (ed_public_key x k) = 32)"

lemma unat_u16_less: "unat (c :: u16) < 65536"
  using unsigned_less [of c] by simp

lemma crc16_encode_decode [simp]: "crc16_from_raw_encoded (crc16_to_raw_encoded c) = c"
proof -
  have "unat c div 256 < 256" using unat_u16_less [of c] by (simp add: less_mult_imp_div_less)
  then show ?thesis
    by (simp add: crc16_from_raw_encoded_def crc16_to_raw_encoded_def crc16_from_raw_def)
qed

lemma length_crc16_to_raw_encoded [simp]: "length (crc16_to_raw_encoded c) = 2"
  by (simp add: crc16_to_raw_encoded_def)

lemma seed_prefix: "byte_word (char_of (unat SEED_PREFIX_BYTE)) AND push_bit 3 (- 1) = SEED_PREFIX_BYTE"
  by code_simp

text \<open>A text that encodes a prefix, a kind and a key with their checksum is accepted.\<close>

lemma from_encoded_seed_encode:
  assumes x: "crypto_ok x" and p: "byte_word p AND push_bit 3 (- 1) = SEED_PREFIX_BYTE" and l: "length seed = 32"
  shows "from_encoded_seed x (base32_encode x ([p, kind] @ seed @ crc16_to_raw_encoded (crc16_compute x ([p, kind] @ seed)))) =
    (case from_seed_unchecked x seed of None \<Rightarrow> Err DecodeError | Some k \<Rightarrow> Ok \<lparr> kp_kind = kind, kp_key = k \<rparr>)"
proof -
  let ?raw = "[p, kind] @ seed"
  let ?full = "?raw @ crc16_to_raw_encoded (crc16_compute x ?raw)"
  have len: "length ?raw = 34" "length ?full = 36" using l by simp_all
  have "take 34 ?full = ?raw" "drop 34 ?full = crc16_to_raw_encoded (crc16_compute x ?raw)"
    by (simp_all only: append_eq_conv_conj len(1) [symmetric] take_append drop_append) simp_all
  moreover have "base32_decode x (base32_encode x ?full) = Some ?full" "length (base32_encode x ?full) = 58"
    using x len(2) by (simp_all only: crypto_ok_def)
  ultimately have "from_encoded_seed x (base32_encode x ?full) = from_raw_seed x ?raw"
    unfolding from_encoded_seed_def by (simp only: option.case len Let_def crc16_encode_decode) simp
  then show ?thesis using p by (simp add: from_raw_seed_def split: option.split)
qed

text \<open>Parameters that satisfy this, with texts padded instead of encoded and a key for each 32 bytes.\<close>

definition toy_crypto :: "bytes crypto" where
  "toy_crypto = \<lparr> crc_16_xmodem = (\<lambda>b. of_nat (sum_list (map byte_val b))),
     base32_decode = (\<lambda>t. Some (if length t < 36 then t else if length t = 58 then take 36 t else take (length t - 23) t)),
     base32_encode = (\<lambda>b. if length b < 36 then b else if length b = 36 then b @ replicate 22 CHR ''A''
       else b @ replicate 23 CHR ''A''),
     base64url_encode = (\<lambda>b. b),
     from_seed_unchecked = Some, ed_public_key = (\<lambda>k. take 32 (k @ replicate 32 CHR ''A'')), ed_sign = (\<lambda>k b. b) \<rparr>"

lemma toy_crypto_ok: "crypto_ok toy_crypto"
  by (auto simp: crypto_ok_def toy_crypto_def)

text \<open>A public key is printed with the prefix of a seed: the text is accepted by the parser of seeds,
  which makes of it a key pair of the same kind whose secret is the public key.\<close>

lemma public_key_is_seed:
  assumes "crypto_ok x"
  shows "from_encoded_seed x (public_key_text x kp) =
    (case from_seed_unchecked x (ed_public_key x (kp_key kp)) of
       None \<Rightarrow> Err DecodeError | Some k \<Rightarrow> Ok \<lparr> kp_kind = kp_kind kp, kp_key = k \<rparr>)"
proof -
  have "length (ed_public_key x (kp_key kp)) = 32" using assms by (simp add: crypto_ok_def)
  from from_encoded_seed_encode [OF assms seed_prefix this, of "kp_kind kp"] show ?thesis
    by (simp add: public_key_text_def Let_def)
qed

end
