(* ===== verification/Authenticator.thy ===== *)
theory Authenticator
  imports Proto_Types Nkeys
begin

text \<open>
  \<open>watermelon-mini/src/proto/authenticator.rs\<close>: how a client authenticates, and the parser of credentials
  files. \<open>str_lines\<close> is \<open>str::lines\<close>.
\<close>

datatype 'k authentication_method =
  UserAndPassword bytes bytes | Creds bytes "'k key_pair"

datatype authentication_error = MissingNonce

datatype creds_parse_error =
    Truncated | MissingJwtClosing | MissingNkeyClosing | MissingJwt | MissingNkey
  | InvalidKey key_pair_from_seed_error

text \<open>The accessors of the address are in \<open>Server_Addr\<close>.\<close>

definition try_from_addr :: "server_addr \<Rightarrow> 'k authentication_method option" where
  "try_from_addr addr =
     (case (server_addr_username addr, server_addr_password addr) of
        (Some u, Some p) \<Rightarrow> Some (UserAndPassword u p)
      | _ \<Rightarrow> None)"

definition prepare_for_auth ::
    "('k, 'z) crypto_scheme \<Rightarrow> 'k authentication_method \<Rightarrow> server_info \<Rightarrow> connect \<Rightarrow> authentication_error + connect" where
  "prepare_for_auth x method info con =
     (case method of
        UserAndPassword u p \<Rightarrow> Ok (con\<lparr>con_username := Some u, con_password := Some p\<rparr>)
      | Creds j nkey \<Rightarrow>
          (case nonce info of
             None \<Rightarrow> Err MissingNonce
           | Some n \<Rightarrow>
               Ok (con\<lparr>jwt := Some j, con_nkey := Some (public_key_text x nkey),
                 signature := Some (signature_text x (sign x nkey n))\<rparr>)))"

section \<open>Credentials files\<close>

text \<open>\<open>str::lines\<close>: the pieces inner line feeds, without a carriage return at their end; a line feed at
  the end of the text opens no new line.\<close>

definition drop_cr :: "bytes \<Rightarrow> bytes" where
  "drop_cr l = (if l \<noteq> [] \<and> last l = CR then butlast l else l)"

definition str_lines :: "bytes \<Rightarrow> bytes list" where
  "str_lines s =
     (let ls = split_on LF s in
      map drop_cr (butlast ls) @ (if last ls = [] then [] else [last ls]))"

definition BEGIN_JWT :: bytes where "BEGIN_JWT = ''-----BEGIN NATS USER JWT-----''"
definition END_JWT :: bytes where "END_JWT = ''------END NATS USER JWT------''"
definition BEGIN_SEED :: bytes where "BEGIN_SEED = ''-----BEGIN USER NKEY SEED-----''"
definition END_SEED :: bytes where "END_SEED = ''------END USER NKEY SEED------''"

fun creds_lines :: "bytes list \<Rightarrow> bytes option \<Rightarrow> bytes option \<Rightarrow> creds_parse_error + bytes option \<times> bytes option" where
  "creds_lines [] j secret = Ok (j, secret)"
| "creds_lines (line # ls) j secret =
     (if line = BEGIN_JWT then
        (case ls of
           v # close # ls \<Rightarrow> if close \<noteq> END_JWT then Err MissingJwtClosing else creds_lines ls (Some v) secret
         | _ \<Rightarrow> Err Truncated)
      else if line = BEGIN_SEED then
        (case ls of
           v # close # ls \<Rightarrow> if close \<noteq> END_SEED then Err MissingNkeyClosing else creds_lines ls j (Some v)
         | _ \<Rightarrow> Err Truncated)
      else creds_lines ls j secret)"

definition from_creds :: "('k, 'z) crypto_scheme \<Rightarrow> bytes \<Rightarrow> creds_parse_error + 'k authentication_method" where
  "from_creds x contents =
     and_then (creds_lines (str_lines contents) None None) (\<lambda>(j, secret).
     and_then (ok_or MissingJwt j) (\<lambda>j.
     and_then (ok_or MissingNkey secret) (\<lambda>nkey.
     and_then (map_err InvalidKey (from_encoded_seed x nkey)) (\<lambda>nkey.
     Ok (Creds j nkey)))))"

section \<open>Lines\<close>

definition unlines :: "bytes list \<Rightarrow> bytes" where
  "unlines ls = concat (map (\<lambda>l. l @ [LF]) ls)"

definition line_ok :: "bytes \<Rightarrow> bool" where
  "line_ok l \<longleftrightarrow> LF \<notin> set l \<and> (l = [] \<or> last l \<noteq> CR)"

lemma split_on_unlines: "\<forall>l\<in>set ls. LF \<notin> set l \<Longrightarrow> split_on LF (unlines ls) = ls @ [[]]"
proof (induction ls)
  case (Cons l ls)
  then have "split_on LF (l @ LF # unlines ls) = l # split_on LF (unlines ls)"
    using split_on_append split_on_token by simp
  with Cons show ?case by (simp add: unlines_def)
qed (simp add: unlines_def)

lemma str_lines_unlines: "\<forall>l\<in>set ls. line_ok l \<Longrightarrow> str_lines (unlines ls) = ls"
  by (auto simp: str_lines_def split_on_unlines line_ok_def drop_cr_def intro!: map_idI)

definition plain_line :: "bytes \<Rightarrow> bool" where
  "plain_line l \<longleftrightarrow> l \<noteq> BEGIN_JWT \<and> l \<noteq> BEGIN_SEED"

lemma creds_lines_plain: "\<forall>l\<in>set ls. plain_line l \<Longrightarrow> creds_lines (ls @ ms) j s = creds_lines ms j s"
  by (induction ls) (simp_all add: plain_line_def)

text \<open>A file with a block of each kind, among other lines.\<close>

definition creds_file :: "bytes list \<Rightarrow> bytes \<Rightarrow> bytes list \<Rightarrow> bytes \<Rightarrow> bytes list \<Rightarrow> bytes list" where
  "creds_file before j inner seed after =
     before @ [BEGIN_JWT, j, END_JWT] @ inner @ [BEGIN_SEED, seed, END_SEED] @ after"

lemma creds_lines_file:
  assumes "\<forall>l\<in>set (before @ inner @ after). plain_line l"
  shows "creds_lines (creds_file before j inner seed after) None None = Ok (Some j, Some seed)"
proof -
  have "BEGIN_SEED \<noteq> BEGIN_JWT" by (simp add: BEGIN_SEED_def BEGIN_JWT_def)
  with assms creds_lines_plain [of after "[]"] show ?thesis
    by (simp add: creds_file_def creds_lines_plain)
qed

section \<open>Properties\<close>

text \<open>C39: A credentials file with a token and a seed between their markers, whatever the other lines,
  is read as that token and the key pair of that seed, or refused for its seed alone.\<close>

theorem creds_round_trip:
  assumes "\<forall>l\<in>set (creds_file before j inner seed after). line_ok l"
    and "\<forall>l\<in>set (before @ inner @ after). plain_line l"
  shows "from_creds x (unlines (creds_file before j inner seed after)) =
    (case from_encoded_seed x seed of Inl err \<Rightarrow> Err (InvalidKey err) | Inr k \<Rightarrow> Ok (Creds j k))"
  using creds_lines_file [OF assms(2)] str_lines_unlines [OF assms(1)]
  by (simp add: from_creds_def split: sum.split)

lemma creds_round_trip_witness:
  "from_creds toy_crypto (unlines (creds_file [] ''jwt'' [''''] ''short'' [''bye''])) = Err (InvalidKey InvalidSeedLength)"
proof -
  have "\<forall>l\<in>set (creds_file [] ''jwt'' [''''] ''short'' [''bye'']). line_ok l" by code_simp
  moreover have "\<forall>l\<in>set ([] @ [''''] @ [''bye'']). plain_line l" by code_simp
  ultimately show ?thesis using creds_round_trip [of "[]" "''jwt''" "['''']" "''short''" "[''bye'']" toy_crypto]
    by (simp add: from_encoded_seed_def)
qed

end
