(* ===== verification/Connector.thy ===== *)
theory Connector
  imports Happy_Eyeballs Sockets Authenticator
begin

text \<open>
  \<open>watermelon-mini/src/proto/connector.rs\<close>: from an address to a connection that has made the handshake. TCP
  sockets have type \<open>'s\<close>, TLS streams \<open>'t\<close>, compressed streams \<open>'z\<close>, websockets \<open>'l\<close>. The record \<open>connector\<close> holds
  what rustls, tokio and tokio_websockets do; the features \<open>websocket\<close> and \<open>non-standard-zstd\<close> are on.
\<close>

record connect_flags =
  tcp_nodelay :: bool
  fl_echo :: bool
  fl_client_name :: "bytes option"
  zstd_compression_level :: "8 word option"

definition connect_flags_default :: connect_flags where
  "connect_flags_default =
     \<lparr> tcp_nodelay = True, fl_echo = False, fl_client_name = None, zstd_compression_level = Some 3 \<rparr>"

datatype 'h server_name = Ip_Address ip_addr | Dns_Name 'h

record ('s, 't, 'z, 'l, 'h, 'n, 'u, 'i, 'x, 'w) connector =
  set_nodelay :: "bool \<Rightarrow> 's \<Rightarrow> 'w \<Rightarrow> ('i io_error + unit) \<times> 's \<times> 'w"
  dns_name_try_from :: "bytes \<Rightarrow> 'n + 'h"
  tls_connect :: "'h server_name \<Rightarrow> 's \<Rightarrow> 'w \<Rightarrow> ('i io_error + 't) \<times> 'w"
  uri_parse :: "bytes \<Rightarrow> 'u option"
  websocket_connect :: "'u \<Rightarrow> ('s, 't) connection_security \<Rightarrow> 'w \<Rightarrow> (('i, 'x) ws_error + 'l) \<times> 'w"
  zstd_stream_of :: "('s, 't) connection_security \<Rightarrow> 8 word \<Rightarrow> 'z"
  pkg_version :: bytes

datatype ('j, 'n, 'i) mini_connect_error =
    Mini_Io "'i io_error"
  | Mini_InvalidDnsName 'n
  | UnexpectedServerOp
  | Mini_Decoder "'j decoder_error"
  | Mini_Authentication authentication_error
  | Mini_Connect "('j, 'i) connect_error"

definition rustls_server_name_from_addr ::
    "('s, 't, 'z, 'l, 'h, 'n, 'u, 'i, 'x, 'w) connector \<Rightarrow> server_addr \<Rightarrow> 'n + 'h server_name" where
  "rustls_server_name_from_addr k addr =
     (case host addr of
        Ip a \<Rightarrow> Ok (Ip_Address a)
      | Dns name \<Rightarrow> map_ok Dns_Name (dns_name_try_from k name))"

text \<open>TLS on the socket of an address: both upgrades are this.\<close>

definition tls_for_addr ::
    "('s, 't, 'z, 'l, 'h, 'n, 'u, 'i, 'x, 'w) connector \<Rightarrow> server_addr \<Rightarrow> ('s, 't) connection_security \<Rightarrow> 'w \<Rightarrow>
     ((('j, 'n, 'i) mini_connect_error + ('s, 't) connection_security) \<times> 'w) option" where
  "tls_for_addr k addr conn w =
     (case rustls_server_name_from_addr k addr of
        Inl err \<Rightarrow> Some (Err (Mini_InvalidDnsName err), w)
      | Inr dns_name \<Rightarrow> do {
          (r, w) \<leftarrow> upgrade_tls (tls_connect k) dns_name conn w;
          Some (map_err Mini_Io r, w) })"

text \<open>The socket: TCP, and TLS when the address asks for it.\<close>

definition open_socket ::
    "('s, 't, 'z, 'l, 'h, 'n, 'u, 'i, 'x, 'w) connector \<Rightarrow>
     (server_addr \<Rightarrow> 'w \<Rightarrow> (('i io_error + 's) \<times> 'w) option) \<Rightarrow> connect_flags \<Rightarrow> server_addr \<Rightarrow> 'w \<Rightarrow>
     ((('j, 'n, 'i) mini_connect_error + ('s, 't) connection_security) \<times> 'w) option" where
  "open_socket k connect_to flags addr w = do {
     (r, w) \<leftarrow> connect_to addr w;
     (case r of
        Inl err \<Rightarrow> Some (Err (Mini_Io err), w)
      | Inr s \<Rightarrow>
          (case set_nodelay k (tcp_nodelay flags) s w of
             (Inl err, s, w) \<Rightarrow> Some (Err (Mini_Io err), w)
           | (Inr _, s, w) \<Rightarrow>
               if protocol addr = TLS then tls_for_addr k addr (Sec_Plain s) w
               else Some (Ok (Sec_Plain s), w))) }"

definition open_connection ::
    "('s, 't, 'z, 'l, 'h, 'n, 'u, 'i, 'x, 'w) connector \<Rightarrow> 'v url_ext \<Rightarrow> ('l, 'i, 'x, 'w) ws_ops \<Rightarrow> server_addr \<Rightarrow>
     ('s, 't) connection_security \<Rightarrow> 'w \<Rightarrow>
     ((('j, 'n, 'i) mini_connect_error + (('s, 't) connection_security, 'l, 'i) connection) \<times> 'w) option" where
  "open_connection k u wo addr conn w =
     (case transport addr of
        TCP \<Rightarrow> Some (Ok (Streaming (streaming_new conn)), w)
      | transport.Websocket \<Rightarrow> do {
          uri \<leftarrow> uri_parse k (server_addr_fmt u addr);
          Some (case websocket_connect k uri conn w of
              (Inl err, w) \<Rightarrow> (Err (Mini_Io (websockets_error_to_io wo err)), w)
            | (Inr socket, w) \<Rightarrow> (Ok (connection.Websocket (websocket_new socket)), w)) })"

text \<open>The first operation has to be an \<open>INFO\<close>.\<close>

fun first_read_error :: "('j, 'i) connection_read_error \<Rightarrow> ('j, 'n, 'i) mini_connect_error" where
  "first_read_error (Read_Streaming (Streaming_Io err)) = Mini_Io err"
| "first_read_error (Read_Streaming (Streaming_Decoder err)) = Mini_Decoder err"
| "first_read_error (Read_Websocket (Websocket_Io err)) = Mini_Io err"
| "first_read_error (Read_Websocket (Websocket_Decoder (FrameDecoder err))) = Mini_Decoder err"
| "first_read_error (Read_Websocket (Websocket_Decoder IncompleteFrame)) = Mini_Io InvalidData"
| "first_read_error (Read_Websocket Websocket_Closed) = Mini_Io UnexpectedEof"

definition read_info ::
    "('j, 'k, 'l, 'i, 'x, 'w) net \<Rightarrow> bool \<Rightarrow> ('k, 'l, 'i) connection \<Rightarrow> 'w \<Rightarrow>
     ((('j, 'n, 'i) mini_connect_error + server_info) \<times> ('k, 'l, 'i) connection \<times> 'w) option" where
  "read_info n dbg conn w = do {
     (r, conn, w) \<leftarrow> connection_read_next n dbg conn w;
     Some (case r of
         Inr (S_Info info) \<Rightarrow> Ok info
       | Inr _ \<Rightarrow> Err UnexpectedServerOp
       | Inl err \<Rightarrow> Err (first_read_error err), conn, w) }"

text \<open>The upgrade a server asks for: \<open>into_inner\<close> keeps the socket only, the connection is a new one.\<close>

definition upgrade_connection ::
    "('s, 't, 'z, 'l, 'h, 'n, 'u, 'i, 'x, 'w) connector \<Rightarrow> server_addr \<Rightarrow> server_info \<Rightarrow>
     (('s, 't) connection_security, 'l, 'i) connection \<Rightarrow> 'w \<Rightarrow>
     ((('j, 'n, 'i) mini_connect_error + (('s, 't) connection_security, 'l, 'i) connection) \<times> 'w) option" where
  "upgrade_connection k addr info conn w =
     (case conn of
        Streaming streaming \<Rightarrow>
          if protocol addr = PossiblyPlain \<and> tls_required info then do {
            (r, w) \<leftarrow> tls_for_addr k addr (sc_socket streaming) w;
            Some (map_ok (\<lambda>s. Streaming (streaming_new s)) r, w) }
          else Some (Ok (Streaming streaming), w)
      | connection.Websocket websocket \<Rightarrow> Some (Ok (connection.Websocket websocket), w))"

definition is_streaming_connection :: "('k, 'l, 'i) connection \<Rightarrow> bool" where
  "is_streaming_connection conn = (case conn of Streaming _ \<Rightarrow> True | connection.Websocket _ \<Rightarrow> False)"

text \<open>What the client says of itself, and how it authenticates.\<close>

definition connect_of ::
    "('s, 't, 'z, 'l, 'h, 'n, 'u, 'i, 'x, 'w) connector \<Rightarrow> connect_flags \<Rightarrow> bytes option \<Rightarrow> bool \<Rightarrow> connect" where
  "connect_of k flags name zstd = \<lparr>
     verbose = True, pedantic = False, require_tls = False, auth_token = None, con_username = None,
     con_password = None, client_name = name, client_lang = ''rust-watermelon'', client_version = pkg_version k,
     con_protocol = 1, echo = fl_echo flags, signature = None, jwt = None, supports_no_responders = True,
     con_supports_headers = True, con_nkey = None, con_zstd = zstd \<rparr>"

definition authenticated ::
    "('y, 'c) crypto_scheme \<Rightarrow> server_addr \<Rightarrow> 'y authentication_method option \<Rightarrow> server_info \<Rightarrow> connect \<Rightarrow>
     authentication_error + connect" where
  "authenticated x addr auth_method info con =
     (case (case auth_method of Some a \<Rightarrow> Some a | None \<Rightarrow> try_from_addr addr) of
        None \<Rightarrow> Ok con
      | Some method \<Rightarrow> prepare_for_auth x method info con)"

text \<open>\<open>replace_socket\<close> wraps the socket for the handshake, in a \<open>MaybeConnection\<close> that is never empty between
  two statements; \<open>after_connect\<close> takes the stream out of it to compress it.\<close>

definition wrap_socket ::
    "(('s, 't) connection_security, 'l, 'i) connection \<Rightarrow>
     ((('s, 't) connection_security, 'z) connection_compression, 'l, 'i) connection" where
  "wrap_socket conn =
     (case conn of
        Streaming streaming \<Rightarrow> Streaming (replace_socket Comp_Plain streaming)
      | connection.Websocket websocket \<Rightarrow> connection.Websocket websocket)"

definition compress_socket ::
    "('s, 't, 'z, 'l, 'h, 'n, 'u, 'i, 'x, 'w) connector \<Rightarrow> connect_flags \<Rightarrow> bool \<Rightarrow>
     ((('s, 't) connection_security, 'z) connection_compression, 'l, 'i) connection \<Rightarrow>
     ((('s, 't) connection_security, 'z) connection_compression, 'l, 'i) connection option" where
  "compress_socket k flags zstd conn =
     (case conn of
        Streaming streaming \<Rightarrow>
          (case (zstd, zstd_compression_level flags) of
             (True, Some level) \<Rightarrow>
               (case sc_socket streaming of
                  Comp_Plain s \<Rightarrow> Some (Streaming (streaming\<lparr>sc_socket := Comp_Zstd (zstd_stream_of k s level)\<rparr>))
                | Comp_Zstd _ \<Rightarrow> None)
           | _ \<Rightarrow> Some (Streaming streaming))
      | connection.Websocket websocket \<Rightarrow> Some (connection.Websocket websocket))"

text \<open>The handshake and what comes before it, on a connection that is open.\<close>

definition handshake_on ::
    "('s, 't, 'z, 'l, 'h, 'n, 'u, 'i, 'x, 'w) connector \<Rightarrow> ('y, 'c) crypto_scheme \<Rightarrow>
     ('j, (('s, 't) connection_security, 'z) connection_compression, 'l, 'i, 'x, 'w) net \<Rightarrow> bool \<Rightarrow>
     connect_flags \<Rightarrow> bytes option \<Rightarrow> server_addr \<Rightarrow> 'y authentication_method option \<Rightarrow> server_info \<Rightarrow>
     (('s, 't) connection_security, 'l, 'i) connection \<Rightarrow> 'w \<Rightarrow>
     ((('j, 'n, 'i) mini_connect_error +
       ((('s, 't) connection_security, 'z) connection_compression, 'l, 'i) connection \<times> server_info) \<times> 'w) option" where
  "handshake_on k x n dbg flags name addr auth_method info conn w =
     (let zstd = is_streaming_connection conn \<and> zstd_compression_level flags \<noteq> None \<and> info_zstd info in
      case authenticated x addr auth_method info (connect_of k flags name zstd) of
        Inl err \<Rightarrow> Some (Err (Mini_Authentication err), w)
      | Inr con \<Rightarrow> do {
          (r, conn, w) \<leftarrow> proto_connect n dbg (compress_socket k flags (con_zstd con)) con (wrap_socket conn) w;
          Some (case r of
              Inl err \<Rightarrow> Err (Mini_Connect err)
            | Inr _ \<Rightarrow> Ok (conn, info), w) })"

definition mini_connect ::
    "('s, 't, 'z, 'l, 'h, 'n, 'u, 'i, 'x, 'w) connector \<Rightarrow> ('y, 'c) crypto_scheme \<Rightarrow> 'v url_ext \<Rightarrow>
     (server_addr \<Rightarrow> 'w \<Rightarrow> (('i io_error + 's) \<times> 'w) option) \<Rightarrow>
     ('j, ('s, 't) connection_security, 'l, 'i, 'x, 'w) net \<Rightarrow>
     ('j, (('s, 't) connection_security, 'z) connection_compression, 'l, 'i, 'x, 'w) net \<Rightarrow> bool \<Rightarrow>
     server_addr \<Rightarrow> bytes option \<Rightarrow> 'y authentication_method option \<Rightarrow> connect_flags \<Rightarrow> 'w \<Rightarrow>
     ((('j, 'n, 'i) mini_connect_error +
       ((('s, 't) connection_security, 'z) connection_compression, 'l, 'i) connection \<times> server_info) \<times> 'w) option" where
  "mini_connect k x u connect_to n1 n2 dbg addr name auth_method flags w = do {
     (r, w) \<leftarrow> open_socket k connect_to flags addr w;
     (case r of Inl err \<Rightarrow> Some (Err err, w) | Inr s \<Rightarrow> do {
     (r, w) \<leftarrow> open_connection k u (net_ws n1) addr s w;
     (case r of Inl err \<Rightarrow> Some (Err err, w) | Inr conn \<Rightarrow> do {
     (r, conn, w) \<leftarrow> read_info n1 dbg conn w;
     (case r of Inl err \<Rightarrow> Some (Err err, w) | Inr info \<Rightarrow> do {
     (r, w) \<leftarrow> upgrade_connection k addr info conn w;
     (case r of Inl err \<Rightarrow> Some (Err err, w) | Inr conn \<Rightarrow>
       handshake_on k x n2 dbg flags name addr auth_method info conn w) }) }) }) }"

section \<open>Nothing is said in the clear, nothing heard in the clear is kept\<close>

definition over_tls :: "('s, 't) connection_security \<Rightarrow> bool" where
  "over_tls s = (case s of Sec_Plain _ \<Rightarrow> False | Sec_Tls _ \<Rightarrow> True)"

lemma tls_for_addr_Ok: "tls_for_addr k addr conn w = Some (Ok s, w') \<Longrightarrow> over_tls s"
  by (auto simp: tls_for_addr_def upgrade_tls_def over_tls_def map_ok_def map_err_def
      split: sum.splits connection_security.splits prod.splits bind_splits)

lemma open_socket_Ok:
  "open_socket k connect_to flags addr w = Some (Ok s, w') \<Longrightarrow> protocol addr = TLS \<Longrightarrow> over_tls s"
  by (auto simp: open_socket_def dest: tls_for_addr_Ok split: sum.splits prod.splits bind_splits)

text \<open>A read does not change what is below the socket, when the socket's own reads do not.\<close>

lemma streaming_read_keeps:
  fixes so :: "('k, 'i, 'w) socket_ops"
  assumes keep: "\<And>k w r k' w'. P k \<Longrightarrow> sock_poll_read so k w = (r, k', w') \<Longrightarrow> P k'"
    and "streaming_poll_read_next e dbg so c w = Some (r, c', w')" and "P (sc_socket c)"
  shows "P (sc_socket c')"
proof -
  have "so = so \<longrightarrow> P (sc_socket c) \<longrightarrow> P (sc_socket (fst (snd (r, c', w'))))"
    using assms(2)
  proof (rule streaming_poll_read_next.raw_induct [where P = "\<lambda>e dbg so' c w r. so' = so \<longrightarrow> P (sc_socket c) \<longrightarrow>
      P (sc_socket (fst (snd r)))", rotated], intro impI)
    fix rd e dbg so' c w r
    assume IH: "\<And>e dbg so' c w r. rd e dbg so' c w = Some r \<Longrightarrow> so' = so \<longrightarrow> P (sc_socket c) \<longrightarrow> P (sc_socket (fst (snd r)))"
      and so: "so' = so" and c: "P (sc_socket c)"
      and body: "do {
        (r, d) \<leftarrow> stream_decoder_decode e dbg (sc_decoder c);
        let conn = c\<lparr>sc_decoder := d\<rparr>;
        (case r of
           Inl err \<Rightarrow> Some (Ready (Err (Streaming_Decoder err)), conn, w)
         | Inr None \<Rightarrow>
             (case sock_poll_read so' (sc_socket conn) w of
                (Pending, k, w) \<Rightarrow> Some (Pending, conn\<lparr>sc_socket := k\<rparr>, w)
              | (Ready (Inl err), k, w) \<Rightarrow> Some (Ready (Err (Streaming_Io err)), conn\<lparr>sc_socket := k\<rparr>, w)
              | (Ready (Inr b), k, w) \<Rightarrow>
                  if b = [] then Some (Ready (Err (Streaming_Io UnexpectedEof)), conn\<lparr>sc_socket := k\<rparr>, w)
                  else rd e dbg so' (conn\<lparr>sc_socket := k, sc_decoder := stream_decoder_put b d\<rparr>) w)
         | Inr (Some server_op) \<Rightarrow> Some (Ready (Ok server_op), conn, w)) } = Some r"
    obtain po k w1 where p: "sock_poll_read so (sc_socket c) w = (po, k, w1)" by (cases "sock_poll_read so (sc_socket c) w")
    from keep [OF c p] have k: "P k" .
    from body so p k c show "P (sc_socket (fst (snd r)))"
      by (auto simp: Let_def dest!: IH split: bind_splits sum.splits option.splits poll.splits if_splits)
  qed
  with assms(3) show ?thesis by simp
qed

lemma read_info_over_tls:
  assumes "net_socket n = security_ops so ts" and "read_info n dbg (Streaming c) w = Some (r, conn, w')"
  shows "\<exists>c'. conn = Streaming c' \<and> over_tls (sc_socket c') = over_tls (sc_socket c)"
proof -
  let ?P = "\<lambda>cn. \<exists>c'. cn = Streaming c' \<and> over_tls (sc_socket c') = over_tls (sc_socket c)"
  from assms(2) obtain q where aw: "await (connection_poll_read_next n dbg) (Streaming c) w = Some (q, conn, w')"
    by (auto simp: read_info_def connection_read_next_def split: bind_splits)
  have keep: "over_tls k' = over_tls k" if "sock_poll_read (net_socket n) k w = (r, k', w')" for k w r k' w'
    using that assms(1) by (auto simp: security_ops_def on_security_def over_tls_def
        split: connection_security.splits prod.splits)
  have "?P cn'" if P: "?P cn" and st: "connection_poll_read_next n dbg cn w = Some (r, cn', w')" for cn w r cn' w'
  proof -
    obtain c1 where c1: "cn = Streaming c1" "over_tls (sc_socket c1) = over_tls (sc_socket c)" using P by blast
    with st obtain q c2 where c2: "streaming_poll_read_next (net_json n) dbg (net_socket n) c1 w = Some (q, c2, w')"
        "cn' = Streaming c2" by (auto simp: connection_poll_read_next_def split: bind_splits)
    have "over_tls (sc_socket c2) = over_tls (sc_socket c)"
      by (rule streaming_read_keeps [OF _ c2(1), of "\<lambda>k. over_tls k = over_tls (sc_socket c)"])
         (use keep c1 in auto)
    with c2(2) show ?thesis by simp
  qed
  then have "\<exists>ca wa. ?P ca \<and> connection_poll_read_next n dbg ca wa = Some (Ready q, conn, w') \<and> ?P conn"
    by (intro await_last [OF _ aw]) auto
  then show ?thesis by blast
qed

text \<open>A step whose error ends the function.\<close>

lemma step_Ok:
  "(do { (r, w) \<leftarrow> m; (case r of Inl err \<Rightarrow> Some (Err err, w) | Inr x \<Rightarrow> f x w) }) = Some (Ok y, w') \<Longrightarrow>
    \<exists>x w1. m = Some (Ok x, w1) \<and> f x w1 = Some (Ok y, w')"
  by (auto split: bind_splits sum.splits)

lemma step_conn_Ok:
  "(do { (r, c, w) \<leftarrow> m; (case r of Inl err \<Rightarrow> Some (Err err, w) | Inr x \<Rightarrow> f x c w) }) = Some (Ok y, w') \<Longrightarrow>
    \<exists>x c w1. m = Some (Ok x, c, w1) \<and> f x c w1 = Some (Ok y, w')"
  by (auto split: bind_splits sum.splits)

lemma upgrade_connection_Ok:
  fixes k :: "('s, 't, 'z, 'l, 'h, 'n, 'u, 'i, 'x, 'w) connector"
    and conn :: "(('s, 't) connection_security, 'l, 'i) connection"
  assumes "upgrade_connection k addr info (Streaming c) w = Some (Ok conn :: ('j, 'n, 'i) mini_connect_error + _, w')"
    and "protocol addr = TLS \<Longrightarrow> over_tls (sc_socket c)"
  shows "\<exists>c'. conn = Streaming c' \<and>
    (protocol addr = TLS \<or> tls_required info \<longrightarrow> over_tls (sc_socket c')) \<and>
    (protocol addr = PossiblyPlain \<and> tls_required info \<longrightarrow> c' = streaming_new (sc_socket c'))"
proof (cases "protocol addr = PossiblyPlain \<and> tls_required info")
  case True
  with assms(1) obtain r :: "('j, 'n, 'i) mini_connect_error + ('s, 't) connection_security" where
      r: "tls_for_addr k addr (sc_socket c) w = Some (r, w')" "map_ok (\<lambda>s. Streaming (streaming_new s)) r = Ok conn"
    by (auto simp: upgrade_connection_def split: bind_splits)
  then obtain s where "r = Ok s" "conn = Streaming (streaming_new s)" by (auto simp: map_ok_Inr_iff)
  with r(1) tls_for_addr_Ok show ?thesis by (auto simp: streaming_new_def)
next
  case False
  with assms show ?thesis by (cases "protocol addr") (auto simp: upgrade_connection_def)
qed

lemma mini_connect_secured:
  fixes k :: "('s, 't, 'z, 'l, 'h, 'n, 'u, 'i, 'x, 'w) connector"
    and n1 :: "('j, ('s, 't) connection_security, 'l, 'i, 'x, 'w) net"
  assumes n1: "net_socket n1 = security_ops so ts"
    and run: "mini_connect k x u connect_to n1 n2 dbg addr name auth flags w = Some (Ok (cn', info) :: ('j, 'n, 'i) mini_connect_error + _, w')"
    and tcp: "transport addr = TCP"
  shows "\<exists>c con w1. proto_connect n2 dbg (compress_socket k flags (con_zstd con)) con (wrap_socket (Streaming c)) w1 =
      Some (Ok (), cn', w') \<and>
    (protocol addr = TLS \<or> tls_required info \<longrightarrow> over_tls (sc_socket c)) \<and>
    (protocol addr = PossiblyPlain \<and> tls_required info \<longrightarrow> c = streaming_new (sc_socket c))"
proof -
  from step_Ok [OF run [unfolded mini_connect_def]] obtain s w1 where
    s: "open_socket k connect_to flags addr w = Some (Ok s :: ('j, 'n, 'i) mini_connect_error + _, w1)" and r1: "(do {
     (r, w) \<leftarrow> open_connection k u (net_ws n1) addr s w1;
     (case r of Inl err \<Rightarrow> Some (Err err, w) | Inr conn \<Rightarrow> do {
     (r, conn, w) \<leftarrow> read_info n1 dbg conn w;
     (case r of Inl err \<Rightarrow> Some (Err err, w) | Inr info \<Rightarrow> do {
     (r, w) \<leftarrow> upgrade_connection k addr info conn w;
     (case r of Inl err \<Rightarrow> Some (Err err, w) | Inr conn \<Rightarrow>
       handshake_on k x n2 dbg flags name addr auth info conn w) }) }) }) = Some (Ok (cn', info) :: ('j, 'n, 'i) mini_connect_error + _, w')" by blast
  from step_Ok [OF r1] tcp have "(do {
     (r, conn, w) \<leftarrow> read_info n1 dbg (Streaming (streaming_new s)) w1;
     (case r of Inl err \<Rightarrow> Some (Err err, w) | Inr info \<Rightarrow> do {
     (r, w) \<leftarrow> upgrade_connection k addr info conn w;
     (case r of Inl err \<Rightarrow> Some (Err err, w) | Inr conn \<Rightarrow>
       handshake_on k x n2 dbg flags name addr auth info conn w) }) }) = Some (Ok (cn', info) :: ('j, 'n, 'i) mini_connect_error + _, w')"
    by (auto simp: open_connection_def)
  from step_conn_Ok [OF this] obtain info' c1 w2 where
    rd: "read_info n1 dbg (Streaming (streaming_new s)) w1 = Some (Ok info' :: ('j, 'n, 'i) mini_connect_error + _, c1, w2)" and r2: "(do {
     (r, w) \<leftarrow> upgrade_connection k addr info' c1 w2;
     (case r of Inl err \<Rightarrow> Some (Err err, w) | Inr conn \<Rightarrow>
       handshake_on k x n2 dbg flags name addr auth info' conn w) }) = Some (Ok (cn', info) :: ('j, 'n, 'i) mini_connect_error + _, w')" by blast
  from step_Ok [OF r2] obtain c2 w3 where up: "upgrade_connection k addr info' c1 w2 = Some (Ok c2 :: ('j, 'n, 'i) mini_connect_error + _, w3)"
    and hs: "handshake_on k x n2 dbg flags name addr auth info' c2 w3 = Some (Ok (cn', info) :: ('j, 'n, 'i) mini_connect_error + _, w')" by blast
  from read_info_over_tls [OF n1 rd] obtain c where c: "c1 = Streaming c"
      "over_tls (sc_socket c) = over_tls s" by (auto simp: streaming_new_def)
  from upgrade_connection_Ok [OF up [unfolded c(1)]] open_socket_Ok [OF s] c(2) obtain c' where c': "c2 = Streaming c'"
      "protocol addr = TLS \<or> tls_required info' \<longrightarrow> over_tls (sc_socket c')"
      "protocol addr = PossiblyPlain \<and> tls_required info' \<longrightarrow> c' = streaming_new (sc_socket c')" by blast
  from hs obtain con where con: "con_zstd con = con_zstd con"
      "proto_connect n2 dbg (compress_socket k flags (con_zstd con)) con (wrap_socket c2) w3 = Some (Ok (), cn', w')"
      "info = info'"
    by (auto simp: handshake_on_def Let_def split: sum.splits bind_splits)
  with c' show ?thesis by blast
qed

section \<open>An example\<close>

text \<open>A server in memory that asks for TLS, and a socket after it that takes everything and says \<open>PONG\<close>.\<close>

definition tls_info :: server_info where
  "tls_info = \<lparr> info_id = [], info_name = [], info_version = [], go_version = [], info_host = V4 127 0 0 1,
     info_port = 4222, supports_headers = True, max_payload = 1048576, protocol_version = 2, client_id = None,
     auth_required = False, tls_required = True, tls_verify = False, tls_available = True, connect_urls = [],
     websocket_connect_urls = [], lame_duck_mode = False, git_commit = None, supports_jetstream = False,
     info_ip = None, client_ip = None, nonce = None, cluster_name = None, domain = None, info_zstd = False \<rparr>"

definition idle_ws :: "(unit, unit, unit, unit) ws_ops" where
  "idle_ws = \<lparr> ws_poll_next = (\<lambda>k w. (Pending, k, w)), ws_poll_ready = (\<lambda>k w. (Ready (Ok ()), k, w)),
     ws_start_send = (\<lambda>b k. (Ok (), k)), ws_poll_flush = (\<lambda>k w. (Ready (Ok ()), k, w)),
     ws_poll_close = (\<lambda>k w. (Ready (Ok ()), k, w)), io_error_other = (\<lambda>x. x) \<rparr>"

definition pong_ops :: "('k, unit, unit) socket_ops" where
  "pong_ops = \<lparr> sock_poll_read = (\<lambda>k w. (Ready (Ok (''PONG'' @ CRLF)), k, w)), sock_is_write_vectored = (\<lambda>_. False),
     sock_poll_write = (\<lambda>b k w. (Ready (Ok (length b)), k, w)),
     sock_poll_write_vectored = (\<lambda>bs k w. (Ready (Ok (length (concat bs))), k, w)),
     sock_poll_flush = (\<lambda>k w. (Ready (Ok ()), k, w)), sock_poll_shutdown = (\<lambda>k w. (Ready (Ok ()), k, w)) \<rparr>"

definition tls_json :: "unit json_ext" where
  "tls_json = ref_json (\<lambda>_. Ok tls_info) (\<lambda>_. ''{}'')"

definition clear_net :: "(unit, (memory, memory) connection_security, unit, unit, unit, unit) net" where
  "clear_net = \<lparr> net_json = tls_json, net_socket = security_ops memory_ops memory_ops, net_ws = idle_ws \<rparr>"

definition pong_net :: "(unit, ((memory, memory) connection_security, unit) connection_compression, unit, unit, unit, unit) net" where
  "pong_net = \<lparr> net_json = tls_json, net_socket = pong_ops, net_ws = idle_ws \<rparr>"

definition memory_connector :: "(memory, memory, unit, unit, unit, unit, unit, unit, unit, unit) connector" where
  "memory_connector = \<lparr> set_nodelay = (\<lambda>_ s w. (Ok (), s, w)), dns_name_try_from = (\<lambda>_. Ok ()),
     tls_connect = (\<lambda>_ s w. (Ok ([], []), w)), uri_parse = (\<lambda>_. None), websocket_connect = (\<lambda>_ _ w. (Ok (), w)),
     zstd_stream_of = (\<lambda>_ _. ()), pkg_version = ''0.1.0'' \<rparr>"

definition clear_addr :: server_addr where
  "clear_addr = \<lparr> protocol = PossiblyPlain, transport = TCP, host = Ip (V4 127 0 0 1), port = 4222, username = [], password = [] \<rparr>"

lemma pong_write_and_flush:
  assumes "b \<noteq> []"
  shows "write_and_flush pong_net False (Streaming \<lparr> sc_socket = k, sc_encoder = stream_encoder_new\<lparr>flattened_writes := b\<rparr>,
       sc_decoder = d, sc_may_flush = mf \<rparr>) w =
     Some (Ok (), Streaming \<lparr> sc_socket = k, sc_encoder = stream_encoder_new, sc_decoder = d, sc_may_flush = False \<rparr>, w)"
  using assms
  by (simp add: write_and_flush_def, subst write_all.simps, subst await.simps, subst write_all.simps, subst await.simps)
     (simp add: streaming_may_write_def stream_has_remaining_def buf_list_has_remaining_def stream_encoder_new_def
       buf_list_new_def streaming_poll_write_next_def stream_remaining_def buf_list_remaining_def
       streaming_write_outcome_def stream_chunk_def buf_list_chunk_def pong_net_def pong_ops_def stream_advance_def
       buf_list_advance_def flattened_advance_def connection_poll_flush_def streaming_poll_flush_def)

lemma pong_handshake:
  "proto_connect pong_net False Some con (Streaming (streaming_new k)) w =
    Some (Ok (), Streaming (streaming_new k), w)"
proof -
  have e: "connection_enqueue_write_op pong_net False (C_Connect con) (Streaming (streaming_new k)) =
      Some (Streaming \<lparr> sc_socket = k, sc_encoder = stream_encoder_new\<lparr>flattened_writes := ''CONNECT {}'' @ CRLF\<rparr>,
       sc_decoder = stream_decoder_new, sc_may_flush = False \<rparr>)"
    "connection_enqueue_write_op pong_net False C_Ping (Streaming (streaming_new k)) =
      Some (Streaming \<lparr> sc_socket = k, sc_encoder = stream_encoder_new\<lparr>flattened_writes := ''PING'' @ CRLF\<rparr>,
       sc_decoder = stream_decoder_new, sc_may_flush = False \<rparr>)"
    by (simp_all add: connection_enqueue_write_op_def streaming_enqueue_write_op_def Encoder.enqueue_write_op_def
        stream_encoder_new_def stream_writer_def stream_small_write_def streaming_new_def pong_net_def tls_json_def)
  have n: "Streaming \<lparr> sc_socket = k, sc_encoder = stream_encoder_new, sc_decoder = stream_decoder_new, sc_may_flush = False \<rparr> =
      Streaming (streaming_new k)" by (simp add: streaming_new_def)
  have r: "connection_read_next pong_net False (Streaming (streaming_new k)) () = Some (Ok S_Pong, Streaming (streaming_new k), ())"
    unfolding connection_read_next_def
    by (subst await.simps)
       (simp add: connection_poll_read_next_def pong_net_def tls_json_def streaming_new_def streaming_poll_read_next.simps
         stream_decoder_decode_def stream_decoder_new_def stream_decoder_put_def decode_ControlLine [OF ref_json_ok]
         decode_control_line_def map_poll_def sub_p_def truncate_to_def pong_ops_def)
  show ?thesis
    by (simp add: proto_connect_def e pong_write_and_flush n connect_loop.simps r)
qed

lemma memory_mini_connect:
  "mini_connect memory_connector toy_crypto u (\<lambda>_ w. Some (Ok ([''INFO {}'' @ CRLF], []), w)) clear_net pong_net False
     clear_addr None None connect_flags_default () =
   Some (Ok (Streaming (streaming_new (Comp_Plain (Sec_Tls ([], [])))), tls_info), ())"
proof -
  let ?s = "Sec_Plain ([''INFO {}'' @ CRLF], [])"
  have t: "tls_required tls_info" "\<not> info_zstd tls_info" by (simp_all add: tls_info_def)
  have u: "utf8_valid ''{}''" by code_simp
  have o: "open_socket memory_connector (\<lambda>_ w. Some (Ok ([''INFO {}'' @ CRLF], []), w)) connect_flags_default clear_addr () =
      Some (Ok ?s :: (unit, unit, unit) mini_connect_error + _, ())"
    by (simp add: open_socket_def memory_connector_def clear_addr_def)
  have c: "open_connection memory_connector u idle_ws clear_addr ?s () =
      Some (Ok (Streaming (streaming_new ?s)) :: (unit, unit, unit) mini_connect_error + _, ())"
    by (simp add: open_connection_def clear_addr_def)
  have d: "stream_decoder_decode tls_json False stream_decoder_new = Some (Ok None, stream_decoder_new)"
    "stream_decoder_decode tls_json False (stream_decoder_put (''INFO {}'' @ CRLF) stream_decoder_new) =
       Some (Ok (Some (S_Info tls_info)), stream_decoder_new)"
    by (simp_all add: tls_json_def stream_decoder_decode_def stream_decoder_new_def stream_decoder_put_def
        decode_ControlLine [OF ref_json_ok] decode_control_line_def sub_p_def truncate_to_def u strip_prefix_def
        decode_info_def)
  have k: "sock_poll_read (net_socket clear_net) ?s () = (Ready (Ok (''INFO {}'' @ CRLF)), Sec_Plain ([], []), ())"
    by (simp add: clear_net_def security_ops_def on_security_def memory_ops_def)
  have n: "net_json clear_net = tls_json" "net_ws clear_net = idle_ws" by (simp_all add: clear_net_def)
  have "streaming_poll_read_next tls_json False (net_socket clear_net) (streaming_new ?s) () =
      Some (Ready (Ok (S_Info tls_info)), streaming_new (Sec_Plain ([], [])), ())"
    by (subst streaming_poll_read_next.simps, simp add: streaming_new_def d k [simplified],
        subst streaming_poll_read_next.simps, simp add: d [simplified])
  then have i: "read_info clear_net False (Streaming (streaming_new ?s)) () =
      Some (Ok tls_info :: (unit, unit, unit) mini_connect_error + _, Streaming (streaming_new (Sec_Plain ([], []))), ())"
    unfolding read_info_def connection_read_next_def
    by (subst await.simps) (simp add: connection_poll_read_next_def n map_poll_def)
  have up: "upgrade_connection memory_connector clear_addr tls_info (Streaming (streaming_new (Sec_Plain ([], [])))) () =
      Some (Ok (Streaming (streaming_new (Sec_Tls ([], [])))) :: (unit, unit, unit) mini_connect_error + _, ())"
    by (simp add: upgrade_connection_def clear_addr_def t tls_for_addr_def rustls_server_name_from_addr_def
        upgrade_tls_def memory_connector_def streaming_new_def)
  have h: "handshake_on memory_connector toy_crypto pong_net False connect_flags_default None clear_addr None tls_info
      (Streaming (streaming_new (Sec_Tls ([], [])))) () =
      Some (Ok (Streaming (streaming_new (Comp_Plain (Sec_Tls ([], [])))), tls_info) :: (unit, unit, unit) mini_connect_error + _, ())"
  proof -
    have "wrap_socket (Streaming (streaming_new (Sec_Tls ([], []))) :: ((memory, memory) connection_security, unit, unit) connection) =
        (Streaming (streaming_new (Comp_Plain (Sec_Tls ([], [])))) ::
          (((memory, memory) connection_security, unit) connection_compression, unit, unit) connection)"
      by (simp add: wrap_socket_def replace_socket_def streaming_new_def)
    moreover have "compress_socket memory_connector connect_flags_default False =
        (Some :: (((memory, memory) connection_security, unit) connection_compression, unit, unit) connection \<Rightarrow> _)"
      by (rule ext) (simp add: compress_socket_def split: connection.split)
    ultimately show ?thesis
      using pong_handshake [of _ "Comp_Plain (Sec_Tls ([], []))" "()"]
      by (simp add: handshake_on_def t authenticated_def try_from_addr_def clear_addr_def server_addr_username_def connect_of_def)
  qed
  show ?thesis
    unfolding mini_connect_def by (simp add: o [simplified] c [simplified] i [simplified] up [simplified] h [simplified] n)
qed

section \<open>Properties\<close>

text \<open>C23: Over TCP, when the address asks for TLS or the server requires it, the handshake with the
  credentials is made on a TLS stream; and when the server asked for the upgrade in the clear, it
  starts with an empty decoder and an empty encoder, so nothing that was read before the upgrade
  is decoded after it.\<close>

theorem connection_is_secured:
  assumes "net_socket n1 = security_ops so ts" and "transport addr = TCP"
    and "mini_connect k x u connect_to n1 n2 dbg addr name auth flags w = Some (Ok (cn', info), w')"
  shows "\<exists>c con w1. proto_connect n2 dbg (compress_socket k flags (con_zstd con)) con (wrap_socket (Streaming c)) w1 =
      Some (Ok (), cn', w') \<and>
    (protocol addr = TLS \<or> tls_required info \<longrightarrow> over_tls (sc_socket c)) \<and>
    (protocol addr = PossiblyPlain \<and> tls_required info \<longrightarrow>
      sc_decoder c = stream_decoder_new \<and> sc_encoder c = stream_encoder_new)"
  using mini_connect_secured [OF assms(1,3,2)] by (metis streaming_connection.select_convs(2,3) streaming_new_def)

lemma connection_is_secured_witness:
  "\<exists>u c con. mini_connect memory_connector toy_crypto u (\<lambda>_ w. Some (Ok ([''INFO {}'' @ CRLF], []), w)) clear_net pong_net False
     clear_addr None None connect_flags_default () =
     Some (Ok (Streaming (streaming_new (Comp_Plain (Sec_Tls ([], [])))), tls_info), ()) \<and>
   proto_connect pong_net False (compress_socket memory_connector connect_flags_default (con_zstd con)) con
     (wrap_socket (Streaming c)) () = Some (Ok (), Streaming (streaming_new (Comp_Plain (Sec_Tls ([], [])))), ()) \<and>
   over_tls (sc_socket c)"
proof -
  have n: "net_socket clear_net = security_ops memory_ops memory_ops" by (simp add: clear_net_def)
  have a: "transport clear_addr = TCP" "tls_required tls_info" by (simp_all add: clear_addr_def tls_info_def)
  from connection_is_secured [OF n a(1) memory_mini_connect] a(2) obtain c con and w1 :: unit where
    "proto_connect pong_net False (compress_socket memory_connector connect_flags_default (con_zstd con)) con
      (wrap_socket (Streaming c)) w1 = Some (Ok (), Streaming (streaming_new (Comp_Plain (Sec_Tls ([], [])))), ())"
    "over_tls (sc_socket c)" by blast
  moreover have "w1 = ()" by simp
  ultimately show ?thesis using memory_mini_connect by blast
qed

end
