(* ===== verification/Client.thy ===== *)
theory Client
  imports Handler Std_Net Authenticator
begin

text \<open>
  \<open>watermelon/src/client/mod.rs\<close> and \<open>builder.rs\<close>, and the data of \<open>subscription.rs\<close> and
  \<open>multiplexed_subscription.rs\<close>: the handle through which commands reach the task that owns the connection.
  The record \<open>client\<close> is \<open>ClientInner\<close> less the ends of its channels; they are tokio's and are operations
  on a world \<open>'w\<close> in \<open>client_ops\<close>, with the source of random bytes. Senders and receivers of a subscription
  have types \<open>'s\<close> and \<open>'x\<close>, those of a oneshot channel \<open>'o\<close> and \<open>'q\<close>, a permit to send a command is a \<open>'p\<close>.
  A wait that never ends is \<open>None\<close>, as are a panic and an abort.
\<close>

section \<open>\<open>ClientBuilder\<close>\<close>

datatype echo_mode = Prevent | Allow

record 'k client_builder =
  b_tcp_nodelay :: bool
  b_client_name :: "bytes option"
  b_auth_method :: "'k authentication_method option"
  b_connect_timeout :: nat
  b_write_delay :: nat
  b_inbox_prefix :: subject
  b_echo :: echo_mode
  b_default_response_timeout :: nat
  b_zstd_compression_level :: "8 word option"

definition from_secs :: "nat \<Rightarrow> nat" where "from_secs n = n * 1000000000"

definition client_builder_new :: "'k client_builder" where
  "client_builder_new = \<lparr> b_tcp_nodelay = True, b_client_name = None, b_auth_method = None,
     b_connect_timeout = from_secs 30, b_write_delay = 0, b_inbox_prefix = Subject ''_INBOX'', b_echo = Prevent,
     b_default_response_timeout = from_secs 5, b_zstd_compression_level = Some 3 \<rparr>"

definition builder_tcp_nodelay :: "bool \<Rightarrow> 'k client_builder \<Rightarrow> 'k client_builder" where
  "builder_tcp_nodelay v b = b\<lparr>b_tcp_nodelay := v\<rparr>"

definition builder_authentication_method ::
    "'k authentication_method option \<Rightarrow> 'k client_builder \<Rightarrow> 'k client_builder" where
  "builder_authentication_method v b = b\<lparr>b_auth_method := v\<rparr>"

definition builder_client_name :: "bytes \<Rightarrow> 'k client_builder \<Rightarrow> 'k client_builder" where
  "builder_client_name v b = b\<lparr>b_client_name := Some v\<rparr>"

definition builder_connect_timeout :: "nat \<Rightarrow> 'k client_builder \<Rightarrow> 'k client_builder" where
  "builder_connect_timeout v b = b\<lparr>b_connect_timeout := v\<rparr>"

definition builder_write_delay :: "nat \<Rightarrow> 'k client_builder \<Rightarrow> 'k client_builder" where
  "builder_write_delay v b = b\<lparr>b_write_delay := v\<rparr>"

definition builder_inbox_prefix :: "subject \<Rightarrow> 'k client_builder \<Rightarrow> 'k client_builder" where
  "builder_inbox_prefix v b = b\<lparr>b_inbox_prefix := v\<rparr>"

definition builder_echo :: "echo_mode \<Rightarrow> 'k client_builder \<Rightarrow> 'k client_builder" where
  "builder_echo v b = b\<lparr>b_echo := v\<rparr>"

definition builder_default_response_timeout :: "nat \<Rightarrow> 'k client_builder \<Rightarrow> 'k client_builder" where
  "builder_default_response_timeout v b = b\<lparr>b_default_response_timeout := v\<rparr>"

definition builder_zstd_compression_level :: "8 word option \<Rightarrow> 'k client_builder \<Rightarrow> 'k client_builder" where
  "builder_zstd_compression_level v b = b\<lparr>b_zstd_compression_level := v\<rparr>"

section \<open>\<open>ClientInner\<close> and its channels\<close>

definition CLIENT_OP_CHANNEL_SIZE :: nat where "CLIENT_OP_CHANNEL_SIZE = 512"
definition SUBSCRIPTION_CHANNEL_SIZE :: nat where "SUBSCRIPTION_CHANNEL_SIZE = 256"

datatype client_closed_error = ClientClosedError
datatype try_command_error = BufferFull | Try_Closed client_closed_error

text \<open>\<open>tokio::sync::mpsc::error::TrySendError\<close>.\<close>

datatype 'a try_send_error = TrySend_Full 'a | TrySend_Closed 'a

record client =
  c_info :: "server_info option"
  c_quick_info :: raw_quick_info
  c_multiplexed_subscription_prefix :: subject
  next_subscription_id :: u64
  inbox_prefix :: subject
  default_response_timeout :: nat

record ('s, 'x, 'o, 'q, 'p, 'w) client_ops =
  c_reserve :: "'w \<Rightarrow> ((unit + 'p) \<times> 'w) option"
  c_try_reserve :: "'w \<Rightarrow> (unit try_send_error + 'p) \<times> 'w"
  permit_send :: "'p \<Rightarrow> ('s, 'o) handler_command \<Rightarrow> 'w \<Rightarrow> 'w"
  c_send :: "('s, 'o) handler_command \<Rightarrow> 'w \<Rightarrow> ((('s, 'o) handler_command + unit) \<times> 'w) option"
  c_try_send :: "('s, 'o) handler_command \<Rightarrow> 'w \<Rightarrow> (('s, 'o) handler_command try_send_error + unit) \<times> 'w"
  mpsc_channel :: "nat \<Rightarrow> 'w \<Rightarrow> ('s \<times> 'x) \<times> 'w"
  oneshot_channel :: "'w \<Rightarrow> ('o \<times> 'q) \<times> 'w"
  rand_fill :: "nat \<Rightarrow> 'w \<Rightarrow> bytes \<times> 'w"
  big_endian :: bool
  shutdown_try_send :: "'w \<Rightarrow> bool \<times> 'w"
  shutdown_closed :: "'w \<Rightarrow> 'w option"
  abort_handler :: "'w \<Rightarrow> 'w"

text \<open>\<open>Subscription\<close> and \<open>MultiplexedSubscription\<close>; the clone of the client they hold is the client their
  operations take.\<close>

datatype subscription_status = Subscribed | Unsubscribed

record 'x client_subscription =
  s_id :: subscription_id
  s_receiver :: 'x
  receiver_queue :: "(server_error + server_message) list"
  s_status :: subscription_status

definition subscription_new :: "subscription_id \<Rightarrow> 'x \<Rightarrow> 'x client_subscription" where
  "subscription_new sid receiver =
     \<lparr> s_id = sid, s_receiver = receiver, receiver_queue = [], s_status = Subscribed \<rparr>"

type_synonym 'q multiplexed_subscription = "(subject \<times> 'q) option"

definition multiplexed_new :: "subject \<Rightarrow> 'q \<Rightarrow> 'q multiplexed_subscription" where
  "multiplexed_new reply_subject receiver = Some (reply_subject, receiver)"

section \<open>Commands\<close>

fun from_try_send_error :: "'a try_send_error \<Rightarrow> try_command_error" where
  "from_try_send_error (TrySend_Full _) = BufferFull"
| "from_try_send_error (TrySend_Closed _) = Try_Closed ClientClosedError"

definition enqueue_command ::
    "('s, 'x, 'o, 'q, 'p, 'w) client_ops \<Rightarrow> ('s, 'o) handler_command \<Rightarrow> 'w \<Rightarrow>
     ((client_closed_error + unit) \<times> 'w) option" where
  "enqueue_command t cmd w = do { (r, w) \<leftarrow> c_send t cmd w; Some (map_err (\<lambda>_. ClientClosedError) r, w) }"

definition try_enqueue_command ::
    "('s, 'x, 'o, 'q, 'p, 'w) client_ops \<Rightarrow> ('s, 'o) handler_command \<Rightarrow> 'w \<Rightarrow> (try_command_error + unit) \<times> 'w" where
  "try_enqueue_command t cmd w = (case c_try_send t cmd w of (r, w) \<Rightarrow> (map_err from_try_send_error r, w))"

definition unsubscribe ::
    "('s, 'x, 'o, 'q, 'p, 'w) client_ops \<Rightarrow> subscription_id \<Rightarrow> u64 option \<Rightarrow> 'w \<Rightarrow>
     ((client_closed_error + unit) \<times> 'w) option" where
  "unsubscribe t sid max_messages w = enqueue_command t (Cmd_Unsubscribe sid max_messages) w"

text \<open>A command that does not fit is given up; the handler finds its receiver dropped later.\<close>

definition lazy_command ::
    "('s, 'x, 'o, 'q, 'p, 'w) client_ops \<Rightarrow> ('s, 'o) handler_command \<Rightarrow> client \<Rightarrow> 'w \<Rightarrow> client \<times> 'w" where
  "lazy_command t cmd c w =
     (case try_enqueue_command t cmd w of (r, w) \<Rightarrow>
        if is_ok r then (c, w)
        else (c\<lparr>c_quick_info := store_is_failed_unsubscribe True (c_quick_info c)\<rparr>, w))"

definition lazy_unsubscribe ::
    "('s, 'x, 'o, 'q, 'p, 'w) client_ops \<Rightarrow> subscription_id \<Rightarrow> u64 option \<Rightarrow> client \<Rightarrow> 'w \<Rightarrow> client \<times> 'w" where
  "lazy_unsubscribe t sid max_messages = lazy_command t (Cmd_Unsubscribe sid max_messages)"

definition lazy_unsubscribe_multiplexed ::
    "('s, 'x, 'o, 'q, 'p, 'w) client_ops \<Rightarrow> subject \<Rightarrow> client \<Rightarrow> 'w \<Rightarrow> client \<times> 'w" where
  "lazy_unsubscribe_multiplexed t reply_subject = lazy_command t (Cmd_UnsubscribeMultiplexed reply_subject)"

section \<open>Subscribing\<close>

text \<open>\<open>fetch_add\<close>, which wraps; the process aborts rather than give out the last identifier.\<close>

definition allocate_id :: "client \<Rightarrow> (subscription_id \<times> client) option" where
  "allocate_id c =
     (let sid = next_subscription_id c;
          c = c\<lparr>next_subscription_id := next_subscription_id c + 1\<rparr> in
      if sid = subscription_id_max then None else Some (sid, c))"

definition do_subscribe ::
    "('s, 'x, 'o, 'q, 'p, 'w) client_ops \<Rightarrow> 'p \<Rightarrow> subject \<Rightarrow> queue_group option \<Rightarrow> client \<Rightarrow> 'w \<Rightarrow>
     ('x client_subscription \<times> client \<times> 'w) option" where
  "do_subscribe t permit filter_subject queue_group c w = do {
     (sid, c) \<leftarrow> allocate_id c;
     let ((sender, receiver), w) = mpsc_channel t SUBSCRIPTION_CHANNEL_SIZE w;
     let w = permit_send t permit (Cmd_Subscribe sid filter_subject queue_group sender) w;
     Some (subscription_new sid receiver, c, w) }"

definition subscribe ::
    "('s, 'x, 'o, 'q, 'p, 'w) client_ops \<Rightarrow> subject \<Rightarrow> queue_group option \<Rightarrow> client \<Rightarrow> 'w \<Rightarrow>
     ((client_closed_error + 'x client_subscription) \<times> client \<times> 'w) option" where
  "subscribe t filter_subject queue_group c w = do {
     (r, w) \<leftarrow> c_reserve t w;
     (case r of
        Inl _ \<Rightarrow> Some (Err ClientClosedError, c, w)
      | Inr permit \<Rightarrow> do {
          (s, c, w) \<leftarrow> do_subscribe t permit filter_subject queue_group c w;
          Some (Ok s, c, w) }) }"

definition try_subscribe ::
    "('s, 'x, 'o, 'q, 'p, 'w) client_ops \<Rightarrow> subject \<Rightarrow> queue_group option \<Rightarrow> client \<Rightarrow> 'w \<Rightarrow>
     ((try_command_error + 'x client_subscription) \<times> client \<times> 'w) option" where
  "try_subscribe t filter_subject queue_group c w =
     (case c_try_reserve t w of
        (Inl _, w) \<Rightarrow> Some (Err BufferFull, c, w)
      | (Inr permit, w) \<Rightarrow> do {
          (s, c, w) \<leftarrow> do_subscribe t permit filter_subject queue_group c w;
          Some (Ok s, c, w) })"

section \<open>Requests over the multiplexed subscription\<close>

text \<open>\<open>u128::from_ne_bytes\<close> of an array of 16 bytes, and the subject it makes.\<close>

definition u128_from_ne_bytes :: "bool \<Rightarrow> bytes \<Rightarrow> 128 word" where
  "u128_from_ne_bytes big b = of_nat (horner_sum of_char 256 (if big then rev b else b))"

definition inbox_subject :: "bool \<Rightarrow> bool \<Rightarrow> bytes \<Rightarrow> subject \<Rightarrow> subject option" where
  "inbox_subject dbg big suffix prefix =
     subject_from_dangerous_value dbg
       (subject_as_str prefix @ ''.'' @ hex (unat (u128_from_ne_bytes big suffix)))"

definition create_inbox_subject ::
    "('s, 'x, 'o, 'q, 'p, 'w) client_ops \<Rightarrow> bool \<Rightarrow> subject \<Rightarrow> 'w \<Rightarrow> (subject \<times> 'w) option" where
  "create_inbox_subject t dbg prefix w =
     (case rand_fill t 16 w of (suffix, w) \<Rightarrow>
        map_option (\<lambda>s. (s, w)) (inbox_subject dbg (big_endian t) suffix prefix))"

definition do_multiplexed_request ::
    "('s, 'x, 'o, 'q, 'p, 'w) client_ops \<Rightarrow> bool \<Rightarrow> 'p \<Rightarrow> subject \<Rightarrow> header_map \<Rightarrow> bytes \<Rightarrow> client \<Rightarrow> 'w \<Rightarrow>
     ('q multiplexed_subscription \<times> 'w) option" where
  "do_multiplexed_request t dbg permit subject hdrs payload c w =
     (case oneshot_channel t w of ((sender, receiver), w) \<Rightarrow> do {
        (reply_subject, w) \<leftarrow> create_inbox_subject t dbg (c_multiplexed_subscription_prefix c) w;
        let w = permit_send t permit (Cmd_RequestMultiplexed subject reply_subject hdrs payload sender) w;
        Some (multiplexed_new reply_subject receiver, w) })"

definition multiplexed_request ::
    "('s, 'x, 'o, 'q, 'p, 'w) client_ops \<Rightarrow> bool \<Rightarrow> subject \<Rightarrow> header_map \<Rightarrow> bytes \<Rightarrow> client \<Rightarrow> 'w \<Rightarrow>
     ((client_closed_error + 'q multiplexed_subscription) \<times> 'w) option" where
  "multiplexed_request t dbg subject hdrs payload c w = do {
     (r, w) \<leftarrow> c_reserve t w;
     (case r of
        Inl _ \<Rightarrow> Some (Err ClientClosedError, w)
      | Inr permit \<Rightarrow> do {
          (s, w) \<leftarrow> do_multiplexed_request t dbg permit subject hdrs payload c w;
          Some (Ok s, w) }) }"

definition try_multiplexed_request ::
    "('s, 'x, 'o, 'q, 'p, 'w) client_ops \<Rightarrow> bool \<Rightarrow> subject \<Rightarrow> header_map \<Rightarrow> bytes \<Rightarrow> client \<Rightarrow> 'w \<Rightarrow>
     ((try_command_error + 'q multiplexed_subscription) \<times> 'w) option" where
  "try_multiplexed_request t dbg subject hdrs payload c w =
     (case c_try_reserve t w of
        (Inl _, w) \<Rightarrow> Some (Err BufferFull, w)
      | (Inr permit, w) \<Rightarrow> do {
          (s, w) \<leftarrow> do_multiplexed_request t dbg permit subject hdrs payload c w;
          Some (Ok s, w) })"

section \<open>The rest of the handle\<close>

definition client_quick_info :: "client \<Rightarrow> quick_info" where
  "client_quick_info c = quick_info_get (c_quick_info c)"

definition client_create_inbox_subject ::
    "('s, 'x, 'o, 'q, 'p, 'w) client_ops \<Rightarrow> bool \<Rightarrow> client \<Rightarrow> 'w \<Rightarrow> (subject \<times> 'w) option" where
  "client_create_inbox_subject t dbg c w = create_inbox_subject t dbg (inbox_prefix c) w"

definition client_close :: "('s, 'x, 'o, 'q, 'p, 'w) client_ops \<Rightarrow> 'w \<Rightarrow> 'w option" where
  "client_close t w = (case shutdown_try_send t w of (_, w) \<Rightarrow> shutdown_closed t w)"

definition client_drop :: "('s, 'x, 'o, 'q, 'p, 'w) client_ops \<Rightarrow> 'w \<Rightarrow> 'w" where
  "client_drop t w = abort_handler t w"

text \<open>\<open>RecycledHandler::new\<close>, and the client made of it.\<close>

definition recycled_handler_new ::
    "('s, 'x, 'o, 'q, 'p, 'w) client_ops \<Rightarrow> bool \<Rightarrow> raw_quick_info \<Rightarrow> 'k client_builder \<Rightarrow> 'w \<Rightarrow>
     ('s recycled_handler \<times> 'w) option" where
  "recycled_handler_new t dbg q builder w = do {
     (prefix, w) \<leftarrow> create_inbox_subject t dbg (b_inbox_prefix builder) w;
     Some (recycled_new q prefix, w) }"

definition client_inner_new ::
    "'k client_builder \<Rightarrow> server_info option \<Rightarrow> raw_quick_info \<Rightarrow> subject \<Rightarrow> client" where
  "client_inner_new builder info q prefix =
     \<lparr> c_info = info, c_quick_info = q, c_multiplexed_subscription_prefix = prefix,
       next_subscription_id = MULTIPLEXED_SUBSCRIPTION_ID + 1,
       inbox_prefix = b_inbox_prefix builder,
       default_response_timeout = b_default_response_timeout builder \<rparr>"

section \<open>Inboxes\<close>

lemma hex_nonempty: "hex n \<noteq> []"
  by (simp add: hex.simps [of n])

lemma hex_char_val: "d < 16 \<Longrightarrow> byte_val (hex_char d) = (if d < 10 then 48 + d else 87 + d)"
  by (simp add: hex_char_def)

lemma hex_snoc: "hex n = (if n < 16 then [] else hex (n div 16)) @ [hex_char (n mod 16)]"
  by (simp add: hex.simps [of n])

lemma hex_chars: "c \<in> set (hex n) \<Longrightarrow> \<exists>d<16. c = hex_char d"
proof (induction n rule: hex.induct)
  case (1 n)
  have m: "n mod 16 < 16" by simp
  from 1(2) have "\<not> n < 16 \<and> c \<in> set (hex (n div 16)) \<or> c = hex_char (n mod 16)"
    by (subst (asm) hex_snoc) (auto split: if_splits)
  with 1(1) m show ?case by blast
qed

lemma hex_no_special: "c \<in> set (hex n) \<Longrightarrow> \<not> is_separator c \<and> \<not> wildcard c \<and> c \<noteq> CHR ''.''"
proof -
  assume "c \<in> set (hex n)"
  then obtain d where d: "d < 16" "c = hex_char d" using hex_chars by blast
  then have "48 \<le> byte_val c" "byte_val c \<noteq> 62" by (auto simp: hex_char_val)
  then show ?thesis by (auto simp: is_separator_def is_eol_def wildcard_def)
qed

lemma hex_char_inj: "d < 16 \<Longrightarrow> d' < 16 \<Longrightarrow> hex_char d = hex_char d' \<Longrightarrow> d = d'"
  by (drule arg_cong [where f = byte_val]) (auto simp: hex_char_val split: if_splits)

lemma hex_inj: "hex n = hex m \<Longrightarrow> n = m"
proof (induction n arbitrary: m rule: hex.induct)
  case (1 n)
  let ?h = "\<lambda>n. if n < 16 then [] else hex (n div 16)"
  have "?h n @ [hex_char (n mod 16)] = hex n" by (fact hex_snoc [symmetric])
  also have "\<dots> = hex m" by (fact "1.prems")
  also have "\<dots> = ?h m @ [hex_char (m mod 16)]" by (fact hex_snoc)
  finally have *: "?h n @ [hex_char (n mod 16)] = ?h m @ [hex_char (m mod 16)]" .
  then have "hex_char (n mod 16) = hex_char (m mod 16)" by simp
  then have r: "n mod 16 = m mod 16" by (rule hex_char_inj [rotated 2]) simp_all
  from * have q: "?h n = ?h m" by simp
  have "n div 16 = m div 16"
  proof (cases "n < 16")
    case True
    with q have "m < 16" using hex_nonempty [of "m div 16"] by (simp split: if_splits)
    with True show ?thesis by simp
  next
    case False
    with q have "hex (n div 16) = hex (m div 16)" using hex_nonempty [of "n div 16"] by (simp split: if_splits)
    with False show ?thesis by (rule "1.IH")
  qed
  with r show ?case by (metis div_mult_mod_eq)
qed

lemma byte_val_less: "byte_val c < 256"
  by (fact nat_of_char_less_256)

lemma byte_horner_less: "x < 256 \<Longrightarrow> n < k \<Longrightarrow> x + 256 * n < 256 * k" for x n k :: nat
  using mult_le_mono2 [of "Suc n" k 256] by simp

lemma horner_bytes_bound: "horner_sum byte_val 256 b < 256 ^ length b"
  by (induction b) (simp_all add: byte_horner_less byte_val_less)

lemma byte_horner:
  fixes x y n m :: nat
  assumes "x < 256" and "y < 256" and "x + 256 * n = y + 256 * m"
  shows "x = y" and "n = m"
proof -
  have "(x + 256 * n) mod 256 = x" "(y + 256 * m) mod 256 = y" using assms(1,2) by simp_all
  with assms(3) show "x = y" by metis
  with assms(3) show "n = m" by simp
qed

lemma horner_bytes_inj:
  "length b = length b' \<Longrightarrow> horner_sum byte_val 256 b = horner_sum byte_val 256 b' \<Longrightarrow> b = b'"
proof (induction b arbitrary: b')
  case (Cons c b)
  from Cons.prems(1) obtain c' r where b': "b' = c' # r" by (cases b') simp_all
  have "byte_val c < 256" "byte_val c' < 256" by (fact byte_val_less)+
  moreover have "byte_val c + 256 * horner_sum byte_val 256 b = byte_val c' + 256 * horner_sum byte_val 256 r"
    using Cons.prems(2) b' by simp
  ultimately have "byte_val c = byte_val c'" "horner_sum byte_val 256 b = horner_sum byte_val 256 r"
    by (rule byte_horner)+
  with Cons.IH [of r] Cons.prems(1) b' show ?case by simp
qed simp

lemma unat_u128:
  assumes "length b = 16"
  shows "unat (u128_from_ne_bytes big b) = horner_sum byte_val 256 (if big then rev b else b)"
proof -
  have "horner_sum byte_val 256 (if big then rev b else b) < 256 ^ 16"
    using horner_bytes_bound [of "if big then rev b else b"] assms by (simp split: if_splits)
  then show ?thesis by (simp add: u128_from_ne_bytes_def unsigned_of_nat take_bit_nat_eq_self)
qed

lemma u128_inj:
  assumes "length b = 16" and "length b' = 16" and "u128_from_ne_bytes big b = u128_from_ne_bytes big b'"
  shows "b = b'"
proof -
  have "horner_sum byte_val 256 (if big then rev b else b) = horner_sum byte_val 256 (if big then rev b' else b')"
    using assms(3) unat_u128 [OF assms(1)] unat_u128 [OF assms(2)] by metis
  then show ?thesis
    using horner_bytes_inj [of "rev b" "rev b'"] horner_bytes_inj [of b b'] assms(1,2) by (cases big) simp_all
qed

text \<open>Which subjects a server delivers to a subscription.\<close>

fun tokens_match :: "bytes list \<Rightarrow> bytes list \<Rightarrow> bool" where
  "tokens_match [] ts \<longleftrightarrow> ts = []"
| "tokens_match (p # ps) [] \<longleftrightarrow> False"
| "tokens_match (p # ps) (t # ts) \<longleftrightarrow> p = ''>'' \<and> ps = [] \<or> (p = ''*'' \<or> p = t) \<and> tokens_match ps ts"

definition subject_matches :: "bytes \<Rightarrow> bytes \<Rightarrow> bool" where
  "subject_matches p s = tokens_match (split_on CHR ''.'' p) (split_on CHR ''.'' s)"

lemma tokens_match_snoc: "tokens_match (ts @ [''*'']) (ts @ [t])"
  by (induction ts) auto

lemma inbox_subject_Some:
  assumes "validate_subject (subject_as_str p) = Ok ()" and "last (split_on CHR ''.'' (subject_as_str p)) \<noteq> ''>''"
  shows "inbox_subject dbg big b p = Some (Subject (subject_as_str p @ ''.'' @ hex (unat (u128_from_ne_bytes big b))))"
    and "validate_subject (subject_as_str p @ ''.'' @ hex (unat (u128_from_ne_bytes big b))) = Ok ()"
proof -
  let ?t = "hex (unat (u128_from_ne_bytes big b))"
  have t: "CHR ''.'' \<notin> set ?t" "token_wf ?t" "\<forall>c\<in>set ?t. \<not> is_separator c"
    using hex_no_special hex_nonempty by (auto simp: token_wf_def)
  have "subject_wf (subject_as_str p @ CHR ''.'' # ?t)"
    using assms t by (intro subject_wf_append_token) (simp_all add: validate_subject_Ok_iff)
  then show v: "validate_subject (subject_as_str p @ ''.'' @ ?t) = Ok ()"
    by (simp add: validate_subject_Ok_iff)
  then show "inbox_subject dbg big b p = Some (Subject (subject_as_str p @ ''.'' @ ?t))"
    by (simp add: inbox_subject_def subject_from_dangerous_value_def)
qed

lemma inbox_matches: "subject_matches (p @ ''.*'') (p @ ''.'' @ hex n)"
proof -
  have "split_on CHR ''.'' (hex n) = [hex n]" "split_on CHR ''.'' ''*'' = [''*'']"
    using hex_no_special [of _ n] by (auto intro!: split_on_token)
  then show ?thesis by (simp add: subject_matches_def split_on_append tokens_match_snoc)
qed

section \<open>Properties\<close>

text \<open>C33: Under a valid prefix that does not end in the wildcard >, an inbox is a valid subject that
  starts with the prefix and matches the subscription to prefix.* which the handler opens for
  replies, and two inboxes are the same only when their sixteen random bytes are.\<close>

theorem inbox_subject_ok:
  assumes "validate_subject (subject_as_str p) = Ok ()" and "last (split_on CHR ''.'' (subject_as_str p)) \<noteq> ''>''"
    and "length b = 16" and "length b' = 16"
  shows "\<exists>s. inbox_subject dbg big b p = Some s \<and> validate_subject (subject_as_str s) = Ok () \<and>
    starts_with (subject_as_str s) (subject_as_str p) \<and>
    subject_matches (subject_as_str p @ ''.*'') (subject_as_str s) \<and>
    (inbox_subject dbg big b' p = Some s \<longleftrightarrow> b' = b)"
proof -
  let ?s = "\<lambda>b. Subject (subject_as_str p @ ''.'' @ hex (unat (u128_from_ne_bytes big b)))"
  have "?s b' = ?s b \<longleftrightarrow> b' = b"
    using u128_inj [OF assms(4,3)] hex_inj by (auto dest!: hex_inj word_unat_eq_iff [THEN iffD2])
  then show ?thesis
    using inbox_subject_Some [OF assms(1,2)] inbox_matches [of "subject_as_str p"] by (intro exI [of _ "?s b"]) simp
qed

lemma inbox_subject_ok_witness:
  "inbox_subject True False (CHR ''a'' # replicate 15 CHR 0x00) (Subject ''_INBOX'') = Some (Subject ''_INBOX.61'') \<and>
   validate_subject ''_INBOX.61'' = Ok () \<and>
   inbox_subject True False (CHR ''b'' # replicate 15 CHR 0x00) (Subject ''_INBOX'') \<noteq> Some (Subject ''_INBOX.61'')"
proof -
  have p: "validate_subject (subject_as_str (Subject ''_INBOX'')) = Ok ()"
    "last (split_on CHR ''.'' (subject_as_str (Subject ''_INBOX''))) \<noteq> ''>''"
    by (simp_all add: validate_subject_def is_separator_def is_eol_def)
  have "hex 97 = ''61''" by code_simp
  moreover have "u128_from_ne_bytes False (CHR ''a'' # replicate 15 CHR 0x00) = 97"
    by (simp add: u128_from_ne_bytes_def numeral_eq_Suc)
  ultimately have "inbox_subject True False (CHR ''a'' # replicate 15 CHR 0x00) (Subject ''_INBOX'') = Some (Subject ''_INBOX.61'')"
    using inbox_subject_Some(1) [OF p, of True False "CHR ''a'' # replicate 15 CHR 0x00"] by simp
  then show ?thesis
    using inbox_subject_ok [OF p, of "CHR ''a'' # replicate 15 CHR 0x00" "CHR ''b'' # replicate 15 CHR 0x00" True False]
    by auto
qed

end
