(* ===== verification/Client_Task.thy ===== *)
theory Client_Task
  imports Connector Handler_Net Client
begin

text \<open>
  The task that \<open>Client::connect\<close> and \<open>Client::connect_lazy\<close> spawn (\<open>watermelon/src/client/mod.rs\<close>), and the
  connecting part of \<open>Handler::connect\<close> (\<open>watermelon/src/handler/mod.rs\<close>): dial, poll the handler until it
  gives up, recycle it and dial again, with a growing delay. What interrupts the dialling, the shutdown
  channel or the timeout, is the world's choice.
\<close>

section \<open>Connecting\<close>

definition connect_flags_of :: "'y client_builder \<Rightarrow> connect_flags" where
  "connect_flags_of builder = connect_flags_default
     \<lparr>tcp_nodelay := b_tcp_nodelay builder, fl_client_name := b_client_name builder,
      fl_echo := (b_echo builder = Allow), zstd_compression_level := b_zstd_compression_level builder\<rparr>"

text \<open>\<open>easy_connect\<close> with the flags of the builder.\<close>

definition dial ::
    "('s, 't, 'z, 'l, 'h, 'n, 'u, 'i, 'x, 'w) connector \<Rightarrow> ('y, 'c) crypto_scheme \<Rightarrow> 'v url_ext \<Rightarrow>
     (server_addr \<Rightarrow> 'w \<Rightarrow> (('i io_error + 's) \<times> 'w) option) \<Rightarrow>
     ('j, ('s, 't) connection_security, 'l, 'i, 'x, 'w) net \<Rightarrow>
     ('j, (('s, 't) connection_security, 'z) connection_compression, 'l, 'i, 'x, 'w) net \<Rightarrow> bool \<Rightarrow>
     server_addr \<Rightarrow> 'y client_builder \<Rightarrow> 'w \<Rightarrow>
     ((('j, 'n, 'i) mini_connect_error +
       ((('s, 't) connection_security, 'z) connection_compression, 'l, 'i) connection \<times> server_info) \<times> 'w) option" where
  "dial k x u connect_to n1 n2 dbg addr builder w =
     (let flags = connect_flags_of builder in
      mini_connect k x u connect_to n1 n2 dbg addr (fl_client_name flags) (b_auth_method builder) flags w)"

datatype interruption = By_Shutdown | By_Timeout

text \<open>\<open>fuse_shutdown(timeout(...))\<close>: the outcome of the attempt.\<close>

definition connect_race ::
    "('w \<Rightarrow> interruption option \<times> 'w) \<Rightarrow> ('w \<Rightarrow> (('e + 'c \<times> server_info) \<times> 'w) option) \<Rightarrow> 'w \<Rightarrow>
     (('c, 'e) connect_outcome \<times> 'w) option" where
  "connect_race race dialled w =
     (case race w of
        (Some By_Shutdown, w) \<Rightarrow> Some (Fuse_Shutdown, w)
      | (Some By_Timeout, w) \<Rightarrow> Some (Elapsed, w)
      | (None, w) \<Rightarrow> do {
          (r, w) \<leftarrow> dialled w;
          Some (case r of Inl err \<Rightarrow> Connect_Failed err | Inr (c, info) \<Rightarrow> Connected c info, w) })"

definition connection_is_zstd ::
    "(('a, 'z) connection_compression, 'l, 'i) connection \<Rightarrow> bool" where
  "connection_is_zstd c =
     (case c of Streaming streaming \<Rightarrow> is_zstd_compressed_stream (sc_socket streaming) | Websocket _ \<Rightarrow> False)"

definition handler_connect_run ::
    "((('a, 'z) connection_compression, 'l, 'i) connection, 's, 'o, 'w, 'm) env_scheme \<Rightarrow>
     'y client_builder \<Rightarrow> ('w \<Rightarrow> interruption option \<times> 'w) \<Rightarrow>
     ('w \<Rightarrow> (('e + (('a, 'z) connection_compression, 'l, 'i) connection \<times> server_info) \<times> 'w) option) \<Rightarrow>
     's recycled_handler \<Rightarrow> 'w \<Rightarrow>
     (('e connect_handler_error \<times> 's recycled_handler +
       ((('a, 'z) connection_compression, 'l, 'i) connection, 's, 'o) handler option) \<times> 'w) option" where
  "handler_connect_run e builder race dialled recycle w = do {
     (outcome, w) \<leftarrow> connect_race race dialled w;
     handler_connect e connection_is_zstd (b_write_delay builder) outcome recycle w }"

section \<open>Connecting again\<close>

definition MIN_RECONNECT_DELAY :: nat where "MIN_RECONNECT_DELAY = from_secs 1"
definition MAX_RECONNECT_DELAY :: nat where "MAX_RECONNECT_DELAY = from_secs 60"

definition next_delay :: "nat \<Rightarrow> nat" where
  "next_delay dly =
     (if dly < MIN_RECONNECT_DELAY then MIN_RECONNECT_DELAY else min (dly * 2) MAX_RECONNECT_DELAY)"

definition poll_sleep_future ::
    "('c, 's, 'o, 'w, 'z) env_scheme \<Rightarrow> nat \<Rightarrow> 'w \<Rightarrow> unit poll \<times> nat \<times> 'w" where
  "poll_sleep_future e deadline w =
     (case poll_sleep e deadline w of (elapsed, w) \<Rightarrow> (if elapsed then Ready () else Pending, deadline, w))"

definition sleep_or_shutdown ::
    "('c, 's, 'o, 'w, 'z) env_scheme \<Rightarrow> nat \<Rightarrow> 'w \<Rightarrow> (unit fuse_shutdown \<times> 'w) option" where
  "sleep_or_shutdown e dly w =
     (case now e w of (start, w) \<Rightarrow> do {
        (r, _, w) \<leftarrow> await (\<lambda>d w. Some (fuse_shutdown_poll e (poll_sleep_future e) d w)) (start + dly) w;
        Some (r, w) })"

partial_function (option) reconnect ::
    "('c, 's, 'o, 'w, 'z) env_scheme \<Rightarrow>
     ('s recycled_handler \<Rightarrow> 'w \<Rightarrow> (('e \<times> 's recycled_handler + ('c, 's, 'o) handler option) \<times> 'w) option) \<Rightarrow>
     nat \<Rightarrow> 's recycled_handler \<Rightarrow> 'w \<Rightarrow> (('c, 's, 'o) handler option \<times> 'w) option" where
  "reconnect e attempt dly recycle w = do {
     (r, w) \<leftarrow> sleep_or_shutdown e dly w;
     (case r of
        Fuse_Stopped \<Rightarrow> Some (None, w)
      | Fuse_Output _ \<Rightarrow> do {
          (r, w) \<leftarrow> attempt recycle w;
          (case r of
             Inr (Some new_handle) \<Rightarrow> Some (Some new_handle, w)
           | Inr None \<Rightarrow> Some (None, w)
           | Inl (_, prev_recycle) \<Rightarrow> reconnect e attempt (next_delay dly) prev_recycle w) }) }"

section \<open>The task\<close>

partial_function (option) client_task ::
    "('j, 'k, 'l, 'i, 'x, 'w) net \<Rightarrow> bool \<Rightarrow> ('s, 'o, 'w) tokio \<Rightarrow>
     ('s recycled_handler \<Rightarrow> 'w \<Rightarrow>
       (('e \<times> 's recycled_handler + (('k, 'l, 'i) connection, 's, 'o) handler option) \<times> 'w) option) \<Rightarrow>
     (('k, 'l, 'i) connection, 's, 'o) handler \<Rightarrow> 'w \<Rightarrow> 'w option" where
  "client_task n dbg t attempt h w = do {
     (out, h, w) \<leftarrow> await (handler_poll (handler_env n dbg t) dbg) h w;
     if out = Out_Closed then do {
       (_, w) \<leftarrow> handler_close n dbg t h w;
       Some w }
     else do {
       (recycle, w) \<leftarrow> recycle_run n h w;
       (r, w) \<leftarrow> reconnect (handler_env n dbg t) attempt MIN_RECONNECT_DELAY recycle w;
       (case r of
          Some new_handle \<Rightarrow> client_task n dbg t attempt new_handle w
        | None \<Rightarrow> Some w) } }"

definition client_task_lazy ::
    "('j, 'k, 'l, 'i, 'x, 'w) net \<Rightarrow> bool \<Rightarrow> ('s, 'o, 'w) tokio \<Rightarrow>
     ('s recycled_handler \<Rightarrow> 'w \<Rightarrow>
       (('e \<times> 's recycled_handler + (('k, 'l, 'i) connection, 's, 'o) handler option) \<times> 'w) option) \<Rightarrow>
     's recycled_handler \<Rightarrow> 'w \<Rightarrow> 'w option" where
  "client_task_lazy n dbg t attempt recycle w = do {
     (r, w) \<leftarrow> reconnect (handler_env n dbg t) attempt 0 recycle w;
     (case r of
        None \<Rightarrow> Some w
      | Some h \<Rightarrow> client_task n dbg t attempt h w) }"

text \<open>The client, and the state its task starts from: a handler, or a recycled one that has still to
  connect. \<open>expect\<close> panics when the shutdown comes first, which it cannot, since the client that could
  ask for it does not exist yet.\<close>

definition client_connect ::
    "('s, 'x, 'o, 'q, 'p, 'w) client_ops \<Rightarrow> bool \<Rightarrow> 'y client_builder \<Rightarrow>
     ('s recycled_handler \<Rightarrow> 'w \<Rightarrow> (('e \<times> 's recycled_handler + ('c, 's, 'o) handler option) \<times> 'w) option) \<Rightarrow>
     'w \<Rightarrow> (('e + client \<times> ('c, 's, 'o) handler) \<times> 'w) option" where
  "client_connect ops dbg builder attempt w = do {
     (recycle, w) \<leftarrow> recycled_handler_new ops dbg raw_quick_info_new builder w;
     (r, w) \<leftarrow> attempt recycle w;
     (case r of
        Inl (err, _) \<Rightarrow> Some (Err err, w)
      | Inr None \<Rightarrow> None
      | Inr (Some handle) \<Rightarrow>
          Some (Ok (client_inner_new builder (h_info handle) (h_quick_info handle)
            (multiplexed_subscription_prefix handle), handle), w)) }"

definition client_connect_lazy ::
    "('s, 'x, 'o, 'q, 'p, 'w) client_ops \<Rightarrow> bool \<Rightarrow> 'y client_builder \<Rightarrow> 'w \<Rightarrow>
     ((client \<times> 's recycled_handler) \<times> 'w) option" where
  "client_connect_lazy ops dbg builder w = do {
     (recycle, w) \<leftarrow> recycled_handler_new ops dbg raw_quick_info_new builder w;
     Some ((client_inner_new builder (r_info recycle) (r_quick_info recycle)
       (r_multiplexed_subscription_prefix recycle), recycle), w) }"

section \<open>The rounds of \<open>reconnect\<close>\<close>

text \<open>What the loop does: rounds that sleep and fail, then one that ends it.\<close>

definition backoff :: "nat \<Rightarrow> nat \<Rightarrow> nat" where
  "backoff dly k = (next_delay ^^ k) dly"

fun failed_rounds ::
    "('c, 's, 'o, 'w, 'z) env_scheme \<Rightarrow>
     ('s recycled_handler \<Rightarrow> 'w \<Rightarrow> (('e \<times> 's recycled_handler + ('c, 's, 'o) handler option) \<times> 'w) option) \<Rightarrow>
     nat \<Rightarrow> nat \<Rightarrow> 's recycled_handler \<Rightarrow> 'w \<Rightarrow> 's recycled_handler \<Rightarrow> 'w \<Rightarrow> bool" where
  "failed_rounds e attempt dly 0 r w r' w' \<longleftrightarrow> r' = r \<and> w' = w"
| "failed_rounds e attempt dly (Suc k) r w r' w' \<longleftrightarrow>
     (\<exists>w1 err r1 w2. sleep_or_shutdown e dly w = Some (Fuse_Output (), w1) \<and>
        attempt r w1 = Some (Err (err, r1), w2) \<and> failed_rounds e attempt (next_delay dly) k r1 w2 r' w')"

definition last_round ::
    "('c, 's, 'o, 'w, 'z) env_scheme \<Rightarrow>
     ('s recycled_handler \<Rightarrow> 'w \<Rightarrow> (('e \<times> 's recycled_handler + ('c, 's, 'o) handler option) \<times> 'w) option) \<Rightarrow>
     nat \<Rightarrow> 's recycled_handler \<Rightarrow> 'w \<Rightarrow> ('c, 's, 'o) handler option \<Rightarrow> 'w \<Rightarrow> bool" where
  "last_round e attempt dly r w res w' \<longleftrightarrow>
     sleep_or_shutdown e dly w = Some (Fuse_Stopped, w') \<and> res = None \<or>
     (\<exists>w1. sleep_or_shutdown e dly w = Some (Fuse_Output (), w1) \<and> attempt r w1 = Some (Ok res, w'))"

lemma backoff_Suc: "backoff (next_delay dly) k = backoff dly (Suc k)"
  by (simp add: backoff_def funpow_swap1)

lemma backoff_simps [simp]: "backoff dly 0 = dly"
  by (simp add: backoff_def)

lemma backoff_step: "backoff dly (Suc k) = next_delay (backoff dly k)"
  by (simp add: backoff_def)

lemma next_delay_doubles:
  "next_delay (min (2 ^ k * MIN_RECONNECT_DELAY) MAX_RECONNECT_DELAY) =
     min (2 ^ Suc k * MIN_RECONNECT_DELAY) MAX_RECONNECT_DELAY"
proof -
  have "MIN_RECONNECT_DELAY \<le> 2 ^ k * MIN_RECONNECT_DELAY" by simp
  moreover have "MIN_RECONNECT_DELAY \<le> MAX_RECONNECT_DELAY"
    by (simp add: MIN_RECONNECT_DELAY_def MAX_RECONNECT_DELAY_def from_secs_def)
  ultimately show ?thesis by (simp add: next_delay_def min_def)
qed

lemma backoff_MIN: "backoff MIN_RECONNECT_DELAY k = min (2 ^ k * MIN_RECONNECT_DELAY) MAX_RECONNECT_DELAY"
proof (induction k)
  case 0
  show ?case by (simp add: MIN_RECONNECT_DELAY_def MAX_RECONNECT_DELAY_def from_secs_def)
next
  case (Suc k)
  then show ?case by (simp only: backoff_step next_delay_doubles)
qed

lemma backoff_zero: "backoff 0 (Suc k) = backoff MIN_RECONNECT_DELAY k"
  by (simp add: backoff_Suc [symmetric] next_delay_def MIN_RECONNECT_DELAY_def from_secs_def)

lemma reconnect_failed_rounds:
  "failed_rounds e attempt dly k r w r' w' \<Longrightarrow>
     reconnect e attempt dly r w = reconnect e attempt (backoff dly k) r' w'"
proof (induction k arbitrary: dly r w)
  case (Suc k)
  then obtain w1 err r1 w2 where s: "sleep_or_shutdown e dly w = Some (Fuse_Output (), w1)"
      "attempt r w1 = Some (Err (err, r1), w2)" and f: "failed_rounds e attempt (next_delay dly) k r1 w2 r' w'"
    by auto
  have "reconnect e attempt dly r w = reconnect e attempt (next_delay dly) r1 w2"
    by (subst reconnect.simps) (simp add: s)
  also have "\<dots> = reconnect e attempt (backoff dly (Suc k)) r' w'"
    using Suc.IH [OF f] by (simp add: backoff_Suc)
  finally show ?case .
qed simp

lemma reconnect_last_round:
  "last_round e attempt dly r w res w' \<Longrightarrow> reconnect e attempt dly r w = Some (res, w')"
  by (subst reconnect.simps) (auto simp: last_round_def split: option.split)

lemma reconnect_rounds:
  assumes "reconnect e attempt dly r w = Some (res, w')"
  shows "\<exists>k r1 w1. failed_rounds e attempt dly k r w r1 w1 \<and> last_round e attempt (backoff dly k) r1 w1 res w'"
proof -
  let ?P = "\<lambda>dly r w x. \<exists>k r1 w1. failed_rounds e attempt dly k r w r1 w1 \<and>
    last_round e attempt (backoff dly k) r1 w1 (fst x) (snd x)"
  have "e = e \<longrightarrow> attempt = attempt \<longrightarrow> ?P dly r w (res, w')"
    using assms
  proof (rule reconnect.raw_induct [where P = "\<lambda>e' a' dly r w x. e' = e \<longrightarrow> a' = attempt \<longrightarrow> ?P dly r w x",
        rotated], intro impI)
    fix rc e' a' dly r w x
    assume IH: "\<And>e' a' dly r w x. rc e' a' dly r w = Some x \<Longrightarrow> e' = e \<longrightarrow> a' = attempt \<longrightarrow> ?P dly r w x"
      and eq: "e' = e" "a' = attempt" and body: "do {
        (q, w) \<leftarrow> sleep_or_shutdown e' dly w;
        case q of
          Fuse_Output _ \<Rightarrow> do {
            (q, w) \<leftarrow> a' r w;
            case q of
              Inl (_, prev_recycle) \<Rightarrow> rc e' a' (next_delay dly) prev_recycle w
            | Inr None \<Rightarrow> Some (None, w)
            | Inr (Some new_handle) \<Rightarrow> Some (Some new_handle, w) }
        | Fuse_Stopped \<Rightarrow> Some (None, w) } = Some x"
    obtain q w1 where s: "sleep_or_shutdown e dly w = Some (q, w1)"
      using body eq by (auto split: bind_splits)
    show "?P dly r w x"
    proof (cases "q = Fuse_Stopped")
      case True
      with s body eq have "last_round e attempt dly r w (fst x) (snd x)" by (auto simp: last_round_def)
      then show ?thesis by (intro exI [of _ 0]) simp
    next
      case False
      then have q: "q = Fuse_Output ()" by (cases q) simp_all
      with s body eq obtain a w2 where a: "attempt r w1 = Some (a, w2)" by (auto split: bind_splits)
      show ?thesis
      proof (cases a)
        case (Inr b)
        with s q a body eq have "last_round e attempt dly r w (fst x) (snd x)"
          by (auto simp: last_round_def split: option.splits)
        then show ?thesis by (intro exI [of _ 0]) simp
      next
        case (Inl b)
        obtain err r1 where b: "b = (err, r1)" by (cases b)
        with Inl s q a body eq have "rc e attempt (next_delay dly) r1 w2 = Some x" by simp
        with IH obtain k r2 w3 where "failed_rounds e attempt (next_delay dly) k r1 w2 r2 w3"
            "last_round e attempt (backoff (next_delay dly) k) r2 w3 (fst x) (snd x)" by blast
        with s q a Inl b show ?thesis
          by (intro exI [of _ "Suc k"] exI [of _ r2] exI [of _ w3]) (auto simp: backoff_Suc)
      qed
    qed
  qed
  then show ?thesis by simp
qed

section \<open>Properties\<close>

text \<open>C34: The reconnecting loop is a number of rounds that sleep and fail to connect, then one round
  that connects, or is stopped by a shutdown while it sleeps or dials; before round k it sleeps
  2^k seconds, at most 60, and a lazy client, whose first attempt does not wait, is one round
  behind.\<close>

theorem reconnect_backoff:
  "(reconnect e attempt dly r w = Some (res, w') \<longleftrightarrow>
     (\<exists>k r1 w1. failed_rounds e attempt dly k r w r1 w1 \<and> last_round e attempt (backoff dly k) r1 w1 res w')) \<and>
   backoff MIN_RECONNECT_DELAY k = min (2 ^ k * from_secs 1) (from_secs 60) \<and>
   backoff 0 0 = 0 \<and> backoff 0 (Suc k) = backoff MIN_RECONNECT_DELAY k"
  using reconnect_rounds [of e attempt dly r w res w'] reconnect_failed_rounds [of e attempt dly _ r w]
    reconnect_last_round [of e attempt _ _ _ res w'] backoff_MIN [of k] backoff_zero [of k]
  by (auto simp: MIN_RECONNECT_DELAY_def MAX_RECONNECT_DELAY_def)

end
