(* ===== verification/System.thy ===== *)
theory System
  imports Client_Task
begin

text \<open>
  The clients and the handler together. A handle of the client may be used from any thread while the task
  of the handler runs, so the world an operation of the handler acts on moves on by steps of the clients.
  First what a poll does to the world, whatever relation its operations respect; then the steps of
  the clients, and the invariant that connects the identifiers they allocate with the table of the
  handler.
\<close>

section \<open>The world of a poll\<close>

text \<open>A relation between worlds that the operations of the environment respect.\<close>

locale world_rely =
  fixes e :: "('c, 's, 'o, 'w, 'z) env_scheme" and S :: "'w \<Rightarrow> 'w \<Rightarrow> bool"
  assumes S_refl: "S w w"
    and S_trans: "S w w' \<Longrightarrow> S w' w'' \<Longrightarrow> S w w''"
    and S_now: "now e w = (t, w') \<Longrightarrow> S w w'"
    and S_sleep: "poll_sleep e d w = (b, w') \<Longrightarrow> S w w'"
    and S_room: "may_enqueue_more_ops e c w = Some (b, c', w') \<Longrightarrow> S w w'"
    and S_read: "poll_read_next e c w = Some (r, c', w') \<Longrightarrow> S w w'"
    and S_write: "poll_write_next e c w = Some (r', c', w') \<Longrightarrow> S w w'"
    and S_flush: "poll_flush e c w = Some (r'', c', w') \<Longrightarrow> S w w'"
    and S_try_send: "try_send e s m w = (sent, w') \<Longrightarrow> S w w'"
    and S_oneshot: "S w (oneshot_send e q sm w)"
    and S_close: "S w (close_commands e w)"
    and S_shutdown: "poll_shutdown e w = (b, w') \<Longrightarrow> S w w'"
begin

lemma S_handle_server_op: "handle_server_op e op h w = Some (out, h', w') \<Longrightarrow> S w w'"
  by (cases op)
    (auto simp: handle_message_def handle_multiplexed_def handle_soft_error_def Let_def
      intro: S_refl S_try_send S_oneshot split: if_splits prod.splits option.splits list.splits
        in_flight_command.splits bind_splits)

lemma S_rearm: "rearm e p w = Some (p', w') \<Longrightarrow> S w w'"
proof -
  assume "rearm e p w = Some (p', w')"
  then have "e = e \<longrightarrow> S w (snd (p', w'))"
  proof (rule rearm.raw_induct [where P = "\<lambda>e' p w r. e' = e \<longrightarrow> S w (snd r)", rotated], intro impI)
    fix rr e' p w r
    assume IH: "\<And>e' p w r. rr e' p w = Some r \<Longrightarrow> e' = e \<longrightarrow> S w (snd r)" and e: "e' = e"
      and body: "(case pinger_reset e' p w of (p, w) \<Rightarrow> case poll_sleep e' (interval p) w of (ready, w) \<Rightarrow>
          if ready then rr e' p w else Some (p, w)) = Some r"
    obtain p1 w1 where 1: "pinger_reset e p w = (p1, w1)" by fastforce
    obtain b w2 where 2: "poll_sleep e (interval p1) w1 = (b, w2)" by fastforce
    have "S w w2"
      using 1 2 by (auto simp: pinger_reset_def split: prod.splits intro: S_now S_sleep S_trans)
    moreover have "S w2 (snd r)" using body e 1 2 IH by (auto intro: S_refl split: if_splits)
    ultimately show "S w (snd r)" by (rule S_trans)
  qed
  then show ?thesis by simp
qed

lemma S_pinger_poll: "pinger_poll e send p c w = Some (r, p', c', w') \<Longrightarrow> S w w'"
  by (auto simp: pinger_poll_def do_ping_def intro: S_sleep S_trans [OF S_sleep S_rearm]
      split: prod.splits if_splits bind_splits)

lemma S_poll_can_proceed: "poll_can_proceed e d w = (b, d', w') \<Longrightarrow> S w w'"
  by (auto simp: poll_can_proceed_def Let_def intro: S_refl S_now S_sleep S_trans [OF S_now S_sleep]
      split: prod.splits if_splits option.splits)

lemma S_pinger_reset: "pinger_reset e p w = (p', w') \<Longrightarrow> S w w'"
  by (auto simp: pinger_reset_def intro: S_now split: prod.splits)

lemma S_write_step: "write_step e h w = Some (out, again, h', w') \<Longrightarrow> S w w'"
  by (auto simp: write_step_def Let_def intro: S_refl S_write S_poll_can_proceed S_trans [OF S_poll_can_proceed S_write]
      split: if_splits prod.splits bind_splits poll.splits sum.splits)

lemma S_poll_requests: "poll_requests e h w = Some (h', w') \<Longrightarrow> S w w'"
  by (auto simp: poll_requests_def begin_shutdown_def intro: S_refl S_shutdown S_trans [OF S_shutdown S_close]
      split: if_splits prod.splits bind_splits)

lemma S_poll_finish: "poll_finish e ro h w = Some (r, h', w') \<Longrightarrow> S w w'"
  by (auto simp: poll_finish_def Let_def intro: S_refl S_flush split: if_splits bind_splits poll.splits sum.splits)

lemma S_sleep_or_shutdown: "sleep_or_shutdown e dly w = Some (r, w') \<Longrightarrow> S w w'"
proof -
  assume "sleep_or_shutdown e dly w = Some (r, w')"
  then obtain t w1 d where t: "now e w = (t, w1)"
    and a: "await (\<lambda>d w. Some (fuse_shutdown_poll e (poll_sleep_future e) d w)) (t + dly) w1 = Some (r, d, w')"
    by (auto simp: sleep_or_shutdown_def split: prod.splits bind_splits)
  have step: "S w w4" if "S w w2" "Some (fuse_shutdown_poll e (poll_sleep_future e) c w2) = Some (q, c', w4)" for c w2 q c' w4
  proof -
    obtain b w3 where b: "poll_shutdown e w2 = (b, w3)" by fastforce
    obtain x w5 where x: "poll_sleep e c w3 = (x, w5)" by fastforce
    have "S w w3" by (rule S_trans [OF that(1) S_shutdown [OF b]])
    moreover from this have "S w w5" by (rule S_trans [OF _ S_sleep [OF x]])
    ultimately show ?thesis
      using that(2) b x by (auto simp: fuse_shutdown_poll_def poll_sleep_future_def split: if_splits)
  qed
  have "\<exists>c1 w2. S w w2 \<and> Some (fuse_shutdown_poll e (poll_sleep_future e) c1 w2) = Some (Ready r, d, w') \<and> S w w'"
    by (rule await_last_world [of "\<lambda>_ w2. S w w2", OF _ a S_now [OF t]]) (rule step)
  then show ?thesis by blast
qed

end

section \<open>Time between attempts to connect\<close>

text \<open>A sleep that ends without a shutdown took its delay, and the operations of the environment never
  turn the clock back.\<close>

lemma sleep_waits:
  assumes clk: "clock_ok e time" and sh: "\<And>w b w'. poll_shutdown e w = (b, w') \<Longrightarrow> time w \<le> time w'"
    and "sleep_or_shutdown e dly w = Some (Fuse_Output (), w')"
  shows "time w + dly \<le> time w'"
proof -
  obtain t w1 d where t: "now e w = (t, w1)"
    and a: "await (\<lambda>d w. Some (fuse_shutdown_poll e (poll_sleep_future e) d w)) (t + dly) w1 = Some (Fuse_Output (), d, w')"
    using assms(3) by (auto simp: sleep_or_shutdown_def split: prod.splits bind_splits)
  have keep: "c' = c" if "Some (fuse_shutdown_poll e (poll_sleep_future e) c w2) = Some (q, c', w4)" for c w2 q c' w4
    using that by (auto simp: fuse_shutdown_poll_def poll_sleep_future_def split: prod.splits if_splits poll.splits)
  from await_last [of "\<lambda>d. d = t + dly", OF _ a] keep obtain w2 where
    "Some (fuse_shutdown_poll e (poll_sleep_future e) (t + dly) w2) = Some (Ready (Fuse_Output ()), d, w')" by blast
  then obtain w3 where "poll_sleep e (t + dly) w3 = (True, w')"
    by (auto simp: fuse_shutdown_poll_def poll_sleep_future_def split: prod.splits if_splits poll.splits)
  with clk t have "t + dly \<le> time w'" "time w \<le> t" unfolding clock_ok_def by blast+
  then show ?thesis by simp
qed

lemma failed_rounds_wait:
  assumes "clock_ok e time" and "\<And>w b w'. poll_shutdown e w = (b, w') \<Longrightarrow> time w \<le> time w'"
    and "\<And>r w x w'. attempt r w = Some (x, w') \<Longrightarrow> time w \<le> time w'"
    and "failed_rounds e attempt dly k r w r' w'"
  shows "time w + (\<Sum>i<k. backoff dly i) \<le> time w'"
  using assms(4)
proof (induction k arbitrary: dly r w)
  case (Suc k)
  then obtain w1 err r1 w2 where s: "sleep_or_shutdown e dly w = Some (Fuse_Output (), w1)"
      "attempt r w1 = Some (Err (err, r1), w2)" "failed_rounds e attempt (next_delay dly) k r1 w2 r' w'"
    by auto
  have "time w + dly \<le> time w1" by (rule sleep_waits [OF assms(1,2) s(1)])
  moreover have "time w1 \<le> time w2" by (rule assms(3) [OF s(2)])
  moreover have "time w2 + (\<Sum>i<k. backoff dly (Suc i)) \<le> time w'"
    using Suc.IH [OF s(3)] by (simp add: backoff_Suc)
  moreover have "(\<Sum>i<Suc k. backoff dly i) = dly + (\<Sum>i<k. backoff dly (Suc i))"
    by (subst sum.lessThan_Suc_shift) simp
  ultimately show ?case by simp
qed simp

section \<open>Steps of the clients\<close>

text \<open>What the handles share: the atomic counter, the channel of the commands, and two records kept for
  the proof, the identifiers between \<open>fetch_add\<close> and \<open>send\<close>, and all those ever given out, each with the
  channel made for its messages.\<close>

record ('s, 'o) clients =
  cl :: client
  held :: "(subscription_id \<times> 's) list"
  given :: "(subscription_id \<times> 's) list"
  queue :: "('s, 'o) handler_command list"

text \<open>The commands other than \<open>Subscribe\<close> that a client sends.\<close>

fun command_of_client :: "client \<Rightarrow> ('s, 'o) handler_command \<Rightarrow> bool" where
  "command_of_client c (Cmd_Publish _) \<longleftrightarrow> True"
| "command_of_client c (Cmd_RequestMultiplexed _ reply _ _ _) \<longleftrightarrow>
     starts_with (subject_as_str reply) (subject_as_str (c_multiplexed_subscription_prefix c))"
| "command_of_client c (Cmd_UnsubscribeMultiplexed reply) \<longleftrightarrow>
     starts_with (subject_as_str reply) (subject_as_str (c_multiplexed_subscription_prefix c))"
| "command_of_client c (Cmd_Subscribe _ _ _ _) \<longleftrightarrow> False"
| "command_of_client c (Cmd_Unsubscribe _ n) \<longleftrightarrow> n \<noteq> Some 0"

inductive client_step :: "('s, 'o) clients \<Rightarrow> ('s, 'o) clients \<Rightarrow> bool" where
  allocate: "allocate_id (cl k) = Some (sid, c) \<Longrightarrow> s \<notin> snd ` set (given k) \<Longrightarrow>
    client_step k (k\<lparr>cl := c, held := held k @ [(sid, s)], given := given k @ [(sid, s)]\<rparr>)"
| send: "held k = xs @ (sid, s) # ys \<Longrightarrow>
    client_step k (k\<lparr>held := xs @ ys, queue := queue k @ [Cmd_Subscribe sid subject q s]\<rparr>)"
| command: "command_of_client (cl k) cmd \<Longrightarrow> client_step k (k\<lparr>queue := queue k @ [cmd]\<rparr>)"
| give_up: "client_step k
    (k\<lparr>cl := (cl k)\<lparr>c_quick_info := store_is_failed_unsubscribe True (c_quick_info (cl k))\<rparr>\<rparr>)"

abbreviation client_steps :: "('s, 'o) clients \<Rightarrow> ('s, 'o) clients \<Rightarrow> bool" where
  "client_steps \<equiv> client_step\<^sup>*\<^sup>*"

text \<open>The environment of the handler as the clients see it: its operations let clients take steps, and
  receiving takes commands from the front of the channel.\<close>

definition clients_only :: "(('w \<Rightarrow> ('s, 'o) clients)) \<Rightarrow> 'w \<Rightarrow> 'w \<Rightarrow> bool" where
  "clients_only view w w' \<longleftrightarrow> client_steps (view w) (view w')"

definition receives :: "('c, 's, 'o, 'w, 'z) env_scheme \<Rightarrow> ('w \<Rightarrow> ('s, 'o) clients) \<Rightarrow> bool" where
  "receives e view \<longleftrightarrow>
     (\<forall>n w w'. poll_recv_many e n w = (Pending, w') \<longrightarrow> clients_only view w w') \<and>
     (\<forall>n w cmds w'. poll_recv_many e n w = (Ready cmds, w') \<longrightarrow>
        (\<exists>k rest. client_steps (view w) k \<and> queue k = cmds @ rest \<and> client_steps (k\<lparr>queue := rest\<rparr>) (view w')))"

definition shared_with :: "('c, 's, 'o, 'w, 'z) env_scheme \<Rightarrow> ('w \<Rightarrow> ('s, 'o) clients) \<Rightarrow> bool" where
  "shared_with e view \<longleftrightarrow> world_rely e (clients_only view) \<and> receives e view"

section \<open>The identifiers\<close>

fun announced :: "('s, 'o) handler_command \<Rightarrow> (subscription_id \<times> 's) list" where
  "announced (Cmd_Subscribe sid _ _ s) = [(sid, s)]"
| "announced _ = []"

definition entries :: "(subscription_id, 's subscription) btree_map \<Rightarrow> (subscription_id \<times> 's) set" where
  "entries m = (\<lambda>(sid, sub). (sid, messages sub)) ` set m"

definition table :: "('c, 's, 'o) handler \<Rightarrow> (subscription_id \<times> 's) set" where
  "table h = entries (subscriptions h)"

definition outstanding :: "('s, 'o) handler_command list \<Rightarrow> ('s, 'o) clients \<Rightarrow> (subscription_id \<times> 's) list" where
  "outstanding cmds k = held k @ concat (map announced cmds)"

definition given_inv :: "('s, 'o) clients \<Rightarrow> bool" where
  "given_inv k \<longleftrightarrow> distinct (map fst (given k)) \<and> distinct (map snd (given k)) \<and>
     MULTIPLEXED_SUBSCRIPTION_ID < next_subscription_id (cl k) \<and>
     (\<forall>p\<in>set (given k). MULTIPLEXED_SUBSCRIPTION_ID < fst p \<and> fst p < next_subscription_id (cl k))"

definition ids_inv :: "('c, 's, 'o) handler \<Rightarrow> ('s, 'o) handler_command list \<Rightarrow> ('s, 'o) clients \<Rightarrow> bool" where
  "ids_inv h cmds k \<longleftrightarrow> handler_inv h \<and> given_inv k \<and>
     multiplexed_subscription_prefix h = c_multiplexed_subscription_prefix (cl k) \<and>
     distinct (map fst (outstanding cmds k)) \<and>
     fst ` set (outstanding cmds k) \<inter> fst ` table h = {} \<and>
     set (outstanding cmds k) \<union> table h \<subseteq> set (given k) \<and>
     (\<forall>cmd\<in>set cmds. announced cmd = [] \<longrightarrow> command_of_client (cl k) cmd)"

abbreviation system_inv :: "('c, 's, 'o) handler \<Rightarrow> ('s, 'o) clients \<Rightarrow> bool" where
  "system_inv h k \<equiv> ids_inv h (queue k) k"

lemma announced_Nil: "announced cmd = [] \<longleftrightarrow> (\<forall>sid subject q s. cmd \<noteq> Cmd_Subscribe sid subject q s)"
  by (cases cmd) simp_all

lemma command_of_client_announced: "command_of_client c cmd \<Longrightarrow> announced cmd = []"
  by (cases cmd) simp_all

lemma command_of_client_quick_info [simp]:
  "command_of_client (c\<lparr>c_quick_info := q\<rparr>) cmd = command_of_client c cmd"
  "command_of_client (c\<lparr>next_subscription_id := n\<rparr>) cmd = command_of_client c cmd"
  by (cases cmd; simp)+

lemma allocate_id_Some:
  "allocate_id c = Some (sid, c') \<longleftrightarrow> sid = next_subscription_id c \<and> sid \<noteq> - 1 \<and> c' = c\<lparr>next_subscription_id := sid + 1\<rparr>"
  by (auto simp: allocate_id_def subscription_id_max_def Let_def)

lemma word_less_Suc: "x \<noteq> - 1 \<Longrightarrow> x < x + 1" for x :: u64
proof -
  assume "x \<noteq> - 1"
  then have "x + 1 \<noteq> 0" by (simp add: add_eq_0_iff2)
  then have "unat (x + 1) \<noteq> 0" by (simp add: unat_eq_zero)
  moreover have "unat (x + 1) = (unat x + 1) mod 2 ^ 64" by (simp add: unat_word_ariths)
  moreover have "unat x < 2 ^ 64" using unsigned_less [of x] by simp
  ultimately have "unat x + 1 < 2 ^ 64" by (cases "unat x + 1 = 2 ^ 64") simp_all
  then show ?thesis by (simp add: word_less_nat_alt unat_word_ariths)
qed

lemma client_step_inv:
  assumes "client_step k k'" and "system_inv h k"
  shows "system_inv h k'"
  using assms
proof cases
  case (allocate sid c s)
  then have sid: "sid = next_subscription_id (cl k)" "c = (cl k)\<lparr>next_subscription_id := sid + 1\<rparr>" "sid < sid + 1"
    by (auto simp: allocate_id_Some word_less_Suc)
  have "\<forall>p\<in>set (given k). MULTIPLEXED_SUBSCRIPTION_ID < fst p \<and> fst p < sid" "MULTIPLEXED_SUBSCRIPTION_ID < sid"
    using assms(2) sid(1) by (auto simp: ids_inv_def given_inv_def)
  with sid(3) have g: "\<forall>p\<in>set (given k). MULTIPLEXED_SUBSCRIPTION_ID < fst p \<and> fst p < sid + 1"
      "MULTIPLEXED_SUBSCRIPTION_ID < sid + 1" "sid \<notin> fst ` set (given k)"
    using less_trans by (blast, blast, force)
  with assms(2) have "sid \<notin> fst ` set (outstanding (queue k) k)" "sid \<notin> fst ` table h"
    by (auto simp: ids_inv_def image_iff)
  with assms(2) allocate sid g show ?thesis
    by (auto simp: ids_inv_def given_inv_def outstanding_def image_iff)
qed (use assms(2) in \<open>auto simp: ids_inv_def given_inv_def outstanding_def command_of_client_announced\<close>)

lemma client_steps_inv: "client_steps k k' \<Longrightarrow> system_inv h k \<Longrightarrow> system_inv h k'"
  by (induction rule: rtranclp_induct) (auto intro: client_step_inv)

section \<open>Steps of the handler\<close>

definition shrinks :: "('c, 's, 'o) handler \<Rightarrow> ('c, 's, 'o) handler \<Rightarrow> bool" where
  "shrinks h h' \<longleftrightarrow> table h' \<subseteq> table h \<and> multiplexed_subscription_prefix h' = multiplexed_subscription_prefix h"

lemma shrinks_same:
  "subscriptions h' = subscriptions h \<Longrightarrow>
     multiplexed_subscription_prefix h' = multiplexed_subscription_prefix h \<Longrightarrow> shrinks h h'"
  by (simp add: shrinks_def table_def)

lemma shrinks_trans: "shrinks h h' \<Longrightarrow> shrinks h' h'' \<Longrightarrow> shrinks h h''"
  by (auto simp: shrinks_def)

lemma ids_inv_shrinks:
  assumes inv: "ids_inv h cmds k" and sub: "shrinks h h'" and h': "handler_inv h'"
  shows "ids_inv h' cmds k"
proof -
  have "table h' \<subseteq> table h" "multiplexed_subscription_prefix h' = multiplexed_subscription_prefix h"
    using sub by (simp_all add: shrinks_def)
  with inv h' show ?thesis unfolding ids_inv_def by (simp add: disjoint_iff) blast
qed

lemma entries_remove: "entries (bt_remove sub_key sid m) \<subseteq> entries m"
  unfolding entries_def by (intro image_mono set_bt_remove)

lemma entries_insert: "entries (bt_insert sub_key sid sub m) \<subseteq> insert (sid, messages sub) (entries m)"
  by (auto simp: entries_def dest: bt_insert_sub_key)

lemma entries_get: "bt_get sub_key sid m = Some sub \<Longrightarrow> (sid, messages sub) \<in> entries m"
  by (force simp: entries_def dest: bt_get_sub_key)

lemma entries_update:
  assumes "bt_get sub_key sid m = Some sub"
  shows "messages sub' = messages sub \<Longrightarrow> entries (bt_insert sub_key sid sub' m) \<subseteq> entries m"
    and "messages sub' = messages sub \<Longrightarrow> entries (bt_insert sub_key sid sub' (bt_remove sub_key sid m)) \<subseteq> entries m"
  using entries_insert [of sid sub' m] entries_insert [of sid sub' "bt_remove sub_key sid m"]
    entries_remove [of sid m] entries_get [OF assms] by auto

lemma h_enqueue_shrinks: "h_enqueue e op h = Some h' \<Longrightarrow> shrinks h h'"
  by (auto simp: h_enqueue_def intro: shrinks_same)

lemma handle_server_op_shrinks:
  assumes "handle_server_op e op h w = Some (out, h', w')"
  shows "shrinks h h'"
proof (cases op)
  case (S_Message m)
  with assms show ?thesis
    by (auto simp: handle_message_def handle_multiplexed_def Let_def h_enqueue_def shrinks_def table_def
        dest: entries_remove [THEN subsetD] dest!: entries_update(1) [THEN subsetD, rotated 2]
        split: if_splits option.splits prod.splits bind_splits)
next
  case (S_Error err)
  with assms show ?thesis
    by (auto simp: handle_soft_error_def Let_def shrinks_def table_def
        dest: entries_remove [THEN subsetD] dest!: entries_update(2) [THEN subsetD, rotated 2]
        split: if_splits option.splits prod.splits list.splits in_flight_command.splits)
qed (use assms in \<open>auto simp: h_enqueue_def intro: shrinks_same split: list.splits bind_splits\<close>)

lemma remove_closed_shrinks: "remove_closed e ids h = Some h' \<Longrightarrow> shrinks h h'"
proof (induction ids arbitrary: h)
  case (Cons p ids)
  obtain sid reason where p: "p = (sid, reason)" by (cases p)
  obtain h1 where h1: "(if reason = Dropped
      then h_enqueue e (C_Unsubscribe sid None) (push_in_flight Unimportant h) else Some h) = Some h1"
      "remove_closed e ids (h1\<lparr>subscriptions := bt_remove sub_key sid (subscriptions h1)\<rparr>) = Some h'"
    using Cons.prems unfolding p remove_closed.simps by (rule bind_SomeE)
  from h1(1) have "shrinks h h1" by (auto simp: h_enqueue_def intro: shrinks_same split: if_splits)
  moreover have "shrinks h1 (h1\<lparr>subscriptions := bt_remove sub_key sid (subscriptions h1)\<rparr>)"
    using entries_remove by (simp add: shrinks_def table_def)
  ultimately show ?case using Cons.IH [OF h1(2)] shrinks_trans by blast
qed (auto intro: shrinks_same)

lemma poll_requests_shrinks: "poll_requests e h w = Some (h', w') \<Longrightarrow> shrinks h h'"
  by (auto simp: poll_requests_def failed_unsubscribe_def begin_shutdown_def Let_def shrinks_def table_def
      dest!: remove_closed_shrinks split: if_splits prod.splits bind_splits elim!: subsetD)

lemma write_step_shrinks: "write_step e h w = Some (out, again, h', w') \<Longrightarrow> shrinks h h'"
  by (auto simp: write_step_def Let_def intro!: shrinks_same split: if_splits prod.splits bind_splits poll.splits sum.splits)

lemma poll_finish_shrinks: "poll_finish e ro h w = Some (r, h', w') \<Longrightarrow> shrinks h h'"
  by (auto simp: poll_finish_def Let_def intro!: shrinks_same split: if_splits bind_splits poll.splits sum.splits)

lemma handle_command_shrinks:
  assumes "handle_command e dbg cmd h = Some h'" and "announced cmd = []"
  shows "shrinks h h'"
proof (cases cmd)
  case (Cmd_Unsubscribe sid n)
  with assms show ?thesis
    by (cases n) (auto simp: h_enqueue_def shrinks_def table_def dest: entries_remove [THEN subsetD]
        dest!: entries_update(1) [THEN subsetD, rotated 2] split: option.splits)
qed (use assms in \<open>auto simp: h_enqueue_def init_multiplexed_subscriptions_def push_in_flight_def Let_def
      intro!: shrinks_same split: bind_splits option.splits\<close>)

lemma command_of_client_ok: "command_of_client c cmd \<Longrightarrow> command_ok cmd"
  by (cases cmd) simp_all

lemma handle_subscribe_ids:
  assumes "ids_inv h (Cmd_Subscribe sid subject q s # cmds) k"
    and h': "handle_command e dbg (Cmd_Subscribe sid subject q s) h = Some h'"
  shows "ids_inv h' cmds k"
proof -
  let ?o = "held k @ (sid, s) # concat (map announced cmds)"
  have inv: "handler_inv h" "distinct (map fst ?o)" "fst ` set ?o \<inter> fst ` table h = {}"
      "set ?o \<union> table h \<subseteq> set (given k)" "given_inv k"
    using assms(1) by (simp_all add: ids_inv_def outstanding_def)
  have "sid \<noteq> MULTIPLEXED_SUBSCRIPTION_ID" using inv(4,5) by (fastforce simp: given_inv_def)
  with inv(1) have "handler_inv h'" by (intro handle_command_inv [OF _ _ h']) simp_all
  moreover have t: "table h' \<subseteq> insert (sid, s) (table h)" and p: "multiplexed_subscription_prefix h' = multiplexed_subscription_prefix h"
    using h' by (auto simp: table_def h_enqueue_def dest!: entries_insert [THEN subsetD])
  moreover have "sid \<notin> fst ` set (outstanding cmds k)" "fst ` set (outstanding cmds k) \<inter> fst ` table h = {}"
    using inv(2,3) by (auto simp: outstanding_def)
  then have "fst ` set (outstanding cmds k) \<inter> fst ` table h' = {}" using image_mono [OF t, of fst] by (simp only: image_insert fst_conv) blast
  ultimately show ?thesis
    using assms(1) inv(2,4) t by (auto simp: ids_inv_def outstanding_def)
qed

lemma handle_command_ids:
  assumes "ids_inv h (cmd # cmds) k" and "handle_command e dbg cmd h = Some h'"
  shows "ids_inv h' cmds k"
proof (cases "announced cmd = []")
  case True
  with assms(1) have i: "ids_inv h cmds k" "handler_inv h" "command_of_client (cl k) cmd"
    by (auto simp: ids_inv_def outstanding_def)
  then show ?thesis
    using ids_inv_shrinks [OF i(1) handle_command_shrinks [OF assms(2) True]]
      handle_command_inv [OF i(2) command_of_client_ok assms(2)] by blast
next
  case False
  then obtain sid subject q s where "cmd = Cmd_Subscribe sid subject q s" by (cases cmd) simp_all
  with assms show ?thesis by (metis handle_subscribe_ids)
qed

lemma ids_inv_recv_buf [simp]: "ids_inv (h\<lparr>recv_buf := b\<rparr>) cmds k = ids_inv h cmds k"
  by (simp add: ids_inv_def handler_inv_def table_def)

lemma handle_commands_ids:
  "ids_inv h (cmds @ rest) k \<Longrightarrow> handle_commands e dbg cmds h = Some h' \<Longrightarrow> ids_inv h' rest k"
proof (induction cmds arbitrary: h)
  case (Cons cmd cmds)
  obtain h1 where h1: "handle_command e dbg cmd (h\<lparr>recv_buf := cmds\<rparr>) = Some h1"
      "handle_commands e dbg cmds h1 = Some h'"
    using Cons.prems(2) unfolding handle_commands.simps by (rule bind_SomeE)
  with Cons.prems(1) have "ids_inv h1 (cmds @ rest) k"
    by (intro handle_command_ids [OF _ h1(1)]) simp
  with Cons.IH h1(2) show ?case by blast
qed simp

lemma ids_inv_queue [simp]: "ids_inv h cmds (k\<lparr>queue := q\<rparr>) = ids_inv h cmds k"
  by (simp add: ids_inv_def outstanding_def given_inv_def)

section \<open>A poll while the clients go on\<close>

text \<open>One relation for the whole poll: the invariant is kept, whatever the clients do meanwhile.\<close>

definition keeps_ids ::
    "('c, 's, 'o, 'w, 'z) env_scheme \<Rightarrow> ('w \<Rightarrow> ('s, 'o) clients) \<Rightarrow> ('c, 's, 'o) handler \<Rightarrow> 'w \<Rightarrow>
     ('c, 's, 'o) handler \<Rightarrow> 'w \<Rightarrow> bool" where
  "keeps_ids e view h w h' w' \<longleftrightarrow>
     (shared_with e view \<longrightarrow> system_inv h (view w) \<longrightarrow> system_inv h' (view w'))"

lemma keeps_ids_shrinks:
  assumes "shared_with e view \<Longrightarrow> clients_only view w w'" and "shrinks h h'"
    and "handler_inv h \<Longrightarrow> handler_inv h'"
  shows "keeps_ids e view h w h' w'"
  unfolding keeps_ids_def
proof (intro impI)
  assume sh: "shared_with e view" and inv: "system_inv h (view w)"
  have "client_steps (view w) (view w')" using assms(1) [OF sh] by (simp add: clients_only_def)
  then have "system_inv h (view w')" using inv by (rule client_steps_inv)
  moreover from this have "handler_inv h'" using assms(3) by (simp add: ids_inv_def)
  ultimately show "system_inv h' (view w')" using ids_inv_shrinks assms(2) by blast
qed

lemma shared_with_rely: "shared_with e view \<Longrightarrow> world_rely e (clients_only view)"
  by (simp add: shared_with_def)

lemmas client_rely =
  world_rely.S_read [OF shared_with_rely] world_rely.S_room [OF shared_with_rely]
  world_rely.S_handle_server_op [OF shared_with_rely] world_rely.S_pinger_poll [OF shared_with_rely]
  world_rely.S_pinger_reset [OF shared_with_rely] world_rely.S_write_step [OF shared_with_rely]
  world_rely.S_poll_requests [OF shared_with_rely] world_rely.S_poll_finish [OF shared_with_rely]

lemma keeps_ids_receive:
  assumes r: "poll_recv_many e n w = (Ready cmds, w')"
    and c: "handle_commands e dbg cmds (h\<lparr>recv_buf := recv_buf h @ cmds\<rparr>) = Some h'"
  shows "keeps_ids e view h w h' w'"
  unfolding keeps_ids_def
proof (intro impI)
  assume sh: "shared_with e view" and inv: "system_inv h (view w)"
  obtain k rest where k: "client_steps (view w) k" "queue k = cmds @ rest" "client_steps (k\<lparr>queue := rest\<rparr>) (view w')"
    using sh r unfolding shared_with_def receives_def by blast
  have "ids_inv (h\<lparr>recv_buf := recv_buf h @ cmds\<rparr>) (cmds @ rest) k"
    using client_steps_inv [OF k(1) inv] k(2) by simp
  from handle_commands_ids [OF this c] have "system_inv h' (k\<lparr>queue := rest\<rparr>)" by simp
  with k(3) show "system_inv h' (view w')" by (blast intro: client_steps_inv)
qed

lemma keeps_ids_read:
  assumes r: "poll_read_next e (conn h) w = Some (Ready (Inr op), c, w1)"
    and o: "handle_server_op e op (h\<lparr>conn := c\<rparr>) w1 = Some (out, h', w')"
  shows "keeps_ids e view h w h' w'"
proof (rule keeps_ids_shrinks)
  show "clients_only view w w'" if "shared_with e view"
  proof -
    note rely = shared_with_rely [OF that]
    show ?thesis
      by (rule world_rely.S_trans [OF rely world_rely.S_read [OF rely r] world_rely.S_handle_server_op [OF rely o]])
  qed
  have "shrinks h (h\<lparr>conn := c\<rparr>)" by (rule shrinks_same) simp_all
  then show "shrinks h h'" using handle_server_op_shrinks [OF o] by (rule shrinks_trans)
  show "handler_inv h'" if "handler_inv h"
    by (rule handle_server_op_inv [OF _ o]) (use that in \<open>simp add: handler_inv_def\<close>)
qed

interpretation system: handler_step e dbg "keeps_ids e view"
  for e :: "('c, 's, 'o, 'w, 'z) env_scheme" and dbg and view :: "'w \<Rightarrow> ('s, 'o) clients"
proof
  fix h h' h'' :: "('c, 's, 'o) handler" and w w' w'' w1 op c out n cmds
  show "keeps_ids e view h w h w" by (simp add: keeps_ids_def)
  show "keeps_ids e view h w h' w' \<Longrightarrow> keeps_ids e view h' w' h'' w'' \<Longrightarrow> keeps_ids e view h w h'' w''"
    by (simp add: keeps_ids_def)
  show "poll_read_next e (conn h) w = Some (Ready (Inr op), c, w1) \<Longrightarrow>
      handle_server_op e op (h\<lparr>conn := c\<rparr>) w1 = Some (out, h', w') \<Longrightarrow> keeps_ids e view h w h' w'"
    by (rule keeps_ids_read)
  show "poll_read_next e (conn h) w = Some (r, c, w1) \<Longrightarrow> (\<And>op. r \<noteq> Ready (Inr op)) \<Longrightarrow>
      keeps_ids e view h w (h\<lparr>conn := c\<rparr>) w1" for r
    by (intro keeps_ids_shrinks) (auto intro: client_rely shrinks_same simp: handler_inv_def)
  show "may_enqueue_more_ops e (conn h) w = Some (room, c, w1) \<Longrightarrow> keeps_ids e view h w (h\<lparr>conn := c\<rparr>) w1" for room
    by (intro keeps_ids_shrinks) (auto intro: client_rely shrinks_same simp: handler_inv_def)
  show "poll_recv_many e n w = (Pending, w') \<Longrightarrow> keeps_ids e view h w h w'"
    by (intro keeps_ids_shrinks) (auto simp: shared_with_def receives_def intro: shrinks_same)
  show "poll_recv_many e n w = (Ready cmds, w') \<Longrightarrow>
      handle_commands e dbg cmds (h\<lparr>recv_buf := recv_buf h @ cmds\<rparr>) = Some h' \<Longrightarrow> keeps_ids e view h w h' w'"
    by (rule keeps_ids_receive)
  show "keeps_ids e view h w (h\<lparr>shutting_down := True\<rparr>) w" "keeps_ids e view h w (h\<lparr>writing := True\<rparr>) w"
    by (intro keeps_ids_shrinks; auto simp: clients_only_def handler_inv_def intro: shrinks_same)+
  show "write_step e h w = Some (out, again, h', w') \<Longrightarrow> keeps_ids e view h w h' w'" for again out
    using write_step_shrinks write_step_inv
    by (intro keeps_ids_shrinks) (blast intro: client_rely)+
  show "poll_requests e h w = Some (h', w') \<Longrightarrow> keeps_ids e view h w h' w'"
    using poll_requests_shrinks poll_requests_inv
    by (intro keeps_ids_shrinks) (blast intro: client_rely)+
  show "poll_finish e ro h w = Some (r', h', w') \<Longrightarrow> keeps_ids e view h w h' w'" for ro r'
    using poll_finish_shrinks poll_finish_inv
    by (intro keeps_ids_shrinks) (blast intro: client_rely)+
  show "pinger_poll e (env.enqueue_write_op e C_Ping) (h_pinger h) (conn h) w = Some (po, p, c, w') \<Longrightarrow>
      keeps_ids e view h w (h\<lparr>h_pinger := p, conn := c\<rparr>) w'" for po p
    using pinger_poll_inv
    by (intro keeps_ids_shrinks)
      (auto intro: client_rely shrinks_same simp: handler_inv_def)
  show "pinger_reset e (h_pinger h) w = (p, w') \<Longrightarrow> keeps_ids e view h w (h\<lparr>h_pinger := p\<rparr>) w'" for p
    using pinger_other_inv(2) [of "h_pinger h" e w]
    by (intro keeps_ids_shrinks)
      (auto intro: client_rely shrinks_same simp: handler_inv_def)
qed

lemma system_inv_ids:
  assumes "system_inv h k"
  shows "distinct (map fst (held k) @ map fst (concat (map announced (queue k))) @ map fst (subscriptions h))"
    and "sid \<in> set (map fst (held k) @ map fst (concat (map announced (queue k))) @ map fst (subscriptions h)) \<Longrightarrow>
      MULTIPLEXED_SUBSCRIPTION_ID < sid \<and> sid < next_subscription_id (cl k)"
proof -
  let ?o = "outstanding (queue k) k"
  have keys: "fst ` table h = set (map fst (subscriptions h))"
    by (force simp: table_def entries_def)
  have "distinct (map fst (subscriptions h))"
    using assms by (simp add: ids_inv_def handler_inv_def subscriptions_inv_def bt_wf_def sub_key_def
        strict_sorted_iff comp_def)
  moreover have o: "map fst (held k) @ map fst (concat (map announced (queue k))) = map fst ?o"
    by (simp add: outstanding_def)
  moreover have "set (map fst ?o) \<inter> set (map fst (subscriptions h)) = {}" "distinct (map fst ?o)"
    using assms unfolding keys [symmetric] by (simp_all add: ids_inv_def)
  ultimately show "distinct (map fst (held k) @ map fst (concat (map announced (queue k))) @ map fst (subscriptions h))"
    unfolding append_assoc [symmetric] o distinct_append by blast
  show "MULTIPLEXED_SUBSCRIPTION_ID < sid \<and> sid < next_subscription_id (cl k)"
    if "sid \<in> set (map fst (held k) @ map fst (concat (map announced (queue k))) @ map fst (subscriptions h))"
  proof -
    from that have "sid \<in> fst ` set ?o \<union> fst ` table h" unfolding keys append_assoc [symmetric] o by simp
    with assms have "sid \<in> fst ` set (given k)" unfolding ids_inv_def by blast
    with assms show ?thesis by (auto simp: ids_inv_def given_inv_def)
  qed
qed

section \<open>Starting and connecting again\<close>

lemma handler_connect_inv:
  assumes "handler_connect e z dly (Connected c info) r w = Some (Ok (Some h), w')" and "subscriptions_inv (r_subscriptions r)"
  shows "handler_inv h \<and> subscriptions h = r_subscriptions r \<and>
    multiplexed_subscription_prefix h = r_multiplexed_subscription_prefix r"
  using assms by (auto simp: handler_connect_def handler_inv_def pinger_inv_def pinger_new_def Let_def
      split: prod.splits bind_splits)

lemma handler_connect_run_Ok:
  assumes "handler_connect_run e builder race dialled r w = Some (Ok (Some h), w')" and "subscriptions_inv (r_subscriptions r)"
  shows "handler_inv h \<and> subscriptions h = r_subscriptions r \<and>
    multiplexed_subscription_prefix h = r_multiplexed_subscription_prefix r"
proof -
  obtain outcome w1 where "connect_race race dialled w = Some (outcome, w1)"
    and o: "handler_connect e connection_is_zstd (b_write_delay builder) outcome r w1 = Some (Ok (Some h), w')"
    using assms(1) by (auto simp: handler_connect_run_def intro: that split: bind_splits)
  from o obtain c info where outcome: "outcome = Connected c info"
    by (cases outcome) (auto simp: handler_connect_def)
  show ?thesis by (rule handler_connect_inv [OF o [unfolded outcome] assms(2)])
qed

lemma handler_connect_run_Err:
  "handler_connect_run e builder race dialled r w = Some (Err (err, r'), w') \<Longrightarrow> r' = r"
  by (auto simp: handler_connect_run_def handler_connect_def Let_def
      split: connect_outcome.splits prod.splits bind_splits)

lemma failed_rounds_keep:
  "failed_rounds e (handler_connect_run e' builder race dialled) dly k r w r' w' \<Longrightarrow> r' = r"
  by (induction k arbitrary: dly r w) (auto dest: handler_connect_run_Err)

lemma failed_rounds_world:
  assumes "world_rely e S" and "\<And>r w x w'. attempt r w = Some (x, w') \<Longrightarrow> S w w'"
    and "failed_rounds e attempt dly k r w r' w'"
  shows "S w w'"
  using assms(3)
proof (induction k arbitrary: dly r w)
  case 0
  then show ?case by (simp add: world_rely.S_refl [OF assms(1)])
next
  case (Suc k)
  then obtain w1 err r1 w2 where s: "sleep_or_shutdown e dly w = Some (Fuse_Output (), w1)"
      "attempt r w1 = Some (Err (err, r1), w2)" "failed_rounds e attempt (next_delay dly) k r1 w2 r' w'"
    by auto
  note trans = world_rely.S_trans [OF assms(1)]
  show ?case
    by (rule trans [OF world_rely.S_sleep_or_shutdown [OF assms(1) s(1)] trans [OF assms(2) [OF s(2)] Suc.IH [OF s(3)]]])
qed

lemma table_recycle:
  "system_inv h k \<Longrightarrow> handler_inv h' \<Longrightarrow> subscriptions h' = subscriptions h \<Longrightarrow>
     multiplexed_subscription_prefix h' = multiplexed_subscription_prefix h \<Longrightarrow> system_inv h' k"
  for h h' :: "('c, 's, 'o) handler"
  by (erule ids_inv_shrinks) (auto intro: shrinks_same)

lemma reconnect_system:
  fixes e :: "((('a, 'x) connection_compression, 'l, 'i) connection, 's, 'o, 'w, 'z) env_scheme"
    and h h' :: "((('a, 'x) connection_compression, 'l, 'i) connection, 's, 'o) handler"
  assumes sh: "shared_with e view" and inv: "system_inv h (view w)"
    and attempt: "attempt = handler_connect_run e builder race dialled"
    and w: "\<And>r w x w'. attempt r w = Some (x, w') \<Longrightarrow> clients_only view w w'"
    and r: "reconnect e attempt dly (handler_recycle h) w = Some (Some h', w')"
  shows "system_inv h' (view w') \<and> subscriptions h' = subscriptions h"
proof -
  note rely = shared_with_rely [OF sh]
  obtain k r1 w1 where f: "failed_rounds e attempt dly k (handler_recycle h) w r1 w1"
    and l: "last_round e attempt (backoff dly k) r1 w1 (Some h') w'"
    using reconnect_rounds [OF r] by blast
  have r1: "r1 = handler_recycle h" using f unfolding attempt by (rule failed_rounds_keep)
  from l obtain w2 where s: "sleep_or_shutdown e (backoff dly k) w1 = Some (Fuse_Output (), w2)"
    and a: "attempt (handler_recycle h) w2 = Some (Ok (Some h'), w')"
    by (auto simp: last_round_def r1)
  note trans = world_rely.S_trans [OF rely]
  have "clients_only view w w'"
    by (rule trans [OF failed_rounds_world [OF rely w f] trans [OF world_rely.S_sleep_or_shutdown [OF rely s] w [OF a]]])
  then have inv': "system_inv h (view w')" using client_steps_inv inv by (auto simp: clients_only_def)
  have "subscriptions_inv (r_subscriptions (handler_recycle h))"
    using inv by (simp add: ids_inv_def handler_inv_def handler_recycle_def)
  from handler_connect_run_Ok [OF a [unfolded attempt] this] have
    "handler_inv h'" "subscriptions h' = subscriptions h" "multiplexed_subscription_prefix h' = multiplexed_subscription_prefix h"
    by (simp_all add: handler_recycle_def)
  with table_recycle [OF inv'] show ?thesis by simp
qed

definition clients_start :: "client \<Rightarrow> ('s, 'o) clients" where
  "clients_start c = \<lparr> cl = c, held = [], given = [], queue = [] \<rparr>"

lemma client_connect_system:
  assumes "client_connect ops dbg builder (handler_connect_run e builder race dialled) w = Some (Ok (c, h), w')"
  shows "system_inv h (clients_start c)"
proof -
  obtain prefix w1 w2 where c: "handler_connect_run e builder race dialled (recycled_new raw_quick_info_new prefix) w1 =
      Some (Ok (Some h), w2)" "c = client_inner_new builder (h_info h) (h_quick_info h) (multiplexed_subscription_prefix h)"
    using assms by (auto simp: client_connect_def recycled_handler_new_def split: bind_splits sum.splits option.splits)
  have "handler_inv h \<and> subscriptions h = []"
    using handler_connect_run_Ok [OF c(1)] by (simp add: recycled_new_def subscriptions_inv_def)
  with c(2) show ?thesis
    by (simp add: ids_inv_def given_inv_def outstanding_def table_def entries_def clients_start_def client_inner_new_def
        MULTIPLEXED_SUBSCRIPTION_ID_def subscription_id_min_def word_less_nat_alt)
qed

section \<open>An example\<close>

text \<open>A client that has subscribed once; the command waits in the channel, of which a poll takes all. The
  connection is the list of the operations enqueued.\<close>

definition one_client :: client where
  "one_client = client_inner_new (client_builder_new :: unit client_builder) None raw_quick_info_new (Subject ''_INBOX.1'')"

definition one_waiting :: "(nat, unit) clients" where
  "one_waiting = \<lparr> cl = one_client\<lparr>next_subscription_id := 3\<rparr>, held = [], given = [(2, 0)],
     queue = [Cmd_Subscribe 2 (Subject ''a'') None 0] \<rparr>"

definition list_env :: "(client_op list, nat, unit, (nat, unit) clients) env" where
  "list_env = \<lparr> now = (\<lambda>w. (0, w)), poll_sleep = (\<lambda>d w. (False, w)),
     enqueue_write_op = (\<lambda>op c. Some (c @ [op])), may_enqueue_more_ops = (\<lambda>c w. Some (True, c, w)),
     poll_read_next = (\<lambda>c w. Some (Pending, c, w)), is_streaming = (\<lambda>c. False), may_write = (\<lambda>c. None),
     poll_write_next = (\<lambda>c w. None), should_flush = (\<lambda>c. False), poll_flush = (\<lambda>c w. None),
     try_send = (\<lambda>s m w. (Sent, w)), is_closed = (\<lambda>s w. False), oneshot_send = (\<lambda>q m w. w),
     oneshot_is_closed = (\<lambda>q w. False),
     poll_recv_many = (\<lambda>n w. if queue w = [] then (Pending, w)
       else (Ready (take n (queue w)), w\<lparr>queue := drop n (queue w)\<rparr>)),
     close_commands = (\<lambda>w. w), poll_shutdown = (\<lambda>w. (False, w)), has_budget_remaining = (\<lambda>w. True) \<rparr>"

definition empty_handler :: "(client_op list, nat, unit) handler" where
  "empty_handler = \<lparr> conn = [], h_info = None, h_quick_info = raw_quick_info_new, delayed_write = None,
     writing = False, flushing = False, shutting_down = False, h_pinger = \<lparr> interval = 0, pending_pings = 0 \<rparr>,
     recv_buf = [], in_flight_commands = [], multiplexed_subscription_prefix = Subject ''_INBOX.1'',
     multiplexed_subscriptions = None, subscriptions = [] \<rparr>"

lemma list_env_shared: "shared_with list_env (\<lambda>w. w)"
proof -
  have "\<exists>k rest. client_steps w k \<and> queue k = take n (queue w) @ rest \<and>
      client_steps (k\<lparr>queue := rest\<rparr>) (w\<lparr>queue := drop n (queue w)\<rparr>)" for n and w :: "(nat, unit) clients"
    by (rule exI [of _ w], rule exI [of _ "drop n (queue w)"]) simp
  moreover have "world_rely list_env (clients_only (\<lambda>w. w))"
    by unfold_locales (auto simp: clients_only_def list_env_def)
  ultimately show ?thesis
    by (auto simp: shared_with_def receives_def clients_only_def list_env_def split: if_splits)
qed

lemma one_waiting_inv: "system_inv empty_handler one_waiting"
  by (simp add: ids_inv_def handler_inv_def subscriptions_inv_def pinger_inv_def given_inv_def outstanding_def
      one_waiting_def empty_handler_def one_client_def client_inner_new_def table_def entries_def
      MULTIPLEXED_SUBSCRIPTION_ID_def subscription_id_min_def)

definition subscribed_handler :: "(client_op list, nat, unit) handler" where
  "subscribed_handler = empty_handler\<lparr>conn := [C_Subscribe 2 (Subject ''a'') None],
     in_flight_commands := [In_Subscribe 2],
     subscriptions := [(2, \<lparr> sub_subject = Subject ''a'', sub_queue_group = None, messages = 0, remaining = None,
       failed_subscribe = False \<rparr>)]\<rparr>"

lemma list_env_sel [simp]:
  "poll_sleep list_env d w = (False, w)" "poll_shutdown list_env w = (False, w)"
  "may_enqueue_more_ops list_env c w = Some (True, c, w)" "env.enqueue_write_op list_env op c = Some (c @ [op])"
  "poll_read_next list_env c w = Some (Pending, c, w)" "is_streaming list_env c = False" "should_flush list_env c = False"
  "poll_recv_many list_env n w = (if queue w = [] then (Pending, w)
     else (Ready (take n (queue w)), w\<lparr>queue := drop n (queue w)\<rparr>))"
  by (simp_all add: list_env_def)

lemma list_env_receive:
  "receive_command list_env True empty_handler one_waiting =
     Some (NoMoreCommands, subscribed_handler, one_waiting\<lparr>queue := []\<rparr>)"
proof -
  have "receive_command list_env True subscribed_handler (one_waiting\<lparr>queue := []\<rparr>) =
      Some (NoMoreCommands, subscribed_handler, one_waiting\<lparr>queue := []\<rparr>)"
    by (subst receive_command.simps) (simp add: subscribed_handler_def empty_handler_def)
  then show ?thesis
    by (subst receive_command.simps)
      (simp add: one_waiting_def empty_handler_def subscribed_handler_def RECV_BUF_def h_enqueue_def push_in_flight_def)
qed

lemma list_env_poll:
  "handler_poll list_env True empty_handler one_waiting = Some (Pending, subscribed_handler, one_waiting\<lparr>queue := []\<rparr>)"
proof -
  have r: "read_loop list_env False h w = Some (None, False, h, w)" for h w
    by (subst read_loop.simps) simp
  have h: "empty_handler\<lparr>h_pinger := h_pinger empty_handler, conn := conn empty_handler\<rparr> = empty_handler" by simp
  have q: "poll_requests list_env empty_handler w = Some (empty_handler, w)" for w
    by (simp add: poll_requests_def empty_handler_def quick_info_new_failed)
  have w: "write_loop list_env True empty_handler one_waiting =
      Some (None, NoMoreCommands, subscribed_handler, one_waiting\<lparr>queue := []\<rparr>)"
    by (subst write_loop.simps) (simp add: list_env_receive write_step_def)
  have f: "poll_finish list_env NoMoreCommands subscribed_handler v = Some (Pending, subscribed_handler, v)" for v
    by (simp add: poll_finish_def subscribed_handler_def empty_handler_def)
  show ?thesis
    by (simp add: handler_poll_def pinger_poll_def h r q w f)
qed

text \<open>An environment whose sleeps are over at once, and an attempt to connect that succeeds.\<close>

definition quiet_env :: "(((unit, unit) connection_compression, unit, unit) connection, nat, unit, (nat, unit) clients) env" where
  "quiet_env = \<lparr> now = (\<lambda>w. (0, w)), poll_sleep = (\<lambda>d w. (True, w)),
     enqueue_write_op = (\<lambda>op c. Some c), may_enqueue_more_ops = (\<lambda>c w. Some (True, c, w)),
     poll_read_next = (\<lambda>c w. Some (Pending, c, w)), is_streaming = (\<lambda>c. False), may_write = (\<lambda>c. None),
     poll_write_next = (\<lambda>c w. None), should_flush = (\<lambda>c. False), poll_flush = (\<lambda>c w. None),
     try_send = (\<lambda>s m w. (Sent, w)), is_closed = (\<lambda>s w. False), oneshot_send = (\<lambda>q m w. w),
     oneshot_is_closed = (\<lambda>q w. False), poll_recv_many = (\<lambda>n w. (Pending, w)),
     close_commands = (\<lambda>w. w), poll_shutdown = (\<lambda>w. (False, w)), has_budget_remaining = (\<lambda>w. True) \<rparr>"

definition quiet_connection :: "((unit, unit) connection_compression, unit, unit) connection" where
  "quiet_connection = Streaming (streaming_new (Comp_Plain ()))"

definition quiet_attempt ::
    "nat recycled_handler \<Rightarrow> (nat, unit) clients \<Rightarrow>
     ((unit connect_handler_error \<times> nat recycled_handler +
       (((unit, unit) connection_compression, unit, unit) connection, nat, unit) handler option) \<times> (nat, unit) clients) option" where
  "quiet_attempt = handler_connect_run quiet_env (client_builder_new :: unit client_builder) (\<lambda>w. (None, w))
     (\<lambda>w. Some (Ok (quiet_connection, tls_info), w))"

definition quiet_handler ::
    "nat recycled_handler \<Rightarrow> (((unit, unit) connection_compression, unit, unit) connection, nat, unit) handler" where
  "quiet_handler r = \<lparr> conn = quiet_connection, h_info = Some tls_info,
     h_quick_info = quick_info_store (connected_update False) (r_quick_info r), delayed_write = None,
     writing = False, flushing = False, shutting_down = False, h_pinger = \<lparr> interval = INTERVAL, pending_pings = 0 \<rparr>,
     recv_buf = [], in_flight_commands = map (\<lambda>(sid, _). In_Subscribe sid) (r_subscriptions r),
     multiplexed_subscription_prefix = r_multiplexed_subscription_prefix r, multiplexed_subscriptions = None,
     subscriptions = r_subscriptions r \<rparr>"

lemma quiet_env_shared: "shared_with quiet_env (\<lambda>w. w)"
proof -
  have "world_rely quiet_env (clients_only (\<lambda>w. w))"
    by unfold_locales (auto simp: clients_only_def quiet_env_def)
  then show ?thesis by (auto simp: shared_with_def receives_def clients_only_def quiet_env_def)
qed

lemma quiet_resubscribe:
  "\<forall>p\<in>set subs. remaining (snd p) = None \<Longrightarrow>
     resubscribe quiet_env subs q c = Some (q @ map (\<lambda>(sid, _). In_Subscribe sid) subs, c)"
  by (induction subs arbitrary: q) (auto simp: quiet_env_def)

lemma quiet_attempt_Some:
  "\<forall>p\<in>set (r_subscriptions r). remaining (snd p) = None \<Longrightarrow> quiet_attempt r w = Some (Ok (Some (quiet_handler r)), w)"
  by (simp add: quiet_attempt_def handler_connect_run_def connect_race_def handler_connect_def quiet_resubscribe
      quiet_handler_def delayed_new_def pinger_new_def client_builder_new_def Let_def)
    (simp add: quiet_env_def)

lemma quiet_attempt_world: "quiet_attempt r w = Some (x, w') \<Longrightarrow> w' = w"
  by (auto simp: quiet_attempt_def handler_connect_run_def connect_race_def handler_connect_def
      delayed_new_def pinger_new_def client_builder_new_def Let_def quiet_env_def split: bind_splits)

lemma quiet_reconnect:
  assumes "\<forall>p\<in>set (r_subscriptions r). remaining (snd p) = None"
  shows "reconnect quiet_env quiet_attempt dly r w = Some (Some (quiet_handler r), w)"
proof -
  have "sleep_or_shutdown quiet_env dly w = Some (Fuse_Output (), w)"
    unfolding sleep_or_shutdown_def
    by (subst await.simps) (simp add: fuse_shutdown_poll_def poll_sleep_future_def quiet_env_def)
  with quiet_attempt_Some [OF assms] show ?thesis
    by (subst reconnect.simps) simp
qed

section \<open>Properties\<close>

text \<open>C9: Whatever the clients do while the handler is polled, every subscription identifier is given
  out once, with a channel of its own; an identifier is at any time with a client, in a queued
  command or in the table of the handler, never in two of them, so a Subscribe command never
  takes the place of a subscription, and the table sends the messages of an identifier to the
  channel it was given out with.\<close>

theorem identifiers_unique:
  assumes "shared_with e view" and "system_inv h (view w)" and "handler_poll e dbg h w = Some (r, h', w')"
  shows "system_inv h' (view w') \<and>
    (let ids = map fst (held (view w')) @ map fst (concat (map announced (queue (view w')))) @ map fst (subscriptions h')
     in distinct ids \<and> (\<forall>sid\<in>set ids. MULTIPLEXED_SUBSCRIPTION_ID < sid \<and> sid < next_subscription_id (cl (view w')))) \<and>
    (\<forall>sid sub. bt_get sub_key sid (subscriptions h') = Some sub \<longrightarrow> (sid, messages sub) \<in> set (given (view w'))) \<and>
    distinct (map fst (given (view w'))) \<and> distinct (map snd (given (view w')))"
proof -
  have inv: "system_inv h' (view w')"
    using system.poll_R [OF assms(3)] assms(1,2) by (simp add: keeps_ids_def)
  moreover have "distinct (map fst (given (view w'))) \<and> distinct (map snd (given (view w')))"
    using inv by (simp add: ids_inv_def given_inv_def)
  moreover have "(sid, messages sub) \<in> set (given (view w'))" if "bt_get sub_key sid (subscriptions h') = Some sub" for sid sub
    using inv entries_get [OF that] by (auto simp: ids_inv_def table_def)
  ultimately show ?thesis using system_inv_ids [OF inv] by (simp only: Let_def) blast
qed

lemma identifiers_unique_witness:
  "handler_poll list_env True empty_handler one_waiting = Some (Pending, subscribed_handler, one_waiting\<lparr>queue := []\<rparr>) \<and>
   system_inv subscribed_handler (one_waiting\<lparr>queue := []\<rparr>)"
  using identifiers_unique [OF list_env_shared one_waiting_inv list_env_poll] list_env_poll by simp

text \<open>C13: The invariant of the identifiers holds for a client that has just connected; and connecting
  again, over any number of failed attempts and whatever the clients do in the meantime, keeps it
  and every subscription.\<close>

theorem reconnect_keeps_system:
  fixes e :: "((('a, 'x) connection_compression, 'l, 'i) connection, 's, 'o, 'w, 'z) env_scheme"
    and h h' :: "((('a, 'x) connection_compression, 'l, 'i) connection, 's, 'o) handler"
  assumes "shared_with e view" and "system_inv h (view w)"
    and "\<forall>r w x w'. handler_connect_run e builder race dialled r w = Some (x, w') \<longrightarrow> clients_only view w w'"
    and "reconnect e (handler_connect_run e builder race dialled) dly (handler_recycle h) w = Some (Some h', w')"
  shows "system_inv h' (view w') \<and> subscriptions h' = subscriptions h \<and>
    (\<forall>ops c h0 w0 w1. client_connect ops dbg builder (handler_connect_run e builder race dialled) w0 = Some (Ok (c, h0), w1) \<longrightarrow>
      system_inv h0 (clients_start c))"
  using reconnect_system [OF assms(1,2) refl _ assms(4)] assms(3) by (auto intro: client_connect_system)

lemma reconnect_keeps_system_witness:
  "\<exists>r. reconnect quiet_env quiet_attempt 5 r (one_waiting\<lparr>queue := []\<rparr>) =
     Some (Some (quiet_handler r), one_waiting\<lparr>queue := []\<rparr>) \<and>
   system_inv (quiet_handler r) (one_waiting\<lparr>queue := []\<rparr>) \<and> map fst (subscriptions (quiet_handler r)) = [2]"
proof -
  let ?h = "quiet_handler (handler_recycle subscribed_handler)" and ?w = "one_waiting\<lparr>queue := []\<rparr>"
  have subs: "subscriptions ?h = subscriptions subscribed_handler"
    by (simp add: quiet_handler_def handler_recycle_def)
  then have r: "\<forall>p\<in>set (r_subscriptions (handler_recycle ?h)). remaining (snd p) = None"
    by (simp add: handler_recycle_def subscribed_handler_def)
  have inv: "system_inv ?h ?w"
    by (simp add: ids_inv_def handler_inv_def subscriptions_inv_def pinger_inv_def given_inv_def outstanding_def
        one_waiting_def subscribed_handler_def empty_handler_def quiet_handler_def handler_recycle_def one_client_def
        client_inner_new_def table_def entries_def MULTIPLEXED_SUBSCRIPTION_ID_def subscription_id_min_def)
  have w: "\<forall>r w x w'. handler_connect_run quiet_env (client_builder_new :: unit client_builder) (\<lambda>w. (None, w))
      (\<lambda>w. Some (Ok (quiet_connection, tls_info) :: unit + _, w)) r w = Some (x, w') \<longrightarrow> clients_only (\<lambda>w. w) w w'"
    using quiet_attempt_world unfolding quiet_attempt_def clients_only_def by blast
  have q: "reconnect quiet_env quiet_attempt 5 (handler_recycle ?h) ?w = Some (Some (quiet_handler (handler_recycle ?h)), ?w)"
    by (rule quiet_reconnect [OF r])
  have "system_inv (quiet_handler (handler_recycle ?h)) ?w \<and> subscriptions (quiet_handler (handler_recycle ?h)) = subscriptions ?h"
    using reconnect_keeps_system [OF quiet_env_shared inv w q [unfolded quiet_attempt_def]] by blast
  with q subs show ?thesis by (intro exI [of _ "handler_recycle ?h"]) (simp add: subscribed_handler_def)
qed

end
