(* ===== verification/Subscription.thy ===== *)
theory Subscription
  imports Client
begin

text \<open>
  \<open>watermelon/src/subscription.rs\<close> and \<open>multiplexed_subscription.rs\<close>: the streams of messages. The receiving
  ends of tokio's channels are the record \<open>receiver_ops\<close>; a poll of a receiver gives the items it appends to the
  buffer, none when the channel is closed and drained.
\<close>

type_synonym item = "server_error + server_message"

record ('x, 'q, 'w) receiver_ops =
  recv_is_closed :: "'x \<Rightarrow> 'w \<Rightarrow> bool"
  recv_poll_many :: "'x \<Rightarrow> nat \<Rightarrow> 'w \<Rightarrow> item list poll \<times> 'w"
  oneshot_poll :: "'q \<Rightarrow> 'w \<Rightarrow> (unit + server_message) poll \<times> 'w"

definition BATCH_RECEIVE_SIZE :: nat where "BATCH_RECEIVE_SIZE = 16"

section \<open>Closing\<close>

definition subscription_close ::
    "('s, 'x, 'o, 'q, 'p, 'w) client_ops \<Rightarrow> ('x, 'q, 'w) receiver_ops \<Rightarrow> 'x client_subscription \<Rightarrow> 'w \<Rightarrow>
     ((client_closed_error + unit) \<times> 'x client_subscription \<times> 'w) option" where
  "subscription_close t v s w =
     (case (s_status s, recv_is_closed v (s_receiver s) w) of
        (Subscribed, True) \<Rightarrow> Some (Ok (), s\<lparr>s_status := Unsubscribed\<rparr>, w)
      | (Subscribed, False) \<Rightarrow> do {
          (r, w) \<leftarrow> unsubscribe t (s_id s) None w;
          (case r of
             Inl err \<Rightarrow> Some (Err err, s, w)
           | Inr _ \<Rightarrow> Some (Ok (), s\<lparr>s_status := Unsubscribed\<rparr>, w)) }
      | (Unsubscribed, _) \<Rightarrow> Some (Ok (), s, w))"

definition subscription_close_after ::
    "('s, 'x, 'o, 'q, 'p, 'w) client_ops \<Rightarrow> ('x, 'q, 'w) receiver_ops \<Rightarrow> u64 \<Rightarrow> 'x client_subscription \<Rightarrow> 'w \<Rightarrow>
     ((client_closed_error + unit) \<times> 'x client_subscription \<times> 'w) option" where
  "subscription_close_after t v max_messages s w =
     (case (s_status s, recv_is_closed v (s_receiver s) w) of
        (Subscribed, True) \<Rightarrow> Some (Ok (), s\<lparr>s_status := Unsubscribed\<rparr>, w)
      | (Subscribed, False) \<Rightarrow> do {
          (r, w) \<leftarrow> unsubscribe t (s_id s) (Some max_messages) w;
          Some (r, s, w) }
      | (Unsubscribed, _) \<Rightarrow> Some (Ok (), s, w))"

definition subscription_drop ::
    "('s, 'x, 'o, 'q, 'p, 'w) client_ops \<Rightarrow> ('x, 'q, 'w) receiver_ops \<Rightarrow> 'x client_subscription \<Rightarrow> client \<Rightarrow> 'w \<Rightarrow>
     client \<times> 'w" where
  "subscription_drop t v s c w =
     (if s_status s = Unsubscribed \<or> recv_is_closed v (s_receiver s) w then (c, w)
      else lazy_unsubscribe t (s_id s) None c w)"

section \<open>The stream\<close>

text \<open>\<open>Vec::pop\<close>.\<close>

definition vec_pop :: "'a list \<Rightarrow> 'a option \<times> 'a list" where
  "vec_pop xs = (if xs = [] then (None, []) else (Some (last xs), butlast xs))"

definition subscription_poll_next ::
    "('x, 'q, 'w) receiver_ops \<Rightarrow> bool \<Rightarrow> 'x client_subscription \<Rightarrow> 'w \<Rightarrow>
     (item option poll \<times> 'x client_subscription \<times> 'w) option" where
  "subscription_poll_next v dbg s w =
     (case vec_pop (receiver_queue s) of
        (Some msg, q) \<Rightarrow> Some (Ready (Some msg), s\<lparr>receiver_queue := q\<rparr>, w)
      | (None, _) \<Rightarrow>
          (case recv_poll_many v (s_receiver s) BATCH_RECEIVE_SIZE w of
             (Pending, w) \<Rightarrow> Some (Pending, s, w)
           | (Ready [], w) \<Rightarrow> Some (Ready None, s\<lparr>s_status := Unsubscribed\<rparr>, w)
           | (Ready msgs, w) \<Rightarrow> do {
               let q = receiver_queue s @ msgs;
               _ \<leftarrow> debug_assert dbg (length msgs = length q);
               let (msg, q) = vec_pop (rev q);
               Some (Ready msg, s\<lparr>receiver_queue := q\<rparr>, w) }))"

definition subscription_size_hint :: "'x client_subscription \<Rightarrow> nat \<times> nat option" where
  "subscription_size_hint s = (length (receiver_queue s), None)"

definition subscription_is_terminated ::
    "('x, 'q, 'w) receiver_ops \<Rightarrow> 'x client_subscription \<Rightarrow> 'w \<Rightarrow> bool" where
  "subscription_is_terminated v s w \<longleftrightarrow> recv_is_closed v (s_receiver s) w \<and> receiver_queue s = []"

section \<open>\<open>MultiplexedSubscription\<close>\<close>

definition multiplexed_poll ::
    "('x, 'q, 'w) receiver_ops \<Rightarrow> 'q multiplexed_subscription \<Rightarrow> 'w \<Rightarrow>
     ((client_closed_error + server_message) poll \<times> 'q multiplexed_subscription \<times> 'w) option" where
  "multiplexed_poll v m w =
     (case m of
        None \<Rightarrow> None
      | Some (_, receiver) \<Rightarrow>
          Some (case oneshot_poll v receiver w of
              (Pending, w) \<Rightarrow> (Pending, m, w)
            | (Ready r, w) \<Rightarrow> (Ready (map_err (\<lambda>_. ClientClosedError) r), None, w)))"

definition multiplexed_drop ::
    "('s, 'x, 'o, 'q, 'p, 'w) client_ops \<Rightarrow> 'q multiplexed_subscription \<Rightarrow> client \<Rightarrow> 'w \<Rightarrow> client \<times> 'w" where
  "multiplexed_drop t m c w =
     (case m of
        None \<Rightarrow> (c, w)
      | Some (reply_subject, _) \<Rightarrow> lazy_unsubscribe_multiplexed t reply_subject c w)"

section \<open>Order\<close>

text \<open>What a subscription has taken out of its channel, \<open>out\<close>, grows by what each poll gives.\<close>

definition receiver_ok :: "('x, 'q, 'w) receiver_ops \<Rightarrow> 'x \<Rightarrow> ('w \<Rightarrow> item list) \<Rightarrow> bool" where
  "receiver_ok v x out \<longleftrightarrow>
     (\<forall>n w w'. recv_poll_many v x n w = (Pending, w') \<longrightarrow> out w' = out w) \<and>
     (\<forall>n w ms w'. recv_poll_many v x n w = (Ready ms, w') \<longrightarrow> out w' = out w @ ms)"

text \<open>The items that \<open>k\<close> polls yield, in order.\<close>

definition yielded :: "item option poll \<Rightarrow> item list" where
  "yielded r = (case r of Ready (Some m) \<Rightarrow> [m] | _ \<Rightarrow> [])"

primrec polls ::
    "('x, 'q, 'w) receiver_ops \<Rightarrow> bool \<Rightarrow> nat \<Rightarrow> 'x client_subscription \<Rightarrow> 'w \<Rightarrow>
     (item list \<times> 'x client_subscription \<times> 'w) option" where
  "polls v dbg 0 s w = Some ([], s, w)"
| "polls v dbg (Suc k) s w = do {
     (r, s, w) \<leftarrow> subscription_poll_next v dbg s w;
     (ms, s, w) \<leftarrow> polls v dbg k s w;
     Some (yielded r @ ms, s, w) }"

lemma vec_pop_rev:
  "vec_pop xs = (m, ys) \<Longrightarrow> rev xs = (case m of None \<Rightarrow> [] | Some x \<Rightarrow> [x]) @ rev ys"
  by (cases xs rule: rev_cases) (auto simp: vec_pop_def split: if_splits)

lemma poll_next_total: "\<exists>r s' w'. subscription_poll_next v dbg s w = Some (r, s', w')"
  by (auto simp: subscription_poll_next_def vec_pop_def Let_def split: prod.splits poll.splits list.splits option.splits)

lemma poll_next_order:
  assumes ok: "receiver_ok v (s_receiver s) out" and "subscription_poll_next v dbg s w = Some (r, s', w')"
  shows "s_receiver s' = s_receiver s \<and>
    (\<exists>new. out w' = out w @ new \<and> rev (receiver_queue s) @ new = yielded r @ rev (receiver_queue s'))"
proof (cases "receiver_queue s = []")
  case False
  then have "vec_pop (receiver_queue s) = (Some (last (receiver_queue s)), butlast (receiver_queue s))"
    by (simp add: vec_pop_def)
  with vec_pop_rev [OF this] assms(2) show ?thesis
    by (auto simp: subscription_poll_next_def yielded_def)
next
  case True
  then have q: "vec_pop (receiver_queue s) = (None, [])" by (simp add: vec_pop_def)
  obtain p w1 where p: "recv_poll_many v (s_receiver s) BATCH_RECEIVE_SIZE w = (p, w1)" by fastforce
  show ?thesis
  proof (cases p)
    case Pending
    with p q assms True show ?thesis by (auto simp: subscription_poll_next_def yielded_def receiver_ok_def)
  next
    case (Ready ms)
    with p ok have out: "out w1 = out w @ ms" by (auto simp: receiver_ok_def)
    show ?thesis
    proof (cases ms)
      case Nil
      with p q assms(2) True Ready out show ?thesis by (auto simp: subscription_poll_next_def yielded_def)
    next
      case (Cons m ms')
      obtain x ys where x: "vec_pop (rev ms) = (x, ys)" by fastforce
      with p q assms(2) True Ready Cons have "r = Ready x" "s' = s\<lparr>receiver_queue := ys\<rparr>" "w' = w1"
        by (auto simp: subscription_poll_next_def)
      with vec_pop_rev [OF x] out True show ?thesis
        by (auto simp: yielded_def split: option.splits)
    qed
  qed
qed

lemma polls_order:
  assumes "receiver_ok v (s_receiver s) out"
  shows "\<exists>ms s' w' new. polls v dbg k s w = Some (ms, s', w') \<and> out w' = out w @ new \<and>
    rev (receiver_queue s) @ new = ms @ rev (receiver_queue s')"
  using assms
proof (induction k arbitrary: s w)
  case (Suc k)
  obtain r s1 w1 where 1: "subscription_poll_next v dbg s w = Some (r, s1, w1)"
    using poll_next_total [of v dbg s w] by blast
  from poll_next_order [OF Suc.prems 1] obtain n1 where n1: "s_receiver s1 = s_receiver s" "out w1 = out w @ n1"
      "rev (receiver_queue s) @ n1 = yielded r @ rev (receiver_queue s1)" by blast
  from Suc.IH [of s1 w1] Suc.prems n1(1) obtain ms s' w' n2 where 2: "polls v dbg k s1 w1 = Some (ms, s', w')"
      "out w' = out w1 @ n2" "rev (receiver_queue s1) @ n2 = ms @ rev (receiver_queue s')" by auto
  have "rev (receiver_queue s) @ n1 @ n2 = (yielded r @ ms) @ rev (receiver_queue s')"
    using n1(3) 2(3) by (metis append.assoc)
  with 1 2 n1(2) show ?case by (intro exI [of _ "yielded r @ ms"] exI [of _ s'] exI [of _ w'] exI [of _ "n1 @ n2"]) simp
qed simp

section \<open>Properties\<close>

text \<open>C19: However many times a subscription is polled, it does not panic, and what it yields is what
  it took out of its channel, in the same order, each item once, less the items still in its
  batch.\<close>

theorem subscription_fifo:
  assumes "receiver_ok v (s_receiver s) out"
  shows "\<exists>ms s' w' new. polls v dbg k s w = Some (ms, s', w') \<and> out w' = out w @ new \<and>
    rev (receiver_queue s) @ new = ms @ rev (receiver_queue s')"
  using assms by (rule polls_order)

lemma subscription_fifo_witness:
  "\<exists>s' w'. polls \<lparr> recv_is_closed = (\<lambda>_ _. False),
       recv_poll_many = (\<lambda>_ n w. (Ready [Err UnknownProtocolOperation, Err StaleConnection], w @ [Err UnknownProtocolOperation, Err StaleConnection])),
       oneshot_poll = (\<lambda>(_ :: unit) w. (Pending, w)) \<rparr> True 1 (subscription_new 2 ()) [] =
     Some ([Err UnknownProtocolOperation], s', w') \<and> receiver_queue s' = [Err StaleConnection]"
proof -
  let ?v = "\<lparr> recv_is_closed = (\<lambda>_ _. False),
    recv_poll_many = (\<lambda>(_ :: unit) n w. (Ready [Err UnknownProtocolOperation, Err StaleConnection], w @ [Err UnknownProtocolOperation, Err StaleConnection])),
    oneshot_poll = (\<lambda>(_ :: unit) w. (Pending, w)) \<rparr>"
  have ok: "receiver_ok ?v (s_receiver (subscription_new 2 ())) (\<lambda>w. w)" by (simp add: receiver_ok_def)
  have "polls ?v True 1 (subscription_new 2 ()) [] =
      Some ([Err UnknownProtocolOperation], (subscription_new 2 ())\<lparr>receiver_queue := [Err StaleConnection]\<rparr>,
        [Err UnknownProtocolOperation, Err StaleConnection])"
    by (simp add: subscription_poll_next_def vec_pop_def subscription_new_def yielded_def)
  with subscription_fifo [OF ok, of True 1 "[]"] show ?thesis by auto
qed


end
