(* ===== verification/Requests.thy ===== *)
theory Requests
  imports Subscription Status_Code
begin

text \<open>
  \<open>watermelon/src/client/commands/publish.rs\<close> and \<open>request.rs\<close>: builders of messages and requests, what they
  send, and the future of a response. Builders that hold a client \<open>'h\<close> are pairs of it and the message, whether
  it is borrowed or owned.
\<close>

section \<open>Messages\<close>

record publish =
  p_subject :: subject
  p_reply_subject :: "subject option"
  p_headers :: header_map
  p_payload :: bytes

definition publish_subject :: "subject \<Rightarrow> publish" where
  "publish_subject subject =
     \<lparr> p_subject = subject, p_reply_subject = None, p_headers = header_map_new, p_payload = [] \<rparr>"

definition publish_reply_subject :: "subject option \<Rightarrow> publish \<Rightarrow> publish" where
  "publish_reply_subject reply_subject p = p\<lparr>p_reply_subject := reply_subject\<rparr>"

definition publish_header ::
    "(bytes \<Rightarrow> bytes) \<Rightarrow> header_name \<Rightarrow> header_value \<Rightarrow> publish \<Rightarrow> publish option" where
  "publish_header uc n v p = map_option (\<lambda>h. p\<lparr>p_headers := h\<rparr>) (header_map_insert uc n v (p_headers p))"

definition publish_headers :: "header_map \<Rightarrow> publish \<Rightarrow> publish" where
  "publish_headers h p = p\<lparr>p_headers := h\<rparr>"

definition publish_payload :: "bytes \<Rightarrow> publish \<Rightarrow> publish" where
  "publish_payload b p = p\<lparr>p_payload := b\<rparr>"

text \<open>The serializer is \<open>serde_json::to_vec\<close>.\<close>

definition publish_payload_json :: "('v \<Rightarrow> 'j + bytes) \<Rightarrow> 'v \<Rightarrow> publish \<Rightarrow> 'j + publish" where
  "publish_payload_json to_vec payload p = map_ok (\<lambda>b. publish_payload b p) (to_vec payload)"

definition into_message_base :: "publish \<Rightarrow> message_base" where
  "into_message_base p =
     \<lparr> msg_subject = p_subject p, msg_reply_subject = p_reply_subject p, msg_headers = p_headers p,
       msg_payload = p_payload p \<rparr>"

definition try_publish ::
    "('s, 'x, 'o, 'q, 'p, 'w) client_ops \<Rightarrow> publish \<Rightarrow> 'w \<Rightarrow> (try_command_error + unit) \<times> 'w" where
  "try_publish t p w = try_enqueue_command t (Cmd_Publish (into_message_base p)) w"

definition do_publish ::
    "('s, 'x, 'o, 'q, 'p, 'w) client_ops \<Rightarrow> publish \<Rightarrow> 'w \<Rightarrow> ((client_closed_error + unit) \<times> 'w) option" where
  "do_publish t p w = enqueue_command t (Cmd_Publish (into_message_base p)) w"

type_synonym 'h client_publish = "'h \<times> publish"

definition client_publish_build :: "'h \<Rightarrow> subject \<Rightarrow> 'h client_publish" where
  "client_publish_build h subject = (h, publish_subject subject)"

definition publish_client :: "publish \<Rightarrow> 'h \<Rightarrow> 'h client_publish" where
  "publish_client p h = (h, p)"

definition client_publish_payload :: "bytes \<Rightarrow> 'h client_publish \<Rightarrow> 'h client_publish" where
  "client_publish_payload b cp = publish_client (publish_payload b (snd cp)) (fst cp)"

section \<open>Requests\<close>

record request =
  rq_publish :: publish
  rq_response_timeout :: "nat option"

definition into_request :: "publish \<Rightarrow> request" where
  "into_request p = \<lparr> rq_publish = p, rq_response_timeout = None \<rparr>"

definition request_subject :: "subject \<Rightarrow> request" where
  "request_subject subject = \<lparr> rq_publish =
       \<lparr> p_subject = subject, p_reply_subject = None, p_headers = header_map_new, p_payload = [] \<rparr>,
     rq_response_timeout = None \<rparr>"

definition request_reply_subject :: "subject option \<Rightarrow> request \<Rightarrow> request" where
  "request_reply_subject reply_subject r =
     r\<lparr>rq_publish := (rq_publish r)\<lparr>p_reply_subject := reply_subject\<rparr>\<rparr>"

definition request_header ::
    "(bytes \<Rightarrow> bytes) \<Rightarrow> header_name \<Rightarrow> header_value \<Rightarrow> request \<Rightarrow> request option" where
  "request_header uc n v r =
     map_option (\<lambda>h. r\<lparr>rq_publish := (rq_publish r)\<lparr>p_headers := h\<rparr>\<rparr>)
       (header_map_insert uc n v (p_headers (rq_publish r)))"

definition request_headers :: "header_map \<Rightarrow> request \<Rightarrow> request" where
  "request_headers h r = r\<lparr>rq_publish := (rq_publish r)\<lparr>p_headers := h\<rparr>\<rparr>"

definition request_response_timeout :: "nat \<Rightarrow> request \<Rightarrow> request" where
  "request_response_timeout timeout r = r\<lparr>rq_response_timeout := Some timeout\<rparr>"

definition request_payload :: "bytes \<Rightarrow> request \<Rightarrow> request" where
  "request_payload b r = r\<lparr>rq_publish := (rq_publish r)\<lparr>p_payload := b\<rparr>\<rparr>"

definition request_payload_json :: "('v \<Rightarrow> 'j + bytes) \<Rightarrow> 'v \<Rightarrow> request \<Rightarrow> 'j + request" where
  "request_payload_json to_vec payload r = map_ok (\<lambda>b. request_payload b r) (to_vec payload)"

type_synonym 'h client_request = "'h \<times> request"

definition client_request_build :: "'h \<Rightarrow> subject \<Rightarrow> 'h client_request" where
  "client_request_build h subject = (h, request_subject subject)"

definition request_client :: "request \<Rightarrow> 'h \<Rightarrow> 'h client_request" where
  "request_client r h = (h, r)"

definition client_request_payload :: "bytes \<Rightarrow> 'h client_request \<Rightarrow> 'h client_request" where
  "client_request_payload b cr = request_client (request_payload b (snd cr)) (fst cr)"

section \<open>The response\<close>

datatype ('x, 'q) response_subscription =
    Resp_Multiplexed "'q multiplexed_subscription"
  | Resp_Subscription "'x client_subscription"

record ('x, 'q) response_fut =
  rf_subscription :: "('x, 'q) response_subscription"
  rf_timeout :: nat

datatype response_error = Resp_ServerError server_error | NoResponders | Resp_TimedOut | SubscriptionClosed

text \<open>A polled future whose subscription is pending looks at its timer.\<close>

definition poll_timeout :: "('w, 'z) clock_ops_scheme \<Rightarrow> nat \<Rightarrow> 'w \<Rightarrow> (response_error + server_message) poll \<times> 'w" where
  "poll_timeout clk deadline w =
     (case poll_sleep clk deadline w of (elapsed, w) \<Rightarrow>
        (if elapsed then Ready (Err Resp_TimedOut) else Pending, w))"

definition response_message :: "server_message \<Rightarrow> response_error + server_message" where
  "response_message message =
     (if status_code message = Some NO_RESPONDERS then Err NoResponders else Ok message)"

definition response_poll ::
    "('w, 'z) clock_ops_scheme \<Rightarrow> ('x, 'q, 'w) receiver_ops \<Rightarrow> bool \<Rightarrow> ('x, 'q) response_fut \<Rightarrow> 'w \<Rightarrow>
     ((response_error + server_message) poll \<times> ('x, 'q) response_fut \<times> 'w) option" where
  "response_poll clk v dbg f w =
     (case rf_subscription f of
        Resp_Multiplexed receiver \<Rightarrow> do {
          (r, receiver, w) \<leftarrow> multiplexed_poll v receiver w;
          let f = f\<lparr>rf_subscription := Resp_Multiplexed receiver\<rparr>;
          Some (case r of
              Pending \<Rightarrow> (case poll_timeout clk (rf_timeout f) w of (r, w) \<Rightarrow> (r, f, w))
            | Ready (Inr message) \<Rightarrow> (Ready (response_message message), f, w)
            | Ready (Inl _) \<Rightarrow> (Ready (Err SubscriptionClosed), f, w)) }
      | Resp_Subscription subscription \<Rightarrow> do {
          (r, subscription, w) \<leftarrow> subscription_poll_next v dbg subscription w;
          let f = f\<lparr>rf_subscription := Resp_Subscription subscription\<rparr>;
          Some (case r of
              Pending \<Rightarrow> (case poll_timeout clk (rf_timeout f) w of (r, w) \<Rightarrow> (r, f, w))
            | Ready (Some (Inr message)) \<Rightarrow> (Ready (response_message message), f, w)
            | Ready (Some (Inl server_error)) \<Rightarrow> (Ready (Err (Resp_ServerError server_error)), f, w)
            | Ready None \<Rightarrow> (Ready (Err SubscriptionClosed), f, w)) })"

text \<open>What is dropped with the future.\<close>

definition response_drop ::
    "('s, 'x, 'o, 'q, 'p, 'w) client_ops \<Rightarrow> ('x, 'q, 'w) receiver_ops \<Rightarrow> ('x, 'q) response_fut \<Rightarrow> client \<Rightarrow> 'w \<Rightarrow>
     client \<times> 'w" where
  "response_drop t v f c w =
     (case rf_subscription f of
        Resp_Multiplexed m \<Rightarrow> multiplexed_drop t m c w
      | Resp_Subscription s \<Rightarrow> subscription_drop t v s c w)"

section \<open>Sending requests\<close>

definition response_fut_new ::
    "('w, 'z) clock_ops_scheme \<Rightarrow> request \<Rightarrow> client \<Rightarrow> ('x, 'q) response_subscription \<Rightarrow> 'w \<Rightarrow>
     ('x, 'q) response_fut \<times> 'w" where
  "response_fut_new clk r c subscription w =
     (case now clk w of (t, w) \<Rightarrow>
        (\<lparr> rf_subscription = subscription,
           rf_timeout = t + (case rq_response_timeout r of Some d \<Rightarrow> d | None \<Rightarrow> default_response_timeout c) \<rparr>, w))"

text \<open>A subscription for the reply is dropped when the message cannot be sent.\<close>

definition try_request ::
    "('s, 'x, 'o, 'q, 'p, 'w) client_ops \<Rightarrow> ('x, 'q, 'w) receiver_ops \<Rightarrow> ('w, 'z) clock_ops_scheme \<Rightarrow> bool \<Rightarrow>
     request \<Rightarrow> client \<Rightarrow> 'w \<Rightarrow> ((try_command_error + ('x, 'q) response_fut) \<times> client \<times> 'w) option" where
  "try_request t v clk dbg r c w =
     (case p_reply_subject (rq_publish r) of
        Some reply_subject \<Rightarrow> do {
          (x, c, w) \<leftarrow> try_subscribe t reply_subject None c w;
          (case x of
             Inl err \<Rightarrow> Some (Err err, c, w)
           | Inr subscription \<Rightarrow>
               (case lazy_unsubscribe t (s_id subscription) (Some 1) c w of (c, w) \<Rightarrow>
                case try_publish t (rq_publish r) w of
                  (Inl err, w) \<Rightarrow> (case subscription_drop t v subscription c w of (c, w) \<Rightarrow> Some (Err err, c, w))
                | (Inr _, w) \<Rightarrow>
                    (case response_fut_new clk r c (Resp_Subscription subscription) w of (f, w) \<Rightarrow> Some (Ok f, c, w)))) }
      | None \<Rightarrow> do {
          (x, w) \<leftarrow> try_multiplexed_request t dbg (p_subject (rq_publish r)) (p_headers (rq_publish r))
            (p_payload (rq_publish r)) c w;
          (case x of
             Inl err \<Rightarrow> Some (Err err, c, w)
           | Inr receiver \<Rightarrow>
               (case response_fut_new clk r c (Resp_Multiplexed receiver) w of (f, w) \<Rightarrow> Some (Ok f, c, w))) })"

definition do_request ::
    "('s, 'x, 'o, 'q, 'p, 'w) client_ops \<Rightarrow> ('x, 'q, 'w) receiver_ops \<Rightarrow> ('w, 'z) clock_ops_scheme \<Rightarrow> bool \<Rightarrow>
     request \<Rightarrow> client \<Rightarrow> 'w \<Rightarrow> ((client_closed_error + ('x, 'q) response_fut) \<times> client \<times> 'w) option" where
  "do_request t v clk dbg r c w =
     (case p_reply_subject (rq_publish r) of
        Some reply_subject \<Rightarrow> do {
          (x, c, w) \<leftarrow> subscribe t reply_subject None c w;
          (case x of
             Inl err \<Rightarrow> Some (Err err, c, w)
           | Inr subscription \<Rightarrow>
               (case lazy_unsubscribe t (s_id subscription) (Some 1) c w of (c, w) \<Rightarrow> do {
                  (y, w) \<leftarrow> do_publish t (rq_publish r) w;
                  (case y of
                     Inl err \<Rightarrow> (case subscription_drop t v subscription c w of (c, w) \<Rightarrow> Some (Err err, c, w))
                   | Inr _ \<Rightarrow>
                       (case response_fut_new clk r c (Resp_Subscription subscription) w of (f, w) \<Rightarrow>
                          Some (Ok f, c, w))) })) }
      | None \<Rightarrow> do {
          (x, w) \<leftarrow> multiplexed_request t dbg (p_subject (rq_publish r)) (p_headers (rq_publish r))
            (p_payload (rq_publish r)) c w;
          (case x of
             Inl err \<Rightarrow> Some (Err err, c, w)
           | Inr receiver \<Rightarrow>
               (case response_fut_new clk r c (Resp_Multiplexed receiver) w of (f, w) \<Rightarrow> Some (Ok f, c, w))) })"

end
