(* ===== verification/Request_Spec.thy ===== *)
theory Request_Spec
  imports System Requests
begin

text \<open>
  What the operations of the clients do to the channel of the commands, and what the handler makes of it:
  every operation is a sequence of the steps of \<open>System\<close>, and a request that was sent is written to the
  connection and its reply routed back.
\<close>

section \<open>The channel of the commands\<close>

text \<open>What tokio documents: \<open>chan\<close> is what is in the channel, \<open>used\<close> the senders of the channels made so far.\<close>

definition channel_ok ::
    "('s, 'x, 'o, 'q, 'p, 'w) client_ops \<Rightarrow> ('w \<Rightarrow> ('s, 'o) handler_command list) \<Rightarrow> ('w \<Rightarrow> 's set) \<Rightarrow> bool" where
  "channel_ok t chan used \<longleftrightarrow>
     (\<forall>w r w'. c_reserve t w = Some (r, w') \<longrightarrow> chan w' = chan w \<and> used w' = used w) \<and>
     (\<forall>w r w'. c_try_reserve t w = (r, w') \<longrightarrow> chan w' = chan w \<and> used w' = used w) \<and>
     (\<forall>p cmd w. chan (permit_send t p cmd w) = chan w @ [cmd] \<and> used (permit_send t p cmd w) = used w) \<and>
     (\<forall>cmd w r w'. c_send t cmd w = Some (r, w') \<longrightarrow>
        chan w' = (if is_ok r then chan w @ [cmd] else chan w) \<and> used w' = used w) \<and>
     (\<forall>cmd w r w'. c_try_send t cmd w = (r, w') \<longrightarrow>
        chan w' = (if is_ok r then chan w @ [cmd] else chan w) \<and> used w' = used w) \<and>
     (\<forall>n w s x w'. mpsc_channel t n w = ((s, x), w') \<longrightarrow>
        chan w' = chan w \<and> s \<notin> used w \<and> used w' = insert s (used w)) \<and>
     (\<forall>w o' q w'. oneshot_channel t w = ((o', q), w') \<longrightarrow> chan w' = chan w \<and> used w' = used w) \<and>
     (\<forall>n w b w'. rand_fill t n w = (b, w') \<longrightarrow> chan w' = chan w \<and> used w' = used w)"

text \<open>The state of \<open>System\<close> that a client and a world make up, and the relation between two of them.\<close>

definition sees ::
    "('w \<Rightarrow> ('s, 'o) handler_command list) \<Rightarrow> ('w \<Rightarrow> 's set) \<Rightarrow> client \<Rightarrow> 'w \<Rightarrow> ('s, 'o) clients \<Rightarrow> bool" where
  "sees chan used c w k \<longleftrightarrow> cl k = c \<and> queue k = chan w \<and> snd ` set (given k) \<subseteq> used w"

definition by_steps ::
    "('w \<Rightarrow> ('s, 'o) handler_command list) \<Rightarrow> ('w \<Rightarrow> 's set) \<Rightarrow> client \<Rightarrow> 'w \<Rightarrow> client \<Rightarrow> 'w \<Rightarrow> bool" where
  "by_steps chan used c w c' w' \<longleftrightarrow>
     (\<forall>k. sees chan used c w k \<longrightarrow> (\<exists>k'. client_steps k k' \<and> sees chan used c' w' k')) \<and>
     c_multiplexed_subscription_prefix c' = c_multiplexed_subscription_prefix c"

lemma by_steps_same: "chan w' = chan w \<Longrightarrow> used w' = used w \<Longrightarrow> by_steps chan used c w c w'"
  by (auto simp: by_steps_def sees_def)

lemma by_steps_trans: "by_steps chan used c w c' w' \<Longrightarrow> by_steps chan used c' w' c'' w'' \<Longrightarrow> by_steps chan used c w c'' w''"
  unfolding by_steps_def by (metis rtranclp_trans)

lemma by_stepI:
  assumes "\<And>k. sees chan used c w k \<Longrightarrow> client_step k (f k)" and "\<And>k. sees chan used c w k \<Longrightarrow> sees chan used c' w' (f k)"
    and "c_multiplexed_subscription_prefix c' = c_multiplexed_subscription_prefix c"
  shows "by_steps chan used c w c' w'"
  using assms unfolding by_steps_def by (meson r_into_rtranclp)

lemma by_steps_command:
  assumes "command_of_client c cmd" and "chan w' = chan w @ [cmd]" and "used w' = used w"
  shows "by_steps chan used c w c w'"
proof (rule by_stepI [where f = "\<lambda>k. k\<lparr>queue := queue k @ [cmd]\<rparr>"])
  show "client_step k (k\<lparr>queue := queue k @ [cmd]\<rparr>)" if "sees chan used c w k" for k
    using that assms(1) by (intro client_step.command) (simp add: sees_def)
qed (use assms in \<open>simp_all add: sees_def\<close>)

lemma by_steps_give_up:
  assumes "chan w' = chan w" and "used w' = used w"
  shows "by_steps chan used c w (c\<lparr>c_quick_info := store_is_failed_unsubscribe True (c_quick_info c)\<rparr>) w'"
  by (rule by_stepI [where f = "\<lambda>k. k\<lparr>cl := (cl k)\<lparr>c_quick_info := store_is_failed_unsubscribe True (c_quick_info (cl k))\<rparr>\<rparr>",
      OF client_step.give_up]) (use assms in \<open>simp_all add: sees_def\<close>)

lemma lazy_command_steps:
  assumes ok: "channel_ok t chan used" and "command_of_client c cmd" and "lazy_command t cmd c w = (c', w')"
  shows "by_steps chan used c w c' w'"
proof -
  obtain r w1 where r: "c_try_send t cmd w = (r, w1)" by fastforce
  with ok have ch: "chan w1 = (if is_ok r then chan w @ [cmd] else chan w)" "used w1 = used w"
    unfolding channel_ok_def by blast+
  show ?thesis
  proof (cases r)
    case (Inl err)
    with r assms(3) ch show ?thesis
      by (auto simp: lazy_command_def try_enqueue_command_def intro: by_steps_give_up)
  next
    case (Inr _)
    with r assms(2,3) ch show ?thesis
      by (auto simp: lazy_command_def try_enqueue_command_def intro: by_steps_command)
  qed
qed

lemma do_subscribe_steps:
  assumes ok: "channel_ok t chan used" and "do_subscribe t p subj q c w = Some (s, c', w')"
  shows "by_steps chan used c w c' w' \<and> (\<exists>x. chan w' = chan w @ [Cmd_Subscribe (s_id s) subj q x]) \<and>
    s_id s = next_subscription_id c \<and> s_status s = Subscribed \<and> c_quick_info c' = c_quick_info c"
proof -
  obtain sid where a: "allocate_id c = Some (sid, c')"
    using assms(2) by (auto simp: do_subscribe_def split: bind_splits prod.splits)
  obtain s' x w1 where m: "mpsc_channel t SUBSCRIPTION_CHANNEL_SIZE w = ((s', x), w1)" by (metis surj_pair)
  with assms(2) a have w': "w' = permit_send t p (Cmd_Subscribe sid subj q s') w1" "s = subscription_new sid x"
    by (auto simp: do_subscribe_def)
  from ok m have ch: "chan w' = chan w @ [Cmd_Subscribe sid subj q s']" "used w' = insert s' (used w)" "s' \<notin> used w"
    unfolding channel_ok_def w'(1) by metis+
  have "\<exists>k'. client_steps k k' \<and> sees chan used c' w' k'" if "sees chan used c w k" for k
  proof -
    have "s' \<notin> snd ` set (given k)" using that ch(3) by (auto simp: sees_def)
    then have "client_step k (k\<lparr>cl := c', held := held k @ [(sid, s')], given := given k @ [(sid, s')]\<rparr>)"
      using a that by (intro client_step.allocate) (simp_all add: sees_def)
    moreover have "client_step (k\<lparr>cl := c', held := held k @ [(sid, s')], given := given k @ [(sid, s')]\<rparr>)
        (k\<lparr>cl := c', held := held k, given := given k @ [(sid, s')], queue := queue k @ [Cmd_Subscribe sid subj q s']\<rparr>)"
      using client_step.send [of "k\<lparr>cl := c', held := held k @ [(sid, s')], given := given k @ [(sid, s')]\<rparr>"
          "held k" sid s' "[]" subj q] by simp
    ultimately show ?thesis using that ch
      by (intro exI [of _ "k\<lparr>cl := c', held := held k, given := given k @ [(sid, s')], queue := queue k @ [Cmd_Subscribe sid subj q s']\<rparr>"])
        (auto simp: sees_def)
  qed
  with a ch(1) w'(2) show ?thesis
    by (auto simp: by_steps_def allocate_id_Some subscription_new_def)
qed

lemma channel_okD:
  assumes "channel_ok t chan used"
  shows "c_reserve t w = Some (r, w') \<Longrightarrow> chan w' = chan w \<and> used w' = used w"
    and "c_try_reserve t w = (r2, w') \<Longrightarrow> chan w' = chan w \<and> used w' = used w"
    and "chan (permit_send t p cmd w) = chan w @ [cmd] \<and> used (permit_send t p cmd w) = used w"
    and "c_send t cmd w = Some (r3, w') \<Longrightarrow> chan w' = (if is_ok r3 then chan w @ [cmd] else chan w) \<and> used w' = used w"
    and "c_try_send t cmd w = (r4, w') \<Longrightarrow> chan w' = (if is_ok r4 then chan w @ [cmd] else chan w) \<and> used w' = used w"
    and "oneshot_channel t w = ((o', q), w') \<Longrightarrow> chan w' = chan w \<and> used w' = used w"
    and "rand_fill t n w = (b, w') \<Longrightarrow> chan w' = chan w \<and> used w' = used w"
  using assms unfolding channel_ok_def by - (elim conjE, metis)+

lemma subscribe_steps:
  assumes ok: "channel_ok t chan used" and "subscribe t subj q c w = Some (r, c', w')"
  shows "by_steps chan used c w c' w' \<and> c_quick_info c' = c_quick_info c \<and>
    (case r of Inr s \<Rightarrow> (\<exists>x. chan w' = chan w @ [Cmd_Subscribe (s_id s) subj q x]) \<and> s_id s = next_subscription_id c
     | Inl _ \<Rightarrow> chan w' = chan w \<and> c' = c)"
proof -
  obtain p w1 where 1: "c_reserve t w = Some (p, w1)"
    using assms(2) by (auto simp: subscribe_def split: bind_splits)
  note w1 = channel_okD(1) [OF ok 1]
  show ?thesis
  proof (cases p)
    case (Inl _)
    with assms(2) 1 w1 show ?thesis by (auto simp: subscribe_def by_steps_same)
  next
    case (Inr p)
    with assms(2) 1 obtain s where s: "do_subscribe t p subj q c w1 = Some (s, c', w')" "r = Ok s"
      by (auto simp: subscribe_def split: bind_splits)
    from do_subscribe_steps [OF ok s(1)] w1 s(2) show ?thesis
      by (auto intro: by_steps_trans [OF by_steps_same])
  qed
qed

lemma try_subscribe_steps:
  assumes ok: "channel_ok t chan used" and "try_subscribe t subj q c w = Some (r, c', w')"
  shows "by_steps chan used c w c' w' \<and> c_quick_info c' = c_quick_info c \<and>
    (case r of Inr s \<Rightarrow> (\<exists>x. chan w' = chan w @ [Cmd_Subscribe (s_id s) subj q x]) \<and> s_id s = next_subscription_id c
     | Inl _ \<Rightarrow> chan w' = chan w \<and> c' = c)"
proof -
  obtain p w1 where 1: "c_try_reserve t w = (p, w1)" by fastforce
  note w1 = channel_okD(2) [OF ok 1]
  show ?thesis
  proof (cases p)
    case (Inl _)
    with assms(2) 1 w1 show ?thesis by (auto simp: try_subscribe_def by_steps_same)
  next
    case (Inr p)
    with assms(2) 1 obtain s where s: "do_subscribe t p subj q c w1 = Some (s, c', w')" "r = Ok s"
      by (auto simp: try_subscribe_def split: bind_splits)
    from do_subscribe_steps [OF ok s(1)] w1 s(2) show ?thesis
      by (auto intro: by_steps_trans [OF by_steps_same])
  qed
qed

lemma inbox_starts_with: "inbox_subject dbg big b p = Some s \<Longrightarrow> starts_with (subject_as_str s) (subject_as_str p)"
  by (auto simp: inbox_subject_def subject_from_dangerous_value_def split: bind_splits if_splits)

lemma do_multiplexed_request_steps:
  assumes ok: "channel_ok t chan used" and "do_multiplexed_request t dbg p subj hdrs b c w = Some (m, w')"
  shows "by_steps chan used c w c w' \<and>
    (\<exists>reply q o'. m = Some (reply, q) \<and> chan w' = chan w @ [Cmd_RequestMultiplexed subj reply hdrs b o'] \<and>
      starts_with (subject_as_str reply) (subject_as_str (c_multiplexed_subscription_prefix c)))"
proof -
  obtain o' q w1 where 1: "oneshot_channel t w = ((o', q), w1)" by (metis surj_pair)
  obtain x w2 where 2: "rand_fill t 16 w1 = (x, w2)" by fastforce
  with assms(2) 1 obtain reply where r: "inbox_subject dbg (big_endian t) x (c_multiplexed_subscription_prefix c) = Some reply"
      "w' = permit_send t p (Cmd_RequestMultiplexed subj reply hdrs b o') w2" "m = Some (reply, q)"
    by (auto simp: do_multiplexed_request_def create_inbox_subject_def multiplexed_new_def split: bind_splits)
  have "chan w' = chan w @ [Cmd_RequestMultiplexed subj reply hdrs b o']" "used w' = used w"
    using channel_okD(3) [OF ok] channel_okD(6) [OF ok 1] channel_okD(7) [OF ok 2] r(2) by simp_all
  with r(3) inbox_starts_with [OF r(1)] show ?thesis
    using by_steps_command [of c "Cmd_RequestMultiplexed subj reply hdrs b o'" chan w' w used] by simp
qed

lemma multiplexed_request_steps:
  assumes ok: "channel_ok t chan used" and "multiplexed_request t dbg subj hdrs b c w = Some (r, w')"
  shows "by_steps chan used c w c w' \<and> (case r of Inl _ \<Rightarrow> chan w' = chan w
    | Inr m \<Rightarrow> \<exists>reply q o'. m = Some (reply, q) \<and> chan w' = chan w @ [Cmd_RequestMultiplexed subj reply hdrs b o'] \<and>
      starts_with (subject_as_str reply) (subject_as_str (c_multiplexed_subscription_prefix c)))"
proof -
  obtain p w1 where 1: "c_reserve t w = Some (p, w1)"
    using assms(2) by (auto simp: multiplexed_request_def split: bind_splits)
  note w1 = channel_okD(1) [OF ok 1]
  show ?thesis
  proof (cases p)
    case (Inl _)
    with assms(2) 1 w1 show ?thesis by (auto simp: multiplexed_request_def by_steps_same)
  next
    case (Inr p)
    with assms(2) 1 obtain s where s: "do_multiplexed_request t dbg p subj hdrs b c w1 = Some (s, w')" "r = Ok s"
      by (auto simp: multiplexed_request_def split: bind_splits)
    from do_multiplexed_request_steps [OF ok s(1)] w1 s(2) show ?thesis
      by (auto intro: by_steps_trans [OF by_steps_same])
  qed
qed

lemma try_multiplexed_request_steps:
  assumes ok: "channel_ok t chan used" and "try_multiplexed_request t dbg subj hdrs b c w = Some (r, w')"
  shows "by_steps chan used c w c w' \<and> (case r of Inl _ \<Rightarrow> chan w' = chan w
    | Inr m \<Rightarrow> \<exists>reply q o'. m = Some (reply, q) \<and> chan w' = chan w @ [Cmd_RequestMultiplexed subj reply hdrs b o'] \<and>
      starts_with (subject_as_str reply) (subject_as_str (c_multiplexed_subscription_prefix c)))"
proof -
  obtain p w1 where 1: "c_try_reserve t w = (p, w1)" by fastforce
  note w1 = channel_okD(2) [OF ok 1]
  show ?thesis
  proof (cases p)
    case (Inl _)
    with assms(2) 1 w1 show ?thesis by (auto simp: try_multiplexed_request_def by_steps_same)
  next
    case (Inr p)
    with assms(2) 1 obtain s where s: "do_multiplexed_request t dbg p subj hdrs b c w1 = Some (s, w')" "r = Ok s"
      by (auto simp: try_multiplexed_request_def split: bind_splits)
    from do_multiplexed_request_steps [OF ok s(1)] w1 s(2) show ?thesis
      by (auto intro: by_steps_trans [OF by_steps_same])
  qed
qed

lemma enqueue_command_steps:
  assumes ok: "channel_ok t chan used" and "command_of_client c cmd" and "enqueue_command t cmd w = Some (r, w')"
  shows "by_steps chan used c w c w' \<and> chan w' = (if is_ok r then chan w @ [cmd] else chan w)"
proof -
  obtain x where "c_send t cmd w = Some (x, w')" "r = map_err (\<lambda>_. ClientClosedError) x"
    using assms(3) by (auto simp: enqueue_command_def split: bind_splits)
  with channel_okD(4) [OF ok this(1)] assms(2) show ?thesis
    by (cases x) (auto intro: by_steps_command by_steps_same)
qed

lemma try_enqueue_command_steps:
  assumes ok: "channel_ok t chan used" and "command_of_client c cmd" and "try_enqueue_command t cmd w = (r, w')"
  shows "by_steps chan used c w c w' \<and> chan w' = (if is_ok r then chan w @ [cmd] else chan w)"
proof -
  obtain x where "c_try_send t cmd w = (x, w')" "r = map_err from_try_send_error x"
    using assms(3) by (auto simp: try_enqueue_command_def split: prod.splits)
  with channel_okD(5) [OF ok this(1)] assms(2) show ?thesis
    by (cases x) (auto intro: by_steps_command by_steps_same)
qed

lemma lazy_unsubscribe_steps:
  assumes ok: "channel_ok t chan used" and "lazy_unsubscribe t sid n c w = (c', w')" and "n \<noteq> Some 0"
  shows "by_steps chan used c w c' w' \<and>
    (chan w' = chan w @ [Cmd_Unsubscribe sid n] \<or> chan w' = chan w \<and> is_failed_unsubscribe (client_quick_info c'))"
proof -
  obtain r w1 where r: "c_try_send t (Cmd_Unsubscribe sid n) w = (r, w1)" by fastforce
  have "by_steps chan used c w c' w'"
    using lazy_command_steps [OF ok _ assms(2) [unfolded lazy_unsubscribe_def]] assms(3) by simp
  with assms(2) r channel_okD(5) [OF ok r] show ?thesis
    by (cases r) (auto simp: lazy_unsubscribe_def lazy_command_def try_enqueue_command_def client_quick_info_def)
qed

lemma subscription_drop_steps:
  assumes ok: "channel_ok t chan used" and "subscription_drop t v s c w = (c', w')"
  shows "by_steps chan used c w c' w'"
  using assms lazy_unsubscribe_steps [OF ok, of "s_id s" None c w c' w']
  by (auto simp: subscription_drop_def by_steps_same split: if_splits)

text \<open>What a request that was sent left in the channel.\<close>

definition sent_request ::
    "request \<Rightarrow> client \<Rightarrow> client \<Rightarrow> ('s, 'o) handler_command list \<Rightarrow> ('x, 'q) response_fut \<Rightarrow> bool" where
  "sent_request r c c' cmds f \<longleftrightarrow>
     (case p_reply_subject (rq_publish r) of
        Some reply \<Rightarrow> \<exists>sub s unsub. rf_subscription f = Resp_Subscription sub \<and> s_id sub = next_subscription_id c \<and>
          cmds = Cmd_Subscribe (s_id sub) reply None s # unsub @ [Cmd_Publish (into_message_base (rq_publish r))] \<and>
          (unsub = [Cmd_Unsubscribe (s_id sub) (Some 1)] \<or> unsub = [] \<and> is_failed_unsubscribe (client_quick_info c'))
      | None \<Rightarrow> \<exists>reply q o'. rf_subscription f = Resp_Multiplexed (Some (reply, q)) \<and>
          starts_with (subject_as_str reply) (subject_as_str (c_multiplexed_subscription_prefix c)) \<and>
          cmds = [Cmd_RequestMultiplexed (p_subject (rq_publish r)) reply (p_headers (rq_publish r)) (p_payload (rq_publish r)) o'])"

definition clock_apart :: "('w, 'z) clock_ops_scheme \<Rightarrow> ('w \<Rightarrow> 'a) \<Rightarrow> ('w \<Rightarrow> 'b) \<Rightarrow> bool" where
  "clock_apart clk chan used \<longleftrightarrow> (\<forall>w t w'. now clk w = (t, w') \<longrightarrow> chan w' = chan w \<and> used w' = used w)"

lemma response_fut_new_apart:
  assumes "clock_apart clk chan used" and "response_fut_new clk r c x w = (f, w')"
  shows "chan w' = chan w \<and> used w' = used w \<and> rf_subscription f = x"
  using assms by (auto simp: response_fut_new_def clock_apart_def split: prod.splits)

definition request_result ::
    "('w \<Rightarrow> ('s, 'o) handler_command list) \<Rightarrow> ('w \<Rightarrow> 's set) \<Rightarrow> request \<Rightarrow> client \<Rightarrow> 'w \<Rightarrow>
     'e + ('x, 'q) response_fut \<Rightarrow> client \<Rightarrow> 'w \<Rightarrow> bool" where
  "request_result chan used r c w x c' w' \<longleftrightarrow> by_steps chan used c w c' w' \<and>
     (case x of Inl _ \<Rightarrow> True | Inr f \<Rightarrow> \<exists>cmds. chan w' = chan w @ cmds \<and> sent_request r c c' cmds f)"

lemma request_result_Err: "by_steps chan used c w c' w' \<Longrightarrow> request_result chan used r c w (Err e) c' w'"
  by (simp add: request_result_def)

lemma request_result_multiplexed:
  assumes clk: "clock_apart clk chan used" and "p_reply_subject (rq_publish r) = None" and "by_steps chan used c w c w1"
    and "m = Some (reply, q)" and "starts_with (subject_as_str reply) (subject_as_str (c_multiplexed_subscription_prefix c))"
    and "chan w1 = chan w @ [Cmd_RequestMultiplexed (p_subject (rq_publish r)) reply (p_headers (rq_publish r)) (p_payload (rq_publish r)) o']"
    and f: "response_fut_new clk r c (Resp_Multiplexed m) w1 = (f, w2)"
  shows "request_result chan used r c w (Ok f) c w2"
  using assms(2-6) response_fut_new_apart [OF clk f]
  by (auto simp: request_result_def sent_request_def intro: by_steps_trans [OF _ by_steps_same])

lemma request_result_subscription:
  assumes ok: "channel_ok t chan used" and clk: "clock_apart clk chan used"
    and reply: "p_reply_subject (rq_publish r) = Some reply" and s1: "by_steps chan used c w c1 w1"
    and sub: "chan w1 = chan w @ [Cmd_Subscribe (s_id sub) reply None s]" "s_id sub = next_subscription_id c"
    and u: "lazy_unsubscribe t (s_id sub) (Some 1) c1 w1 = (c2, w2)"
    and p: "by_steps chan used c2 w2 c2 w3" "chan w3 = chan w2 @ [Cmd_Publish (into_message_base (rq_publish r))]"
    and f: "response_fut_new clk r c2 (Resp_Subscription sub) w3 = (f, w4)"
  shows "request_result chan used r c w (Ok f) c2 w4"
proof -
  note f = response_fut_new_apart [OF clk f]
  note s2 = lazy_unsubscribe_steps [OF ok u, simplified]
  have "by_steps chan used c w c2 w3" using s1 s2 p(1) by (blast intro: by_steps_trans)
  with f have "by_steps chan used c w c2 w4" by (auto intro: by_steps_trans [OF _ by_steps_same])
  moreover have "\<exists>cmds. chan w4 = chan w @ cmds \<and> sent_request r c c2 cmds f"
    using s2 sub p(2) f reply by (auto simp: sent_request_def)
  ultimately show ?thesis by (simp add: request_result_def)
qed

lemma do_request_steps:
  fixes t :: "('s, 'x, 'o, 'q, 'p, 'w) client_ops" and v :: "('x, 'q, 'w) receiver_ops"
  assumes ok: "channel_ok t chan used" and clk: "clock_apart clk chan used"
    and "do_request t v clk dbg r c w = Some (x, c', w')"
  shows "request_result chan used r c w x c' w'"
proof (cases "p_reply_subject (rq_publish r)")
  case None
  with assms(3) obtain y w1 where 1: "multiplexed_request t dbg (p_subject (rq_publish r)) (p_headers (rq_publish r))
      (p_payload (rq_publish r)) c w = Some (y, w1)"
    by (auto simp: do_request_def split: bind_splits)
  note s1 = multiplexed_request_steps [OF ok 1]
  show ?thesis
  proof (cases y)
    case (Inl _)
    with assms(3) None 1 s1 show ?thesis by (auto simp: do_request_def intro: request_result_Err)
  next
    case (Inr m)
    obtain f :: "('x, 'q) response_fut" and w2 where f: "response_fut_new clk r c (Resp_Multiplexed m) w1 = (f, w2)"
      by fastforce
    with assms(3) None 1 Inr have "x = Ok f" "c' = c" "w' = w2" by (auto simp: do_request_def)
    with s1 Inr None f show ?thesis by (auto intro: request_result_multiplexed [OF clk])
  qed
next
  case (Some reply)
  with assms(3) obtain y c1 w1 where 1: "subscribe t reply None c w = Some (y, c1, w1)"
    by (auto simp: do_request_def split: bind_splits)
  note s1 = subscribe_steps [OF ok 1]
  show ?thesis
  proof (cases y)
    case (Inl _)
    with assms(3) Some 1 s1 show ?thesis by (auto simp: do_request_def intro: request_result_Err)
  next
    case (Inr sub)
    obtain c2 w2 where 2: "lazy_unsubscribe t (s_id sub) (Some 1) c1 w1 = (c2, w2)" by fastforce
    from assms(3) Some 1 Inr 2 obtain z w3 where 3: "do_publish t (rq_publish r) w2 = Some (z, w3)"
      by (auto simp: do_request_def split: bind_splits)
    note s3 = enqueue_command_steps [OF ok _ 3 [unfolded do_publish_def], of c2, simplified]
    have s: "by_steps chan used c w c2 w3"
      using s1 lazy_unsubscribe_steps [OF ok 2] s3 by (auto intro: by_steps_trans)
    show ?thesis
    proof (cases z)
      case (Inl _)
      with assms(3) Some 1 Inr 2 3 obtain e where "subscription_drop t v sub c2 w3 = (c', w')" "x = Err e"
        by (auto simp: do_request_def split: prod.splits)
      with s subscription_drop_steps [OF ok this(1)] show ?thesis by (auto intro: by_steps_trans request_result_Err)
    next
      case z: (Inr _)
      obtain f :: "('x, 'q) response_fut" and w4 where f: "response_fut_new clk r c2 (Resp_Subscription sub) w3 = (f, w4)"
        by fastforce
      with assms(3) Some 1 Inr 2 3 z have "x = Ok f" "c' = c2" "w' = w4" by (auto simp: do_request_def)
      with s1 s3 Inr z show ?thesis by (auto intro: request_result_subscription [OF ok clk Some _ _ _ 2 _ _ f])
    qed
  qed
qed

lemma try_request_steps:
  fixes t :: "('s, 'x, 'o, 'q, 'p, 'w) client_ops" and v :: "('x, 'q, 'w) receiver_ops"
  assumes ok: "channel_ok t chan used" and clk: "clock_apart clk chan used"
    and "try_request t v clk dbg r c w = Some (x, c', w')"
  shows "request_result chan used r c w x c' w'"
proof (cases "p_reply_subject (rq_publish r)")
  case None
  with assms(3) obtain y w1 where 1: "try_multiplexed_request t dbg (p_subject (rq_publish r)) (p_headers (rq_publish r))
      (p_payload (rq_publish r)) c w = Some (y, w1)"
    by (auto simp: try_request_def split: bind_splits)
  note s1 = try_multiplexed_request_steps [OF ok 1]
  show ?thesis
  proof (cases y)
    case (Inl _)
    with assms(3) None 1 s1 show ?thesis by (auto simp: try_request_def intro: request_result_Err)
  next
    case (Inr m)
    obtain f :: "('x, 'q) response_fut" and w2 where f: "response_fut_new clk r c (Resp_Multiplexed m) w1 = (f, w2)"
      by fastforce
    with assms(3) None 1 Inr have "x = Ok f" "c' = c" "w' = w2" by (auto simp: try_request_def)
    with s1 Inr None f show ?thesis by (auto intro: request_result_multiplexed [OF clk])
  qed
next
  case (Some reply)
  with assms(3) obtain y c1 w1 where 1: "try_subscribe t reply None c w = Some (y, c1, w1)"
    by (auto simp: try_request_def split: bind_splits)
  note s1 = try_subscribe_steps [OF ok 1]
  show ?thesis
  proof (cases y)
    case (Inl _)
    with assms(3) Some 1 s1 show ?thesis by (auto simp: try_request_def intro: request_result_Err)
  next
    case (Inr sub)
    obtain c2 w2 where 2: "lazy_unsubscribe t (s_id sub) (Some 1) c1 w1 = (c2, w2)" by fastforce
    obtain z w3 where 3: "try_publish t (rq_publish r) w2 = (z, w3)" by fastforce
    note s3 = try_enqueue_command_steps [OF ok _ 3 [unfolded try_publish_def], of c2, simplified]
    have s: "by_steps chan used c w c2 w3"
      using s1 lazy_unsubscribe_steps [OF ok 2] s3 by (auto intro: by_steps_trans)
    show ?thesis
    proof (cases z)
      case (Inl _)
      with assms(3) Some 1 Inr 2 3 obtain e where "subscription_drop t v sub c2 w3 = (c', w')" "x = Err e"
        by (auto simp: try_request_def split: prod.splits)
      with s subscription_drop_steps [OF ok this(1)] show ?thesis by (auto intro: by_steps_trans request_result_Err)
    next
      case z: (Inr _)
      obtain f :: "('x, 'q) response_fut" and w4 where f: "response_fut_new clk r c2 (Resp_Subscription sub) w3 = (f, w4)"
        by fastforce
      with assms(3) Some 1 Inr 2 3 z have "x = Ok f" "c' = c2" "w' = w4" by (auto simp: try_request_def)
      with s1 s3 Inr z show ?thesis by (auto intro: request_result_subscription [OF ok clk Some _ _ _ 2 _ _ f])
    qed
  qed
qed

section \<open>The handler and the reply\<close>

lemma bt_get_inserted [simp]: "bt_get key k (bt_insert key k v m) = Some v"
  by (induction m) auto

text \<open>A request that was sent, as the handler has handled it: \<open>ops\<close> is what it enqueued for the server, and
  \<open>answer message\<close> what it does with a reply.\<close>

definition request_handled ::
    "('c, 's, 'o, 'w, 'z) env_scheme \<Rightarrow> request \<Rightarrow> ('x, 'q) response_fut \<Rightarrow> ('s, 'o) handler_command list \<Rightarrow>
     ('c, 's, 'o) handler \<Rightarrow> ('c, 's, 'o) handler \<Rightarrow> bool" where
  "request_handled e r f cmds h h' \<longleftrightarrow>
     (case rf_subscription f of
        Resp_Subscription sub \<Rightarrow>
          (\<exists>reply s. p_reply_subject (rq_publish r) = Some reply \<and> cmds \<noteq> [] \<and> hd cmds = Cmd_Subscribe (s_id sub) reply None s \<and>
             (let limited = length cmds = 3 in
              enqueue_all e (C_Subscribe (s_id sub) reply None # (if limited then [C_Unsubscribe (s_id sub) (Some 1)] else []) @
                [C_Publish (into_message_base (rq_publish r))]) (conn h) = Some (conn h') \<and>
              (\<forall>message w sent w'. subscription_id message = s_id sub \<longrightarrow>
                 try_send e s (Ok message) w = (sent, w') \<longrightarrow> sent \<noteq> Closed \<longrightarrow> s_id sub \<noteq> MULTIPLEXED_SUBSCRIPTION_ID \<longrightarrow>
                 handle_server_op e (S_Message message) h' w = Some (None,
                   if limited then h'\<lparr>subscriptions := bt_remove sub_key (s_id sub) (subscriptions h')\<rparr> else h', w'))))
      | Resp_Multiplexed m \<Rightarrow>
          (\<exists>reply q sender. m = Some (reply, q) \<and>
             enqueue_all e ((if multiplexed_subscriptions h = None
                 then [C_Subscribe MULTIPLEXED_SUBSCRIPTION_ID (Subject (subject_as_str (multiplexed_subscription_prefix h) @ ''.*'')) None]
                 else []) @
               [C_Publish ((into_message_base (rq_publish r))\<lparr>msg_reply_subject := Some reply\<rparr>)]) (conn h) = Some (conn h') \<and>
             (\<forall>message w. subscription_id message = MULTIPLEXED_SUBSCRIPTION_ID \<longrightarrow> msg_subject (base message) = reply \<longrightarrow>
                handle_server_op e (S_Message message) h' w = Some (None,
                  h'\<lparr>multiplexed_subscriptions := map_option (bt_remove subject_as_str reply) (multiplexed_subscriptions h')\<rparr>,
                  oneshot_send e sender message w))))"

lemma init_multiplexed_Some:
  assumes "init_multiplexed_subscriptions e dbg h = Some h'"
  shows "multiplexed_subscriptions h' = Some [] \<and> enqueue_all e
    [C_Subscribe MULTIPLEXED_SUBSCRIPTION_ID (Subject (subject_as_str (multiplexed_subscription_prefix h) @ ''.*'')) None]
    (conn h) = Some (conn h')"
  using assms
  by (auto simp: init_multiplexed_subscriptions_def h_enqueue_def subject_from_dangerous_value_def push_in_flight_def
      split: bind_splits if_splits)

lemma request_multiplexed_handled:
  assumes "handle_commands e dbg [Cmd_RequestMultiplexed subj reply hdrs b sender] h = Some h'"
  shows "enqueue_all e ((if multiplexed_subscriptions h = None
        then [C_Subscribe MULTIPLEXED_SUBSCRIPTION_ID (Subject (subject_as_str (multiplexed_subscription_prefix h) @ ''.*'')) None]
        else []) @
      [C_Publish \<lparr> msg_subject = subj, msg_reply_subject = Some reply, msg_headers = hdrs, msg_payload = b \<rparr>]) (conn h) = Some (conn h') \<and>
    (\<exists>m. multiplexed_subscriptions h' = Some m \<and> bt_get subject_as_str reply m = Some sender)"
proof -
  let ?h = "h\<lparr>recv_buf := []\<rparr>"
  obtain h1 where h1: "(case multiplexed_subscriptions ?h of Some _ \<Rightarrow> Some ?h | None \<Rightarrow> init_multiplexed_subscriptions e dbg ?h) = Some h1"
      "h_enqueue e (C_Publish \<lparr> msg_subject = subj, msg_reply_subject = Some reply, msg_headers = hdrs, msg_payload = b \<rparr>)
        ((push_in_flight Unimportant h1)\<lparr>multiplexed_subscriptions :=
          map_option (bt_insert subject_as_str reply sender) (multiplexed_subscriptions (push_in_flight Unimportant h1))\<rparr>) = Some h'"
    using assms by (auto simp: Let_def split: bind_splits)
  have "\<exists>m. multiplexed_subscriptions h1 = Some m"
      "enqueue_all e (if multiplexed_subscriptions h = None
        then [C_Subscribe MULTIPLEXED_SUBSCRIPTION_ID (Subject (subject_as_str (multiplexed_subscription_prefix h) @ ''.*'')) None]
        else []) (conn h) = Some (conn h1)"
    using h1(1) init_multiplexed_Some [of e dbg ?h h1] by (auto split: option.splits)
  with h1(2) show ?thesis
    by (auto simp: enqueue_all_append h_enqueue_def)
qed

lemma request_subscription_handled:
  assumes "handle_commands e dbg (Cmd_Subscribe sid reply None s # unsub @ [Cmd_Publish message]) h = Some h'"
    and "unsub = [Cmd_Unsubscribe sid (Some 1)] \<or> unsub = []"
  shows "enqueue_all e (C_Subscribe sid reply None # (if unsub = [] then [] else [C_Unsubscribe sid (Some 1)]) @
        [C_Publish message]) (conn h) = Some (conn h') \<and>
    bt_get sub_key sid (subscriptions h') = Some \<lparr> sub_subject = reply, sub_queue_group = None, messages = s,
      remaining = (if unsub = [] then None else Some 1), failed_subscribe = False \<rparr>"
  using assms by (auto simp: h_enqueue_def push_in_flight_def split: bind_splits)

lemma limited_answer:
  assumes "bt_get sub_key sid (subscriptions h) = Some sub" and "remaining sub = None \<or> remaining sub = Some 1"
    and "subscription_id message = sid" and "sid \<noteq> MULTIPLEXED_SUBSCRIPTION_ID"
    and "try_send e (messages sub) (Ok message) w = (sent, w')" and "sent \<noteq> Closed"
  shows "handle_server_op e (S_Message message) h w = Some (None,
    if remaining sub = Some 1 then h\<lparr>subscriptions := bt_remove sub_key sid (subscriptions h)\<rparr> else h, w')"
  using assms by (auto simp: handle_message_def dec_remaining_def)

lemma sent_request_handled:
  assumes sent: "sent_request r c c' cmds f" and h: "handle_commands e dbg cmds h = Some h'"
  shows "request_handled e r f cmds h h'"
proof (cases "p_reply_subject (rq_publish r)")
  case None
  with sent obtain reply q sender where f: "rf_subscription f = Resp_Multiplexed (Some (reply, q))"
      "cmds = [Cmd_RequestMultiplexed (p_subject (rq_publish r)) reply (p_headers (rq_publish r)) (p_payload (rq_publish r)) sender]"
    by (auto simp: sent_request_def)
  note m = request_multiplexed_handled [OF h [unfolded f(2)]]
  have "handle_server_op e (S_Message message) h' w = Some (None,
      h'\<lparr>multiplexed_subscriptions := map_option (bt_remove subject_as_str reply) (multiplexed_subscriptions h')\<rparr>,
      oneshot_send e sender message w)"
    if "subscription_id message = MULTIPLEXED_SUBSCRIPTION_ID" "msg_subject (base message) = reply" for message w
    using m that by (auto simp: handle_multiplexed_def)
  with m show ?thesis
    unfolding request_handled_def f(1) response_subscription.case into_message_base_def
    by (intro exI [of _ reply] exI [of _ q] exI [of _ sender]) (simp del: handle_server_op.simps)
next
  case (Some reply)
  with sent obtain sub s unsub where f: "rf_subscription f = Resp_Subscription sub"
      "cmds = Cmd_Subscribe (s_id sub) reply None s # unsub @ [Cmd_Publish (into_message_base (rq_publish r))]"
      and u: "unsub = [Cmd_Unsubscribe (s_id sub) (Some 1)] \<or> unsub = []"
    by (auto simp: sent_request_def)
  note m = request_subscription_handled [OF h [unfolded f(2)] u]
  have l: "length cmds = 3 \<longleftrightarrow> unsub \<noteq> []" using f(2) u by auto
  have "handle_server_op e (S_Message message) h' w = Some (None,
      if length cmds = 3 then h'\<lparr>subscriptions := bt_remove sub_key (s_id sub) (subscriptions h')\<rparr> else h', w')"
    if "subscription_id message = s_id sub" "try_send e s (Ok message) w = (b, w')" "b \<noteq> Closed"
      "s_id sub \<noteq> MULTIPLEXED_SUBSCRIPTION_ID" for message w b w'
    using limited_answer [OF conjunct2 [OF m], of message e w b w'] that l by simp
  with m f Some l show ?thesis
    by (auto simp: request_handled_def Let_def simp del: handle_server_op.simps)
qed

section \<open>The response\<close>

lemma response_poll_outcome:
  assumes clk: "clock_ok clk time" and "response_poll clk v dbg f w = Some (x, f', w')"
  shows "rf_timeout f' = rf_timeout f \<and> (x = Ready (Err Resp_TimedOut) \<longrightarrow> rf_timeout f \<le> time w') \<and>
    (\<forall>m. x = Ready (Ok m) \<longrightarrow> status_code m \<noteq> Some NO_RESPONDERS)"
  using assms(2) clk
  by (auto simp: response_poll_def poll_timeout_def response_message_def clock_ok_def Let_def
      split: response_subscription.splits bind_splits poll.splits sum.splits option.splits prod.splits if_splits)

text \<open>The debug assertions of the commands hold, so the handler does not stop on them.\<close>

lemma h_enqueue_total:
  assumes "\<And>op cn. env.enqueue_write_op e op cn \<noteq> None"
  shows "\<exists>h'. h_enqueue e op h = Some h'"
  using assms [of op "conn h"] by (auto simp: h_enqueue_def)

fun plain_command :: "('s, 'o) handler_command \<Rightarrow> bool" where
  "plain_command (Cmd_Publish _) \<longleftrightarrow> True"
| "plain_command (Cmd_Subscribe _ _ _ _) \<longleftrightarrow> True"
| "plain_command (Cmd_Unsubscribe _ _) \<longleftrightarrow> True"
| "plain_command _ \<longleftrightarrow> False"

lemma handle_commands_total:
  assumes "\<And>op cn. env.enqueue_write_op e op cn \<noteq> None" and "\<forall>cmd\<in>set cmds. plain_command cmd"
  shows "\<exists>h'. handle_commands e dbg cmds h = Some h'"
  using assms(2)
proof (induction cmds arbitrary: h)
  case (Cons cmd cmds)
  have "\<exists>h'. handle_command e dbg cmd h = Some h'" for h
    using Cons.prems h_enqueue_total [OF assms(1)] by (cases "(e, dbg, cmd, h)" rule: handle_command.cases)
      (auto split: option.splits)
  from this [of "h\<lparr>recv_buf := cmds\<rparr>"] obtain h1 where "handle_command e dbg cmd (h\<lparr>recv_buf := cmds\<rparr>) = Some h1" ..
  with Cons show ?case by simp
qed simp

lemma sent_request_total:
  assumes sent: "sent_request r c c' cmds f" and "multiplexed_subscription_prefix h = c_multiplexed_subscription_prefix c"
    and "\<And>op cn. env.enqueue_write_op e op cn \<noteq> None"
    and "subject_from_dangerous_value dbg (subject_as_str (multiplexed_subscription_prefix h) @ ''.*'') \<noteq> None"
  shows "\<exists>h'. handle_commands e dbg cmds h = Some h'"
proof -
  note enq = h_enqueue_total [OF assms(3)]
  show ?thesis
  proof (cases "p_reply_subject (rq_publish r)")
    case None
    with sent obtain reply sender where cmds: "cmds = [Cmd_RequestMultiplexed (p_subject (rq_publish r)) reply
          (p_headers (rq_publish r)) (p_payload (rq_publish r)) sender]"
        "starts_with (subject_as_str reply) (subject_as_str (c_multiplexed_subscription_prefix c))"
      by (auto simp: sent_request_def)
    have "\<exists>h1. (case multiplexed_subscriptions g of Some _ \<Rightarrow> Some g | None \<Rightarrow> init_multiplexed_subscriptions e dbg g) = Some h1"
      if "multiplexed_subscription_prefix g = multiplexed_subscription_prefix h" for g
      using that assms(4) enq
      by (cases "multiplexed_subscriptions g")
        (fastforce simp: init_multiplexed_subscriptions_def Let_def push_in_flight_def bind_eq_Some_conv)+
    from this [of "h\<lparr>recv_buf := []\<rparr>"] obtain h1 where
      "(case multiplexed_subscriptions (h\<lparr>recv_buf := []\<rparr>) of Some _ \<Rightarrow> Some (h\<lparr>recv_buf := []\<rparr>)
        | None \<Rightarrow> init_multiplexed_subscriptions e dbg (h\<lparr>recv_buf := []\<rparr>)) = Some h1" by auto
    with cmds assms(2) enq show ?thesis by (simp add: debug_assert_def Let_def bind_eq_Some_conv)
  next
    case (Some reply)
    with sent obtain sid s unsub where cmds: "cmds = Cmd_Subscribe sid reply None s # unsub @ [Cmd_Publish (into_message_base (rq_publish r))]"
        "unsub = [Cmd_Unsubscribe sid (Some 1)] \<or> unsub = []"
      by (auto simp: sent_request_def)
    then have "\<forall>cmd\<in>set cmds. plain_command cmd" by auto
    then show ?thesis by (rule handle_commands_total [OF assms(3)])
  qed
qed

section \<open>A channel\<close>

text \<open>A channel that is a list, the senders of whose subscriptions are numbered, and a clock that stands still.\<close>

definition list_ops :: "(nat, nat, unit, unit, unit, (nat, unit) handler_command list \<times> nat) client_ops" where
  "list_ops = \<lparr> c_reserve = (\<lambda>w. Some (Ok (), w)), c_try_reserve = (\<lambda>w. (Ok (), w)),
     permit_send = (\<lambda>_ cmd (q, n). (q @ [cmd], n)), c_send = (\<lambda>cmd (q, n). Some (Ok (), (q @ [cmd], n))),
     c_try_send = (\<lambda>cmd (q, n). (Ok (), (q @ [cmd], n))), mpsc_channel = (\<lambda>_ (q, n). ((n, n), (q, Suc n))),
     oneshot_channel = (\<lambda>w. (((), ()), w)), rand_fill = (\<lambda>n w. (replicate n (CHR ''a''), w)), big_endian = False,
     shutdown_try_send = (\<lambda>w. (True, w)), shutdown_closed = Some, abort_handler = (\<lambda>w. w) \<rparr>"

definition list_receivers :: "(nat, unit, (nat, unit) handler_command list \<times> nat) receiver_ops" where
  "list_receivers = \<lparr> recv_is_closed = (\<lambda>_ _. False), recv_poll_many = (\<lambda>_ _ w. (Pending, w)),
     oneshot_poll = (\<lambda>_ w. (Pending, w)) \<rparr>"

definition still_clock :: "nat \<Rightarrow> 'w clock_ops" where
  "still_clock t = \<lparr> now = (\<lambda>w. (t, w)), poll_sleep = (\<lambda>d w. (d \<le> t, w)) \<rparr>"

lemma list_ops_ok: "channel_ok list_ops fst (\<lambda>w. {..<snd w})"
  by (auto simp: channel_ok_def list_ops_def lessThan_Suc)

lemma still_clock_ok: "clock_apart (still_clock t) chan used" "clock_ok (still_clock t) (\<lambda>_. t)"
  by (auto simp: clock_apart_def clock_ok_def still_clock_def)

definition reply_request :: request where
  "reply_request = request_reply_subject (Some (Subject ''r'')) (request_subject (Subject ''a''))"

definition reply_commands :: "(nat, unit) handler_command list" where
  "reply_commands = [Cmd_Subscribe 2 (Subject ''r'') None 0, Cmd_Unsubscribe 2 (Some 1),
     Cmd_Publish (into_message_base (rq_publish reply_request))]"

definition reply_fut :: "(nat, unit) response_fut" where
  "reply_fut = \<lparr> rf_subscription = Resp_Subscription (subscription_new 2 0), rf_timeout = 7 + from_secs 5 \<rparr>"

lemma reply_request_sent:
  "do_request list_ops list_receivers (still_clock 7) True reply_request one_client ([], 0) =
     Some (Ok reply_fut, one_client\<lparr>next_subscription_id := 3\<rparr>, (reply_commands, 1))"
  by (simp add: do_request_def subscribe_def do_subscribe_def allocate_id_def reply_request_def request_reply_subject_def
      request_subject_def list_ops_def still_clock_def one_client_def client_inner_new_def client_builder_new_def
      MULTIPLEXED_SUBSCRIPTION_ID_def subscription_id_min_def subscription_id_max_def lazy_unsubscribe_def
      lazy_command_def try_enqueue_command_def do_publish_def enqueue_command_def response_fut_new_def
      subscription_new_def reply_commands_def reply_fut_def)

definition empty_env :: "(client_op list, nat, unit, (nat, unit) handler_command list \<times> nat) env" where
  "empty_env = \<lparr> now = (\<lambda>w. (0, w)), poll_sleep = (\<lambda>d w. (False, w)),
     enqueue_write_op = (\<lambda>op c. Some (c @ [op])), may_enqueue_more_ops = (\<lambda>c w. Some (True, c, w)),
     poll_read_next = (\<lambda>c w. Some (Pending, c, w)), is_streaming = (\<lambda>c. False), may_write = (\<lambda>c. None),
     poll_write_next = (\<lambda>c w. None), should_flush = (\<lambda>c. False), poll_flush = (\<lambda>c w. None),
     try_send = (\<lambda>s m w. (Sent, w)), is_closed = (\<lambda>s w. False), oneshot_send = (\<lambda>q m w. w),
     oneshot_is_closed = (\<lambda>q w. False), poll_recv_many = (\<lambda>n w. (Pending, w)),
     close_commands = (\<lambda>w. w), poll_shutdown = (\<lambda>w. (False, w)), has_budget_remaining = (\<lambda>w. True) \<rparr>"

section \<open>Properties\<close>





text \<open>C24: A response never times out before the timeout of its request, or of the client when the
  request has none, has passed since it was sent, however it was polled before; and no reply with
  the status of no responders is given out as a message.\<close>

theorem response_outcome:
  assumes "clock_ok clk time" and "response_fut_new clk r c subscription w0 = (f, w1)"
    and "rf_timeout g = rf_timeout f" and "response_poll clk v dbg g w = Some (x, g', w')"
  shows "rf_timeout g' = rf_timeout f \<and>
    (x = Ready (Err Resp_TimedOut) \<longrightarrow>
       time w0 + (case rq_response_timeout r of Some d \<Rightarrow> d | None \<Rightarrow> default_response_timeout c) \<le> time w') \<and>
    (\<forall>m. x = Ready (Ok m) \<longrightarrow> status_code m \<noteq> Some NO_RESPONDERS)"
proof -
  obtain t where t: "now clk w0 = (t, w1)"
      "rf_timeout f = t + (case rq_response_timeout r of Some d \<Rightarrow> d | None \<Rightarrow> default_response_timeout c)"
    using assms(2) by (auto simp: response_fut_new_def split: prod.splits)
  with assms(1) have "time w0 \<le> t" by (auto simp: clock_ok_def)
  with response_poll_outcome [OF assms(1,4)] assms(3) t(2) show ?thesis by auto
qed

lemma response_outcome_witness:
  "\<exists>g'. response_poll (still_clock (7 + from_secs 5)) list_receivers True reply_fut ([], 0) =
     Some (Ready (Err Resp_TimedOut), g', ([], 0)) \<and> rf_timeout g' = 7 + from_secs 5"
proof -
  let ?r = "request_response_timeout 0 reply_request" and ?t = "7 + from_secs 5"
  let ?sub = "Resp_Subscription (subscription_new 2 0)"
  have f: "response_fut_new (still_clock ?t) ?r one_client ?sub ([], 0) = (reply_fut, ([], 0))"
    by (simp add: response_fut_new_def still_clock_def request_response_timeout_def reply_fut_def)
  have p: "response_poll (still_clock ?t) list_receivers True reply_fut ([], 0) = Some (Ready (Err Resp_TimedOut), reply_fut, ([], 0))"
    by (simp add: response_poll_def reply_fut_def subscription_poll_next_def subscription_new_def vec_pop_def
        list_receivers_def poll_timeout_def still_clock_def)
  from response_outcome [OF still_clock_ok(2) f refl p] p show ?thesis by (simp add: reply_fut_def)
qed

end
