(* ===== verification/Json.thy ===== *)
theory Json
  imports Names Btree_Map
begin

text \<open>
  JSON as the JetStream API uses it. \<open>json\<close> is \<open>serde_json::Value\<close>; its text, and the timestamps of jiff, are
  operations of \<open>json_text\<close>. A struct that derives \<open>Serialize\<close> is the list of its fields, each with what its
  attributes make of it, and one that derives \<open>Deserialize\<close> looks its fields up by name. Then the modules of
  \<open>client/jetstream/resources/mod.rs\<close> that attributes name.
\<close>

datatype json = J_Null | J_Bool bool | J_Num int | J_Float bytes | J_Str bytes | J_Arr "json list"
  | J_Obj "(bytes \<times> json) list"

datatype json_error = Json_Syntax | Json_InvalidType | Json_OutOfRange | Json_MissingField bytes
  | Json_DuplicateField bytes | Json_UnknownVariant | Json_NoVariant | Json_Custom

record 't json_text =
  to_text :: "json \<Rightarrow> bytes"
  of_text :: "bytes \<Rightarrow> json_error + json"
  ts_to_text :: "'t \<Rightarrow> bytes"
  ts_of_text :: "bytes \<Rightarrow> json_error + 't"
  ts_constant :: "int \<Rightarrow> int \<Rightarrow> 't"

text \<open>What is documented: a time stamp that was written is read back.\<close>

definition timestamps_ok :: "('t, 'z) json_text_scheme \<Rightarrow> bool" where
  "timestamps_ok jx \<longleftrightarrow> (\<forall>t. ts_of_text jx (ts_to_text jx t) = Ok t)"

section \<open>Fields\<close>

text \<open>A field is left out when \<open>skip_serializing_if\<close> holds.\<close>

type_synonym field = "bytes \<times> (json_error + json) option"

definition field :: "bytes \<Rightarrow> json_error + json \<Rightarrow> field" where
  "field n r = (n, Some r)"

definition field_unless :: "bool \<Rightarrow> bytes \<Rightarrow> json_error + json \<Rightarrow> field" where
  "field_unless skip n r = (n, if skip then None else Some r)"

fun ser_fields :: "field list \<Rightarrow> json_error + (bytes \<times> json) list" where
  "ser_fields [] = Ok []"
| "ser_fields ((n, None) # fs) = ser_fields fs"
| "ser_fields ((n, Some r) # fs) = and_then r (\<lambda>j. map_ok ((#) (n, j)) (ser_fields fs))"

definition ser_struct :: "field list \<Rightarrow> json_error + json" where
  "ser_struct fs = map_ok J_Obj (ser_fields fs)"

text \<open>A field twice is an error, as it is for every deserializer that serde derives.\<close>

definition find_field :: "(bytes \<times> json) list \<Rightarrow> bytes \<Rightarrow> json_error + json option" where
  "find_field fs n =
     (case filter (\<lambda>p. fst p = n) fs of
        [] \<Rightarrow> Ok None
      | [p] \<Rightarrow> Ok (Some (snd p))
      | _ \<Rightarrow> Err (Json_DuplicateField n))"

definition required :: "(bytes \<times> json) list \<Rightarrow> bytes \<Rightarrow> (json \<Rightarrow> json_error + 'a) \<Rightarrow> json_error + 'a" where
  "required fs n de = and_then (find_field fs n) (\<lambda>j.
     case j of None \<Rightarrow> Err (Json_MissingField n) | Some j \<Rightarrow> de j)"

definition defaulted :: "(bytes \<times> json) list \<Rightarrow> bytes \<Rightarrow> 'a \<Rightarrow> (json \<Rightarrow> json_error + 'a) \<Rightarrow> json_error + 'a" where
  "defaulted fs n d de = and_then (find_field fs n) (\<lambda>j. case j of None \<Rightarrow> Ok d | Some j \<Rightarrow> de j)"

text \<open>\<open>Option<T>\<close>: absent and \<open>null\<close> are \<open>None\<close>.\<close>

definition de_option :: "(json \<Rightarrow> json_error + 'a) \<Rightarrow> json \<Rightarrow> json_error + 'a option" where
  "de_option de j = (if j = J_Null then Ok None else map_ok Some (de j))"

definition optional :: "(bytes \<times> json) list \<Rightarrow> bytes \<Rightarrow> (json \<Rightarrow> json_error + 'a) \<Rightarrow> json_error + 'a option" where
  "optional fs n de = defaulted fs n None (de_option de)"

definition ser_option :: "('a \<Rightarrow> json) \<Rightarrow> 'a option \<Rightarrow> json" where
  "ser_option ser x = (case x of None \<Rightarrow> J_Null | Some a \<Rightarrow> ser a)"

section \<open>Values\<close>

fun de_object :: "json \<Rightarrow> json_error + (bytes \<times> json) list" where
  "de_object (J_Obj fs) = Ok fs"
| "de_object _ = Err Json_InvalidType"

fun de_string :: "json \<Rightarrow> json_error + bytes" where
  "de_string (J_Str s) = Ok s"
| "de_string _ = Err Json_InvalidType"

fun de_bool :: "json \<Rightarrow> json_error + bool" where
  "de_bool (J_Bool b) = Ok b"
| "de_bool _ = Err Json_InvalidType"

fun de_int :: "int \<Rightarrow> int \<Rightarrow> json \<Rightarrow> json_error + int" where
  "de_int lo hi (J_Num i) = (if lo \<le> i \<and> i < hi then Ok i else Err Json_OutOfRange)"
| "de_int lo hi _ = Err Json_InvalidType"

definition de_unsigned :: "json \<Rightarrow> json_error + 'a::len word" where
  "de_unsigned j = map_ok of_int (de_int 0 (2 ^ LENGTH('a)) j)"

definition de_signed :: "json \<Rightarrow> json_error + 'a::len word" where
  "de_signed j = map_ok of_int (de_int (- (2 ^ (LENGTH('a) - 1))) (2 ^ (LENGTH('a) - 1)) j)"

fun de_list :: "(json \<Rightarrow> json_error + 'a) \<Rightarrow> json list \<Rightarrow> json_error + 'a list" where
  "de_list de [] = Ok []"
| "de_list de (j # js) = and_then (de j) (\<lambda>a. map_ok ((#) a) (de_list de js))"

fun de_array :: "(json \<Rightarrow> json_error + 'a) \<Rightarrow> json \<Rightarrow> json_error + 'a list" where
  "de_array de (J_Arr js) = de_list de js"
| "de_array de _ = Err Json_InvalidType"

text \<open>\<open>BTreeMap<String, String>\<close>: a key that comes again replaces its value.\<close>

fun de_string_map_from :: "(bytes, bytes) btree_map \<Rightarrow> (bytes \<times> json) list \<Rightarrow> json_error + (bytes, bytes) btree_map" where
  "de_string_map_from m [] = Ok m"
| "de_string_map_from m ((k, j) # fs) =
     and_then (de_string j) (\<lambda>v. de_string_map_from (bt_insert (\<lambda>k. k) k v m) fs)"

definition de_string_map :: "json \<Rightarrow> json_error + (bytes, bytes) btree_map" where
  "de_string_map j = and_then (de_object j) (de_string_map_from [])"

definition ser_string_map :: "(bytes, bytes) btree_map \<Rightarrow> json" where
  "ser_string_map m = J_Obj (map (\<lambda>(k, v). (k, J_Str v)) m)"

definition ser_unsigned :: "'a::len word \<Rightarrow> json" where "ser_unsigned n = J_Num (uint n)"
definition ser_signed :: "'a::len word \<Rightarrow> json" where "ser_signed n = J_Num (sint n)"

text \<open>\<open>NonZero\<close>, \<open>Subject\<close>, \<open>QueueGroup\<close> and \<open>Timestamp\<close>.\<close>

definition de_nonzero :: "json \<Rightarrow> json_error + 'a::len word" where
  "de_nonzero j = and_then (de_unsigned j) (\<lambda>n. if n = 0 then Err Json_OutOfRange else Ok n)"

definition de_subject :: "json \<Rightarrow> json_error + subject" where
  "de_subject j = and_then (de_string j) (\<lambda>s. map_ok (\<lambda>_. Subject s) (map_err (\<lambda>_. Json_Custom) (validate_subject s)))"

definition de_queue_group :: "json \<Rightarrow> json_error + queue_group" where
  "de_queue_group j = and_then (de_string j) (\<lambda>s.
     map_ok (\<lambda>_. QueueGroup s) (map_err (\<lambda>_. Json_Custom) (validate_queue_group s)))"

definition de_timestamp :: "('t, 'z) json_text_scheme \<Rightarrow> json \<Rightarrow> json_error + 't" where
  "de_timestamp jx j = and_then (de_string j) (ts_of_text jx)"

definition ser_timestamp :: "('t, 'z) json_text_scheme \<Rightarrow> 't \<Rightarrow> json" where
  "ser_timestamp jx t = J_Str (ts_to_text jx t)"

text \<open>An enum of names, \<open>rename_all\<close> applied.\<close>

fun de_name :: "(bytes \<times> 'a) list \<Rightarrow> json \<Rightarrow> json_error + 'a" where
  "de_name names (J_Str s) = (case map_of names s of None \<Rightarrow> Err Json_UnknownVariant | Some a \<Rightarrow> Ok a)"
| "de_name names _ = Err Json_InvalidType"

section \<open>\<open>resources/mod.rs\<close>\<close>

text \<open>\<open>nullable_number\<close>: a number as the signed number of its width, with \<open>-1\<close> for none.\<close>

definition nullable_number_serialize :: "'a::len word option \<Rightarrow> json_error + json" where
  "nullable_number_serialize num =
     (case num of
        Some num \<Rightarrow> if uint num < 2 ^ (LENGTH('a) - 1) then Ok (J_Num (uint num)) else Err Json_Custom
      | None \<Rightarrow> Ok (J_Num (- 1)))"

definition nullable_number_deserialize :: "json \<Rightarrow> json_error + 'a::len word option" where
  "nullable_number_deserialize j = and_then (de_int (- (2 ^ (LENGTH('a) - 1))) (2 ^ (LENGTH('a) - 1)) j) (\<lambda>num.
     if num = - 1 then Ok None else if num < 0 then Err Json_Custom else Ok (Some (of_int num)))"

text \<open>\<open>option_nonzero\<close>: zero is none.\<close>

definition option_nonzero_serialize :: "u32 option \<Rightarrow> json_error + json" where
  "option_nonzero_serialize num = Ok (ser_unsigned (case num of Some num \<Rightarrow> num | None \<Rightarrow> 0))"

definition option_nonzero_deserialize :: "json \<Rightarrow> json_error + u32 option" where
  "option_nonzero_deserialize j = map_ok (\<lambda>num. if num = 0 then None else Some num) (de_unsigned j)"

text \<open>\<open>nullable_datetime\<close>: the zero time of Go is none.\<close>

definition GOLANG_ZERO :: "('t, 'z) json_text_scheme \<Rightarrow> 't" where
  "GOLANG_ZERO jx = ts_constant jx (- 62135596800) 0"

definition nullable_datetime_deserialize :: "('t, 'z) json_text_scheme \<Rightarrow> json \<Rightarrow> json_error + 't option" where
  "nullable_datetime_deserialize jx j =
     map_ok (\<lambda>datetime. if datetime = GOLANG_ZERO jx then None else Some datetime) (de_timestamp jx j)"

text \<open>\<open>duration\<close>: nanoseconds, written as a \<open>u128\<close> and read as a \<open>u64\<close>.\<close>

definition duration_serialize :: "nat \<Rightarrow> json_error + json" where
  "duration_serialize d = Ok (J_Num (int d))"

definition duration_deserialize :: "json \<Rightarrow> json_error + nat" where
  "duration_deserialize j = map_ok nat (de_int 0 (2 ^ 64) j)"

definition duration_vec_serialize :: "nat list \<Rightarrow> json_error + json" where
  "duration_vec_serialize ds = Ok (J_Arr (map (\<lambda>d. J_Num (int d)) ds))"

definition duration_vec_deserialize :: "json \<Rightarrow> json_error + nat list" where
  "duration_vec_deserialize j = map_ok (map nat) (de_array (de_int 0 (2 ^ 64)) j)"

text \<open>\<open>compression\<close> and \<open>opposite_bool\<close>.\<close>

datatype js_compression = S2

definition compression_serialize :: "js_compression option \<Rightarrow> json_error + json" where
  "compression_serialize c = Ok (J_Str (case c of None \<Rightarrow> ''none'' | Some S2 \<Rightarrow> ''s2''))"

definition compression_deserialize :: "json \<Rightarrow> json_error + js_compression option" where
  "compression_deserialize = de_name [(''none'', None), (''s2'', Some S2)]"

definition opposite_bool_serialize :: "bool \<Rightarrow> json_error + json" where
  "opposite_bool_serialize val = Ok (J_Bool (\<not> val))"

definition opposite_bool_deserialize :: "json \<Rightarrow> json_error + bool" where
  "opposite_bool_deserialize j = map_ok Not (de_bool j)"

section \<open>Values of \<open>serde_json\<close>\<close>

text \<open>\<open>to_value\<close> fails on numbers that neither a \<open>u64\<close> nor an \<open>i64\<close> holds; \<open>json!\<close> panics where it fails.\<close>

fun numbers_fit :: "json \<Rightarrow> bool" where
  "numbers_fit (J_Num i) \<longleftrightarrow> - (2 ^ 63) \<le> i \<and> i < 2 ^ 64"
| "numbers_fit (J_Arr js) \<longleftrightarrow> list_all numbers_fit js"
| "numbers_fit (J_Obj fs) \<longleftrightarrow> list_all (\<lambda>p. numbers_fit (snd p)) fs"
| "numbers_fit _ \<longleftrightarrow> True"

definition to_value :: "json_error + json \<Rightarrow> json_error + json" where
  "to_value r = and_then r (\<lambda>j. if numbers_fit j then Ok j else Err Json_OutOfRange)"

definition json_interpolate :: "json_error + json \<Rightarrow> json option" where
  "json_interpolate r = (case to_value r of Inl _ \<Rightarrow> None | Inr j \<Rightarrow> Some j)"

section \<open>Fields that were written are found\<close>

lemma ser_fields_Ok:
  "is_ok (ser_fields fs) \<longleftrightarrow> (\<forall>p\<in>set fs. case snd p of None \<Rightarrow> True | Some r \<Rightarrow> is_ok r)"
proof (induction fs rule: ser_fields.induct)
  case (3 n r fs)
  then show ?case by (cases r; cases "ser_fields fs") auto
qed simp_all

lemma ser_fields_names: "ser_fields fs = Ok js \<Longrightarrow> fst ` set js \<subseteq> fst ` set fs"
proof (induction fs arbitrary: js rule: ser_fields.induct)
  case (3 n r fs)
  from 3(2) obtain j js' where "r = Ok j" "ser_fields fs = Ok js'" "js = (n, j) # js'"
    by (cases r; cases "ser_fields fs") auto
  with 3(1) show ?case by auto
qed auto

lemma ser_fields_find:
  assumes "ser_fields fs = Ok js" and "distinct (map fst fs)"
  shows "find_field js n = (case map_of fs n of Some (Some r) \<Rightarrow> map_ok Some r | _ \<Rightarrow> Ok None)"
  using assms
proof (induction fs arbitrary: js rule: ser_fields.induct)
  case (2 m fs)
  have "m \<notin> fst ` set js" using 2(2,3) ser_fields_names [of fs js] by auto
  then have "filter (\<lambda>p. fst p = m) js = []" by (force simp: filter_empty_conv)
  with 2 show ?case by (auto simp: find_field_def)
next
  case (3 m r fs)
  from 3(2) obtain j js' where r: "r = Ok j" "ser_fields fs = Ok js'" "js = (m, j) # js'"
    by (cases r; cases "ser_fields fs") auto
  have "m \<notin> fst ` set js'" using r(2) 3(3) ser_fields_names [of fs js'] by auto
  then have "filter (\<lambda>p. fst p = m) js' = []" by (force simp: filter_empty_conv)
  with 3 r show ?case by (auto simp: find_field_def)
qed (simp add: find_field_def)

lemma required_found:
  assumes "ser_fields fs = Ok js" and "distinct (map fst fs)"
  shows "required js n de = (case map_of fs n of Some (Some r) \<Rightarrow> and_then r de | _ \<Rightarrow> Err (Json_MissingField n))"
  unfolding required_def ser_fields_find [OF assms]
  by (auto split: option.splits simp: and_then_def map_ok_def split: sum.splits)

lemma defaulted_found:
  assumes "ser_fields fs = Ok js" and "distinct (map fst fs)"
  shows "defaulted js n d de = (case map_of fs n of Some (Some r) \<Rightarrow> and_then r de | _ \<Rightarrow> Ok d)"
  unfolding defaulted_def ser_fields_find [OF assms]
  by (auto split: option.splits simp: and_then_def map_ok_def split: sum.splits)

lemma map_of_field [simp]:
  "map_of (field n r # fs) = (map_of fs)(n \<mapsto> Some r)"
  "map_of (field_unless b n r # fs) = (map_of fs)(n \<mapsto> if b then None else Some r)"
  "fst (field n r) = n" "fst (field_unless b n r) = n"
  "snd (field n r) = Some r" "snd (field_unless b n r) = (if b then None else Some r)"
  by (simp_all add: field_def field_unless_def)

lemma case_unless [simp]:
  "(case (if b then None else Some r) of None \<Rightarrow> d | Some r \<Rightarrow> f r) = (if b then d else f r)"
  by simp

lemma if_eq_Ok [simp]: "(if x = d then Ok d else Ok x) = Ok x"
  by simp

section \<open>Round trips of values\<close>

lemma de_ser_unsigned [simp]: "de_unsigned (ser_unsigned n) = Ok n"
proof -
  obtain i where i: "uint n = i" "0 \<le> i" "i < 2 ^ LENGTH('a)" using uint_lt2p by simp
  then have "of_int i = n" using word_of_int_uint [of n] by simp
  with i show ?thesis by (simp add: de_unsigned_def ser_unsigned_def)
qed

lemma de_ser_signed [simp]: "de_signed (ser_signed n) = Ok n"
  using sint_ge [of n] sint_lt [of n] by (simp add: de_signed_def ser_signed_def)

lemma de_ser_nonzero [simp]: "n \<noteq> 0 \<Longrightarrow> de_nonzero (ser_unsigned n) = Ok n"
  by (simp add: de_nonzero_def)

lemma de_list_map: "\<forall>a\<in>set as. de (ser a) = Ok a \<Longrightarrow> de_list de (map ser as) = Ok as"
  by (induction as) auto

lemma de_option_ser [simp]:
  "(\<And>a. x = Some a \<Longrightarrow> ser a \<noteq> J_Null \<and> de (ser a) = Ok a) \<Longrightarrow> de_option de (ser_option ser x) = Ok x"
  by (cases x) (auto simp: de_option_def ser_option_def)

lemma ser_not_null [simp]: "ser_unsigned n \<noteq> J_Null" "ser_signed n \<noteq> J_Null"
  by (simp_all add: ser_unsigned_def ser_signed_def)

lemma duration_round [simp]: "d < 2 ^ 64 \<Longrightarrow> and_then (duration_serialize d) duration_deserialize = Ok d"
  by (simp add: duration_serialize_def duration_deserialize_def)

lemma duration_vec_round [simp]:
  assumes "\<forall>d\<in>set ds. d < 2 ^ 64"
  shows "and_then (duration_vec_serialize ds) duration_vec_deserialize = Ok ds"
proof -
  have "de_list (de_int 0 (2 ^ 64)) (map (\<lambda>d. J_Num (int d)) ds) = Ok (map int ds)"
    using assms by (induction ds) auto
  then show ?thesis by (simp add: duration_vec_serialize_def duration_vec_deserialize_def o_def)
qed

lemma option_nonzero_round [simp]:
  "num \<noteq> Some 0 \<Longrightarrow> and_then (option_nonzero_serialize num) option_nonzero_deserialize = Ok num"
  by (auto simp: option_nonzero_serialize_def option_nonzero_deserialize_def split: option.splits)

lemma compression_round [simp]: "and_then (compression_serialize c) compression_deserialize = Ok c"
  by (auto simp: compression_serialize_def compression_deserialize_def split: option.splits js_compression.splits)

lemma opposite_bool_round [simp]: "and_then (opposite_bool_serialize b) opposite_bool_deserialize = Ok b"
  by (simp add: opposite_bool_serialize_def opposite_bool_deserialize_def)

lemma timestamp_round [simp]: "timestamps_ok jx \<Longrightarrow> de_timestamp jx (ser_timestamp jx t) = Ok t"
  by (simp add: timestamps_ok_def de_timestamp_def ser_timestamp_def)

lemma string_map_from:
  assumes "bt_wf (\<lambda>k. k) (m @ m')"
  shows "de_string_map_from m (map (\<lambda>(k, v). (k, J_Str v)) m') = Ok (m @ m')"
  using assms
proof (induction m' arbitrary: m)
  case (Cons p m')
  obtain k v where p: "p = (k, v)" by (cases p)
  have "\<forall>q\<in>set m. fst q < k" using Cons.prems p by (auto simp: bt_wf_def sorted_wrt_append)
  then have "bt_insert (\<lambda>k. k) k v m = m @ [(k, v)]" by (rule bt_insert_last)
  with Cons.IH [of "m @ [(k, v)]"] Cons.prems p show ?case by simp
qed simp

lemma string_map_round [simp]: "bt_wf (\<lambda>k. k) m \<Longrightarrow> de_string_map (ser_string_map m) = Ok m"
  using string_map_from [of "[]" m] by (simp add: de_string_map_def ser_string_map_def)

lemma nullable_number_round:
  fixes num :: "'a::len word option"
  assumes "nullable_number_serialize num = Ok j"
  shows "nullable_number_deserialize j = Ok num"
proof -
  define hi :: int where "hi = 2 ^ (LENGTH('a) - 1)"
  then have hi: "1 \<le> hi" by simp
  show ?thesis
  proof (cases num)
    case None
    with assms hi show ?thesis
      unfolding nullable_number_serialize_def nullable_number_deserialize_def hi_def [symmetric] by auto
  next
    case (Some n)
    obtain i where i: "uint n = i" "0 \<le> i" by simp
    then have n: "of_int i = n" using word_of_int_uint [of n] by simp
    from i Some assms hi n show ?thesis
      unfolding nullable_number_serialize_def nullable_number_deserialize_def hi_def [symmetric]
      by (auto split: if_splits)
  qed
qed

lemma nullable_number_bind [simp]:
  "is_ok (nullable_number_serialize num) \<Longrightarrow> and_then (nullable_number_serialize num) nullable_number_deserialize = Ok num"
  by (cases "nullable_number_serialize num") (auto intro: nullable_number_round)

end
