(* ===== verification/Js_Resources.thy ===== *)
theory Js_Resources
  imports Json
begin

text \<open>
  \<open>client/jetstream/resources/stream.rs\<close> and \<open>consumer.rs\<close>: streams and consumers of JetStream and their
  configurations, and the JSON they are written to and read from. A timestamp has type \<open>'t\<close>, a duration is its
  nanoseconds.
\<close>

section \<open>Streams\<close>

datatype retention_policy = Limits | Interest | WorkQueue
datatype discard_policy = Discard_Old | Discard_New
datatype js_storage = File | Memory_Storage

record stream_config =
  sc_name :: bytes
  sc_subjects :: "subject list"
  sc_max_consumers :: "u32 option"
  sc_max_messages :: "u64 option"
  sc_max_bytes :: "u64 option"
  sc_max_age :: nat
  sc_max_messages_per_subject :: "u64 option"
  sc_max_message_size :: "u32 option"
  sc_discard_policy :: discard_policy
  sc_storage :: js_storage
  sc_replicas :: u32
  sc_duplicate_window :: nat
  sc_compression :: "js_compression option"
  sc_allow_direct :: bool
  sc_mirror_direct :: bool
  sc_sealed :: bool
  sc_allow_delete :: bool
  sc_allow_purge :: bool
  sc_allow_rollup_hdrs :: bool

record 't stream =
  st_config :: stream_config
  st_created_at :: 't

record 't stream_state =
  ss_messages :: u64
  ss_bytes :: u64
  ss_first_sequence :: u64
  ss_first_sequence_timestamp :: "'t option"
  ss_last_sequence :: u64
  ss_last_sequence_timestamp :: "'t option"
  ss_consumer_count :: u32

definition retention_policy_deserialize :: "json \<Rightarrow> json_error + retention_policy" where
  "retention_policy_deserialize = de_name [(''limits'', Limits), (''interest'', Interest), (''work_queue'', WorkQueue)]"

fun discard_policy_serialize :: "discard_policy \<Rightarrow> json" where
  "discard_policy_serialize Discard_Old = J_Str ''old''"
| "discard_policy_serialize Discard_New = J_Str ''new''"

definition discard_policy_deserialize :: "json \<Rightarrow> json_error + discard_policy" where
  "discard_policy_deserialize = de_name [(''old'', Discard_Old), (''new'', Discard_New)]"

fun js_storage_serialize :: "js_storage \<Rightarrow> json" where
  "js_storage_serialize File = J_Str ''file''"
| "js_storage_serialize Memory_Storage = J_Str ''memory''"

definition js_storage_deserialize :: "json \<Rightarrow> json_error + js_storage" where
  "js_storage_deserialize = de_name [(''file'', File), (''memory'', Memory_Storage)]"

definition ser_subject :: "subject \<Rightarrow> json" where
  "ser_subject s = J_Str (subject_as_str s)"

definition stream_config_fields :: "stream_config \<Rightarrow> field list" where
  "stream_config_fields c =
     [field ''name'' (Ok (J_Str (sc_name c))),
      field ''subjects'' (Ok (J_Arr (map ser_subject (sc_subjects c)))),
      field ''max_consumers'' (nullable_number_serialize (sc_max_consumers c)),
      field ''max_msgs'' (nullable_number_serialize (sc_max_messages c)),
      field ''max_bytes'' (nullable_number_serialize (sc_max_bytes c)),
      field ''max_age'' (duration_serialize (sc_max_age c)),
      field ''max_msgs_per_subject'' (nullable_number_serialize (sc_max_messages_per_subject c)),
      field ''max_msg_size'' (nullable_number_serialize (sc_max_message_size c)),
      field ''discard'' (Ok (discard_policy_serialize (sc_discard_policy c))),
      field ''storage'' (Ok (js_storage_serialize (sc_storage c))),
      field ''num_replicas'' (Ok (ser_unsigned (sc_replicas c))),
      field ''duplicate_window'' (duration_serialize (sc_duplicate_window c)),
      field ''compression'' (compression_serialize (sc_compression c)),
      field ''allow_direct'' (Ok (J_Bool (sc_allow_direct c))),
      field ''mirror_direct'' (Ok (J_Bool (sc_mirror_direct c))),
      field ''sealed'' (Ok (J_Bool (sc_sealed c))),
      field ''deny_delete'' (opposite_bool_serialize (sc_allow_delete c)),
      field ''deny_purge'' (opposite_bool_serialize (sc_allow_purge c)),
      field ''allow_rollup_hdrs'' (Ok (J_Bool (sc_allow_rollup_hdrs c)))]"

definition stream_config_serialize :: "stream_config \<Rightarrow> json_error + json" where
  "stream_config_serialize c = ser_struct (stream_config_fields c)"

definition stream_config_deserialize :: "json \<Rightarrow> json_error + stream_config" where
  "stream_config_deserialize j =
     and_then (de_object j) (\<lambda>fs.
     and_then (required fs ''name'' de_string) (\<lambda>name.
     and_then (required fs ''subjects'' (de_array de_subject)) (\<lambda>subjects.
     and_then (required fs ''max_consumers'' nullable_number_deserialize) (\<lambda>max_consumers.
     and_then (required fs ''max_msgs'' nullable_number_deserialize) (\<lambda>max_messages.
     and_then (required fs ''max_bytes'' nullable_number_deserialize) (\<lambda>max_bytes.
     and_then (required fs ''max_age'' duration_deserialize) (\<lambda>max_age.
     and_then (required fs ''max_msgs_per_subject'' nullable_number_deserialize) (\<lambda>max_messages_per_subject.
     and_then (required fs ''max_msg_size'' nullable_number_deserialize) (\<lambda>max_message_size.
     and_then (required fs ''discard'' discard_policy_deserialize) (\<lambda>discard.
     and_then (required fs ''storage'' js_storage_deserialize) (\<lambda>storage.
     and_then (required fs ''num_replicas'' de_nonzero) (\<lambda>replicas.
     and_then (required fs ''duplicate_window'' duration_deserialize) (\<lambda>duplicate_window.
     and_then (required fs ''compression'' compression_deserialize) (\<lambda>compr.
     and_then (required fs ''allow_direct'' de_bool) (\<lambda>allow_direct.
     and_then (required fs ''mirror_direct'' de_bool) (\<lambda>mirror_direct.
     and_then (required fs ''sealed'' de_bool) (\<lambda>sealed.
     and_then (required fs ''deny_delete'' opposite_bool_deserialize) (\<lambda>allow_delete.
     and_then (required fs ''deny_purge'' opposite_bool_deserialize) (\<lambda>allow_purge.
     and_then (required fs ''allow_rollup_hdrs'' de_bool) (\<lambda>allow_rollup_hdrs.
     Ok \<lparr> sc_name = name, sc_subjects = subjects, sc_max_consumers = max_consumers,
          sc_max_messages = max_messages, sc_max_bytes = max_bytes, sc_max_age = max_age,
          sc_max_messages_per_subject = max_messages_per_subject, sc_max_message_size = max_message_size,
          sc_discard_policy = discard, sc_storage = storage, sc_replicas = replicas,
          sc_duplicate_window = duplicate_window, sc_compression = compr, sc_allow_direct = allow_direct,
          sc_mirror_direct = mirror_direct, sc_sealed = sealed, sc_allow_delete = allow_delete,
          sc_allow_purge = allow_purge, sc_allow_rollup_hdrs = allow_rollup_hdrs \<rparr>))))))))))))))))))))"

definition stream_deserialize :: "('t, 'z) json_text_scheme \<Rightarrow> json \<Rightarrow> json_error + 't stream" where
  "stream_deserialize jx j =
     and_then (de_object j) (\<lambda>fs.
     and_then (required fs ''config'' stream_config_deserialize) (\<lambda>config.
     and_then (required fs ''created'' (de_timestamp jx)) (\<lambda>created.
     Ok \<lparr> st_config = config, st_created_at = created \<rparr>)))"

definition stream_state_deserialize :: "('t, 'z) json_text_scheme \<Rightarrow> json \<Rightarrow> json_error + 't stream_state" where
  "stream_state_deserialize jx j =
     and_then (de_object j) (\<lambda>fs.
     and_then (required fs ''messages'' de_unsigned) (\<lambda>messages.
     and_then (required fs ''bytes'' de_unsigned) (\<lambda>byts.
     and_then (required fs ''first_sequence'' de_unsigned) (\<lambda>first_sequence.
     and_then (required fs ''first_ts'' (nullable_datetime_deserialize jx)) (\<lambda>first_ts.
     and_then (required fs ''last_sequence'' de_unsigned) (\<lambda>last_sequence.
     and_then (required fs ''last_ts'' (nullable_datetime_deserialize jx)) (\<lambda>last_ts.
     and_then (required fs ''consumer_count'' de_unsigned) (\<lambda>consumer_count.
     Ok \<lparr> ss_messages = messages, ss_bytes = byts, ss_first_sequence = first_sequence,
          ss_first_sequence_timestamp = first_ts, ss_last_sequence = last_sequence,
          ss_last_sequence_timestamp = last_ts, ss_consumer_count = consumer_count \<rparr>))))))))"

section \<open>Consumers\<close>

datatype consumer_durability = Ephemeral | Durable

datatype 't deliver_policy = Deliver_All | Deliver_Last | Deliver_LastPerSubject | Deliver_New
  | StartSequence u64 | StartTime 't

datatype ack_policy = Ack_Explicit nat "u32 option" | Ack_All nat "u32 option" | Ack_None

datatype replay_policy = Instant | Original

datatype consumer_storage = Disk | Memory

datatype consumer_specific_config =
    Pull "32 word option" "32 word option" nat "32 word option"
  | Push subject "queue_group option" bool nat

record 't consumer_config =
  cc_durability :: consumer_durability
  cc_name :: bytes
  cc_description :: bytes
  cc_deliver_policy :: "'t deliver_policy"
  cc_ack_policy :: ack_policy
  cc_max_deliver :: "u32 option"
  cc_backoff :: "nat list"
  cc_filter_subjects :: "subject list"
  cc_replay_policy :: replay_policy
  cc_rate_limit :: "u64 option"
  cc_headers_only :: bool
  cc_specs :: consumer_specific_config
  cc_inactive_threshold :: nat
  cc_replicas :: "u32 option"
  cc_storage :: consumer_storage
  cc_metadata :: "(bytes, bytes) btree_map"

record 't consumer =
  co_stream_name :: bytes
  co_config :: "'t consumer_config"
  co_created_at :: 't

definition ack_policy_default :: ack_policy where
  "ack_policy_default = Ack_All 0 None"

definition is_false :: "bool \<Rightarrow> bool" where "is_false val \<longleftrightarrow> \<not> val"

record 't raw_consumer_config =
  rc_name :: bytes
  rc_durable_name :: bytes
  rc_description :: bytes
  rc_deliver_policy :: "'t deliver_policy"
  rc_ack_policy :: ack_policy
  rc_max_deliver :: "u32 option"
  rc_backoff :: "nat list"
  rc_filter_subject :: "subject option"
  rc_filter_subjects :: "subject list"
  rc_replay_policy :: replay_policy
  rc_rate_limit :: "u64 option"
  rc_flow_control :: bool
  rc_idle_heartbeat :: nat
  rc_headers_only :: bool
  rc_max_waiting :: "32 word option"
  rc_max_request_batch :: "32 word option"
  rc_max_request_expires :: nat
  rc_max_request_max_bytes :: "32 word option"
  rc_deliver_subject :: "subject option"
  rc_deliver_group :: "queue_group option"
  rc_inactive_threshold :: nat
  rc_replicas :: "u32 option"
  rc_storage :: consumer_storage
  rc_metadata :: "(bytes, bytes) btree_map"

text \<open>Of \<open>ConsumerConfig\<close> to its raw form and back.\<close>

definition to_raw :: "'t consumer_config \<Rightarrow> 't raw_consumer_config" where
  "to_raw c =
     (let (name, durable_name) = (case cc_durability c of
            Ephemeral \<Rightarrow> (cc_name c, []) | Durable \<Rightarrow> (cc_name c, cc_name c));
          (filter_subject, filter_subjects) = (case cc_filter_subjects c of
            [s] \<Rightarrow> (Some s, []) | _ \<Rightarrow> (None, cc_filter_subjects c));
          (max_waiting, max_request_batch, max_request_expires, max_request_max_bytes, deliver_subject,
             deliver_group, flow_control, idle_heartbeat) = (case cc_specs c of
            Pull w b e m \<Rightarrow> (w, b, e, m, None, None, False, 0)
          | Push s g f h \<Rightarrow> (None, None, 0, None, Some s, g, f, h))
      in \<lparr> rc_name = name, rc_durable_name = durable_name, rc_description = cc_description c,
           rc_deliver_policy = cc_deliver_policy c, rc_ack_policy = cc_ack_policy c,
           rc_max_deliver = cc_max_deliver c, rc_backoff = cc_backoff c, rc_filter_subject = filter_subject,
           rc_filter_subjects = filter_subjects, rc_replay_policy = cc_replay_policy c,
           rc_rate_limit = cc_rate_limit c, rc_flow_control = flow_control, rc_idle_heartbeat = idle_heartbeat,
           rc_headers_only = cc_headers_only c, rc_max_waiting = max_waiting,
           rc_max_request_batch = max_request_batch, rc_max_request_expires = max_request_expires,
           rc_max_request_max_bytes = max_request_max_bytes, rc_deliver_subject = deliver_subject,
           rc_deliver_group = deliver_group, rc_inactive_threshold = cc_inactive_threshold c,
           rc_replicas = cc_replicas c, rc_storage = cc_storage c, rc_metadata = cc_metadata c \<rparr>)"

definition of_raw :: "'t raw_consumer_config \<Rightarrow> json_error + 't consumer_config" where
  "of_raw r =
     and_then (case (rc_filter_subject r, rc_filter_subjects r) of
         (Some s, []) \<Rightarrow> Ok [s]
       | (None, ss) \<Rightarrow> Ok ss
       | (Some _, _) \<Rightarrow> Err Json_Custom) (\<lambda>filter_subjects.
     and_then (if rc_durable_name r \<noteq> [] then Ok (Durable, rc_durable_name r)
               else if rc_name r \<noteq> [] then Ok (Ephemeral, rc_name r)
               else Err Json_Custom) (\<lambda>(durability, name).
     let specs = (case rc_deliver_subject r of
           Some s \<Rightarrow> Push s (rc_deliver_group r) (rc_flow_control r) (rc_idle_heartbeat r)
         | None \<Rightarrow> Pull (rc_max_waiting r) (rc_max_request_batch r) (rc_max_request_expires r)
             (rc_max_request_max_bytes r)) in
     Ok \<lparr> cc_durability = durability, cc_name = name, cc_description = rc_description r,
          cc_deliver_policy = rc_deliver_policy r, cc_ack_policy = rc_ack_policy r,
          cc_max_deliver = rc_max_deliver r, cc_backoff = rc_backoff r, cc_filter_subjects = filter_subjects,
          cc_replay_policy = rc_replay_policy r, cc_rate_limit = rc_rate_limit r,
          cc_headers_only = rc_headers_only r, cc_specs = specs,
          cc_inactive_threshold = rc_inactive_threshold r, cc_replicas = rc_replicas r,
          cc_storage = rc_storage r, cc_metadata = rc_metadata r \<rparr>))"

text \<open>The raw form and its fields. \<open>flatten\<close> puts the fields of an enum, its tag first, among those of the struct.\<close>

fun deliver_policy_fields :: "('t, 'z) json_text_scheme \<Rightarrow> 't deliver_policy \<Rightarrow> field list" where
  "deliver_policy_fields jx Deliver_All = [field ''deliver_policy'' (Ok (J_Str ''all''))]"
| "deliver_policy_fields jx Deliver_Last = [field ''deliver_policy'' (Ok (J_Str ''last''))]"
| "deliver_policy_fields jx Deliver_LastPerSubject = [field ''deliver_policy'' (Ok (J_Str ''last_per_subject''))]"
| "deliver_policy_fields jx Deliver_New = [field ''deliver_policy'' (Ok (J_Str ''new''))]"
| "deliver_policy_fields jx (StartSequence sequence) =
     [field ''deliver_policy'' (Ok (J_Str ''by_start_sequence'')), field ''opt_start_seq'' (Ok (ser_unsigned sequence))]"
| "deliver_policy_fields jx (StartTime from) =
     [field ''deliver_policy'' (Ok (J_Str ''by_start_time'')), field ''opt_start_time'' (Ok (ser_timestamp jx from))]"

definition deliver_policy_deserialize ::
    "('t, 'z) json_text_scheme \<Rightarrow> (bytes \<times> json) list \<Rightarrow> json_error + 't deliver_policy" where
  "deliver_policy_deserialize jx fs = and_then (required fs ''deliver_policy'' de_string) (\<lambda>tag.
     if tag = ''all'' then Ok Deliver_All
     else if tag = ''last'' then Ok Deliver_Last
     else if tag = ''last_per_subject'' then Ok Deliver_LastPerSubject
     else if tag = ''new'' then Ok Deliver_New
     else if tag = ''by_start_sequence'' then map_ok StartSequence (required fs ''opt_start_seq'' de_unsigned)
     else if tag = ''by_start_time'' then map_ok StartTime (required fs ''opt_start_time'' (de_timestamp jx))
     else Err Json_UnknownVariant)"

fun ack_policy_fields :: "ack_policy \<Rightarrow> field list" where
  "ack_policy_fields (Ack_Explicit wait max_pending) =
     [field ''ack_policy'' (Ok (J_Str ''explicit'')), field ''ack_wait'' (duration_serialize wait),
      field_unless (max_pending = None) ''max_ack_pending'' (nullable_number_serialize max_pending)]"
| "ack_policy_fields (Ack_All wait max_pending) =
     [field ''ack_policy'' (Ok (J_Str ''all'')), field ''ack_wait'' (duration_serialize wait),
      field_unless (max_pending = None) ''max_ack_pending'' (nullable_number_serialize max_pending)]"
| "ack_policy_fields Ack_None = [field ''ack_policy'' (Ok (J_Str ''none''))]"

definition ack_policy_deserialize :: "(bytes \<times> json) list \<Rightarrow> json_error + ack_policy" where
  "ack_policy_deserialize fs = and_then (required fs ''ack_policy'' de_string) (\<lambda>tag.
     if tag = ''explicit'' then and_then (required fs ''ack_wait'' duration_deserialize) (\<lambda>wait.
       map_ok (Ack_Explicit wait) (required fs ''max_ack_pending'' nullable_number_deserialize))
     else if tag = ''all'' then and_then (required fs ''ack_wait'' duration_deserialize) (\<lambda>wait.
       map_ok (Ack_All wait) (required fs ''max_ack_pending'' nullable_number_deserialize))
     else if tag = ''none'' then Ok Ack_None
     else Err Json_UnknownVariant)"

fun replay_policy_serialize :: "replay_policy \<Rightarrow> json" where
  "replay_policy_serialize Instant = J_Str ''instant''"
| "replay_policy_serialize Original = J_Str ''original''"

definition replay_policy_deserialize :: "json \<Rightarrow> json_error + replay_policy" where
  "replay_policy_deserialize = de_name [(''instant'', Instant), (''original'', Original)]"

definition consumer_storage_serialize :: "consumer_storage \<Rightarrow> json" where
  "consumer_storage_serialize s = J_Bool (s = Memory)"

definition consumer_storage_deserialize :: "json \<Rightarrow> json_error + consumer_storage" where
  "consumer_storage_deserialize j = map_ok (\<lambda>b. if b then Memory else Disk) (de_bool j)"

definition ser_queue_group :: "queue_group \<Rightarrow> json" where
  "ser_queue_group g = J_Str (queue_group_as_str g)"

definition raw_fields_before :: "'t raw_consumer_config \<Rightarrow> field list" where
  "raw_fields_before r =
     [field ''name'' (Ok (J_Str (rc_name r))),
      field ''durable_name'' (Ok (J_Str (rc_durable_name r))),
      field ''description'' (Ok (J_Str (rc_description r)))]"

definition raw_fields_after :: "'t raw_consumer_config \<Rightarrow> field list" where
  "raw_fields_after r =
     [field_unless (rc_max_deliver r = None) ''max_deliver'' (nullable_number_serialize (rc_max_deliver r)),
      field_unless (rc_backoff r = []) ''backoff'' (duration_vec_serialize (rc_backoff r)),
      field_unless (rc_filter_subject r = None) ''filter_subject'' (Ok (ser_option ser_subject (rc_filter_subject r))),
      field_unless (rc_filter_subjects r = []) ''filter_subjects'' (Ok (J_Arr (map ser_subject (rc_filter_subjects r)))),
      field ''replay_policy'' (Ok (replay_policy_serialize (rc_replay_policy r))),
      field_unless (rc_rate_limit r = None) ''rate_limit_bps'' (Ok (ser_option ser_unsigned (rc_rate_limit r))),
      field_unless (is_false (rc_flow_control r)) ''flow_control'' (Ok (J_Bool (rc_flow_control r))),
      field_unless (rc_idle_heartbeat r = 0) ''idle_heartbeat'' (duration_serialize (rc_idle_heartbeat r)),
      field ''headers_only'' (Ok (J_Bool (rc_headers_only r))),
      field_unless (rc_max_waiting r = None) ''max_waiting'' (Ok (ser_option ser_signed (rc_max_waiting r))),
      field_unless (rc_max_request_batch r = None) ''max_batch'' (Ok (ser_option ser_signed (rc_max_request_batch r))),
      field_unless (rc_max_request_expires r = 0) ''max_expires'' (duration_serialize (rc_max_request_expires r)),
      field_unless (rc_max_request_max_bytes r = None) ''max_bytes'' (Ok (ser_option ser_signed (rc_max_request_max_bytes r))),
      field_unless (rc_deliver_subject r = None) ''deliver_subject'' (Ok (ser_option ser_subject (rc_deliver_subject r))),
      field_unless (rc_deliver_group r = None) ''deliver_group'' (Ok (ser_option ser_queue_group (rc_deliver_group r))),
      field ''inactive_threshold'' (duration_serialize (rc_inactive_threshold r)),
      field ''num_replicas'' (option_nonzero_serialize (rc_replicas r)),
      field ''mem_storage'' (Ok (consumer_storage_serialize (rc_storage r))),
      field ''metadata'' (Ok (ser_string_map (rc_metadata r)))]"

definition raw_fields :: "('t, 'z) json_text_scheme \<Rightarrow> 't raw_consumer_config \<Rightarrow> field list" where
  "raw_fields jx r = raw_fields_before r @ deliver_policy_fields jx (rc_deliver_policy r) @
     ack_policy_fields (rc_ack_policy r) @ raw_fields_after r"

definition raw_deserialize :: "('t, 'z) json_text_scheme \<Rightarrow> json \<Rightarrow> json_error + 't raw_consumer_config" where
  "raw_deserialize jx j =
     and_then (de_object j) (\<lambda>fs.
     and_then (defaulted fs ''name'' [] de_string) (\<lambda>name.
     and_then (defaulted fs ''durable_name'' [] de_string) (\<lambda>durable_name.
     and_then (defaulted fs ''description'' [] de_string) (\<lambda>description.
     and_then (deliver_policy_deserialize jx fs) (\<lambda>dp.
     and_then (ack_policy_deserialize fs) (\<lambda>ap.
     and_then (required fs ''max_deliver'' nullable_number_deserialize) (\<lambda>max_deliver.
     and_then (defaulted fs ''backoff'' [] duration_vec_deserialize) (\<lambda>backoffs.
     and_then (optional fs ''filter_subject'' de_subject) (\<lambda>filter_subject.
     and_then (defaulted fs ''filter_subjects'' [] (de_array de_subject)) (\<lambda>filter_subjects.
     and_then (required fs ''replay_policy'' replay_policy_deserialize) (\<lambda>rp.
     and_then (optional fs ''rate_limit_bps'' de_nonzero) (\<lambda>rate_limit.
     and_then (defaulted fs ''flow_control'' False de_bool) (\<lambda>flow_control.
     and_then (defaulted fs ''idle_heartbeat'' 0 duration_deserialize) (\<lambda>idle_heartbeat.
     and_then (defaulted fs ''headers_only'' False de_bool) (\<lambda>headers_only.
     and_then (optional fs ''max_waiting'' de_signed) (\<lambda>max_waiting.
     and_then (optional fs ''max_batch'' de_signed) (\<lambda>max_batch.
     and_then (defaulted fs ''max_expires'' 0 duration_deserialize) (\<lambda>max_expires.
     and_then (optional fs ''max_bytes'' de_signed) (\<lambda>max_bytes.
     and_then (optional fs ''deliver_subject'' de_subject) (\<lambda>deliver_subject.
     and_then (optional fs ''deliver_group'' de_queue_group) (\<lambda>deliver_group.
     and_then (defaulted fs ''inactive_threshold'' 0 duration_deserialize) (\<lambda>inactive_threshold.
     and_then (required fs ''num_replicas'' option_nonzero_deserialize) (\<lambda>replicas.
     and_then (defaulted fs ''mem_storage'' Disk consumer_storage_deserialize) (\<lambda>storage.
     and_then (defaulted fs ''metadata'' [] de_string_map) (\<lambda>metadata.
     Ok \<lparr> rc_name = name, rc_durable_name = durable_name, rc_description = description,
          rc_deliver_policy = dp, rc_ack_policy = ap, rc_max_deliver = max_deliver, rc_backoff = backoffs,
          rc_filter_subject = filter_subject, rc_filter_subjects = filter_subjects, rc_replay_policy = rp,
          rc_rate_limit = rate_limit, rc_flow_control = flow_control, rc_idle_heartbeat = idle_heartbeat,
          rc_headers_only = headers_only, rc_max_waiting = max_waiting, rc_max_request_batch = max_batch,
          rc_max_request_expires = max_expires, rc_max_request_max_bytes = max_bytes,
          rc_deliver_subject = deliver_subject, rc_deliver_group = deliver_group,
          rc_inactive_threshold = inactive_threshold, rc_replicas = replicas, rc_storage = storage,
          rc_metadata = metadata \<rparr>)))))))))))))))))))))))))"

definition consumer_config_serialize :: "('t, 'z) json_text_scheme \<Rightarrow> 't consumer_config \<Rightarrow> json_error + json" where
  "consumer_config_serialize jx c = ser_struct (raw_fields jx (to_raw c))"

definition consumer_config_deserialize :: "('t, 'z) json_text_scheme \<Rightarrow> json \<Rightarrow> json_error + 't consumer_config" where
  "consumer_config_deserialize jx j = and_then (raw_deserialize jx j) of_raw"

definition consumer_serialize :: "('t, 'z) json_text_scheme \<Rightarrow> 't consumer \<Rightarrow> json_error + json" where
  "consumer_serialize jx co = ser_struct
     [field ''stream_name'' (Ok (J_Str (co_stream_name co))),
      field ''config'' (consumer_config_serialize jx (co_config co)),
      field ''created'' (Ok (ser_timestamp jx (co_created_at co)))]"

definition consumer_deserialize :: "('t, 'z) json_text_scheme \<Rightarrow> json \<Rightarrow> json_error + 't consumer" where
  "consumer_deserialize jx j =
     and_then (de_object j) (\<lambda>fs.
     and_then (required fs ''stream_name'' de_string) (\<lambda>stream_name.
     and_then (required fs ''config'' (consumer_config_deserialize jx)) (\<lambda>config.
     and_then (required fs ''created'' (de_timestamp jx)) (\<lambda>created.
     Ok \<lparr> co_stream_name = stream_name, co_config = config, co_created_at = created \<rparr>))))"

section \<open>Round trips\<close>

lemma of_raw_to_raw:
  assumes "cc_name c \<noteq> []"
  shows "of_raw (to_raw c) = Ok c"
  using assms by (cases "cc_durability c"; cases "cc_specs c")
    (auto simp: to_raw_def of_raw_def split: list.splits intro!: consumer_config.equality)


lemma de_ser_subject [simp]: "validate_subject (subject_as_str s) = Ok () \<Longrightarrow> de_subject (ser_subject s) = Ok s"
  by (simp add: de_subject_def ser_subject_def)

lemma de_ser_queue_group [simp]:
  "validate_queue_group (queue_group_as_str g) = Ok () \<Longrightarrow> de_queue_group (ser_queue_group g) = Ok g"
  by (simp add: de_queue_group_def ser_queue_group_def)

lemma ser_text_not_null [simp]: "ser_subject s \<noteq> J_Null" "ser_queue_group g \<noteq> J_Null"
  by (simp_all add: ser_subject_def ser_queue_group_def)

lemma de_ser_subjects [simp]:
  "\<forall>s\<in>set ss. validate_subject (subject_as_str s) = Ok () \<Longrightarrow> de_list de_subject (map ser_subject ss) = Ok ss"
  by (simp add: de_list_map)

lemma enums_round [simp]:
  "discard_policy_deserialize (discard_policy_serialize d) = Ok d"
  "js_storage_deserialize (js_storage_serialize st) = Ok st"
  "replay_policy_deserialize (replay_policy_serialize r) = Ok r"
  "consumer_storage_deserialize (consumer_storage_serialize s) = Ok s"
  by (cases d; cases st; cases r; cases s; simp add: discard_policy_deserialize_def js_storage_deserialize_def
      replay_policy_deserialize_def consumer_storage_deserialize_def consumer_storage_serialize_def)+

definition stream_config_ok :: "stream_config \<Rightarrow> bool" where
  "stream_config_ok c \<longleftrightarrow> (\<forall>s\<in>set (sc_subjects c). validate_subject (subject_as_str s) = Ok ()) \<and>
     sc_replicas c \<noteq> 0 \<and> sc_max_age c < 2 ^ 64 \<and> sc_duplicate_window c < 2 ^ 64"

lemma stream_config_round:
  assumes "stream_config_serialize c = Ok j" and "stream_config_ok c"
  shows "stream_config_deserialize j = Ok c"
proof -
  obtain js where js: "ser_fields (stream_config_fields c) = Ok js" "j = J_Obj js"
    using assms(1) by (cases "ser_fields (stream_config_fields c)") (auto simp: stream_config_serialize_def ser_struct_def)
  have d: "distinct (map fst (stream_config_fields c))" by (simp add: stream_config_fields_def)
  have ok: "\<forall>p\<in>set (stream_config_fields c). case snd p of None \<Rightarrow> True | Some r \<Rightarrow> is_ok r"
    using ser_fields_Ok [of "stream_config_fields c"] js(1) by simp
  note rules = required_found [OF js(1) d]
  show ?thesis
    using ok assms(2) unfolding js(2)
    by (simp add: stream_config_deserialize_def rules stream_config_fields_def stream_config_ok_def)
qed

definition consumer_config_ok :: "'t consumer_config \<Rightarrow> bool" where
  "consumer_config_ok c \<longleftrightarrow> cc_name c \<noteq> [] \<and>
     (\<forall>s\<in>set (cc_filter_subjects c). validate_subject (subject_as_str s) = Ok ()) \<and>
     (\<forall>d\<in>set (cc_backoff c). d < 2 ^ 64) \<and> cc_inactive_threshold c < 2 ^ 64 \<and>
     cc_rate_limit c \<noteq> Some 0 \<and> cc_replicas c \<noteq> Some 0 \<and> bt_wf (\<lambda>k. k) (cc_metadata c) \<and>
     (case cc_ack_policy c of Ack_Explicit wait _ \<Rightarrow> wait < 2 ^ 64 | Ack_All wait _ \<Rightarrow> wait < 2 ^ 64 | Ack_None \<Rightarrow> True) \<and>
     (case cc_specs c of
        Pull _ _ expires _ \<Rightarrow> expires < 2 ^ 64
      | Push s g _ heartbeat \<Rightarrow> validate_subject (subject_as_str s) = Ok () \<and>
          (\<forall>g'. g = Some g' \<longrightarrow> validate_queue_group (queue_group_as_str g') = Ok ()) \<and> heartbeat < 2 ^ 64)"

definition raw_ok :: "'t raw_consumer_config \<Rightarrow> bool" where
  "raw_ok r \<longleftrightarrow>
     (\<forall>s. rc_filter_subject r = Some s \<longrightarrow> validate_subject (subject_as_str s) = Ok ()) \<and>
     (\<forall>s\<in>set (rc_filter_subjects r). validate_subject (subject_as_str s) = Ok ()) \<and>
     (\<forall>d\<in>set (rc_backoff r). d < 2 ^ 64) \<and> rc_inactive_threshold r < 2 ^ 64 \<and>
     rc_rate_limit r \<noteq> Some 0 \<and> rc_replicas r \<noteq> Some 0 \<and> bt_wf (\<lambda>k. k) (rc_metadata r) \<and>
     (case rc_ack_policy r of Ack_Explicit wait _ \<Rightarrow> wait < 2 ^ 64 | Ack_All wait _ \<Rightarrow> wait < 2 ^ 64 | Ack_None \<Rightarrow> True) \<and>
     rc_max_request_expires r < 2 ^ 64 \<and> rc_idle_heartbeat r < 2 ^ 64 \<and>
     (\<forall>s. rc_deliver_subject r = Some s \<longrightarrow> validate_subject (subject_as_str s) = Ok ()) \<and>
     (\<forall>g. rc_deliver_group r = Some g \<longrightarrow> validate_queue_group (queue_group_as_str g) = Ok ())"

text \<open>The limits that have to be there for the raw form to be read.\<close>

definition limits_given :: "u32 option \<Rightarrow> ack_policy \<Rightarrow> bool" where
  "limits_given max_deliver ap \<longleftrightarrow> max_deliver \<noteq> None \<and>
     (case ap of Ack_Explicit _ p \<Rightarrow> p \<noteq> None | Ack_All _ p \<Rightarrow> p \<noteq> None | Ack_None \<Rightarrow> True)"

lemma raw_ok_to_raw: "consumer_config_ok c \<Longrightarrow> raw_ok (to_raw c)"
  by (cases "cc_durability c"; cases "cc_specs c")
    (auto simp: consumer_config_ok_def raw_ok_def to_raw_def split: list.splits)

lemma policy_names:
  "fst ` set (deliver_policy_fields jx dp) \<subseteq> {''deliver_policy'', ''opt_start_seq'', ''opt_start_time''}"
  "fst ` set (ack_policy_fields ap) \<subseteq> {''ack_policy'', ''ack_wait'', ''max_ack_pending''}"
  by (cases dp; cases ap; simp)+

lemma policy_other:
  "n \<notin> {''deliver_policy'', ''opt_start_seq'', ''opt_start_time''} \<Longrightarrow> map_of (deliver_policy_fields jx dp) n = None"
  "n \<notin> {''ack_policy'', ''ack_wait'', ''max_ack_pending''} \<Longrightarrow> map_of (ack_policy_fields ap) n = None"
  using policy_names(1) [of jx dp] policy_names(2) [of ap] by (auto simp: map_of_eq_None_iff)

lemma policy_distinct: "distinct (map fst (deliver_policy_fields jx dp))" "distinct (map fst (ack_policy_fields ap))"
  by (cases dp; cases ap; simp)+

lemma distinct_middle:
  assumes "distinct (as @ ds)" and "distinct bs" and "distinct cs" and "set bs \<subseteq> P" and "set cs \<subseteq> Q"
    and "P \<inter> Q = {}" and "(P \<union> Q) \<inter> set (as @ ds) = {}"
  shows "distinct (as @ bs @ cs @ ds)"
  using assms by auto

lemma raw_distinct: "distinct (map fst (raw_fields jx r))"
  unfolding raw_fields_def map_append
  by (rule distinct_middle [OF _ policy_distinct policy_names [folded set_map]])
    (simp_all add: raw_fields_before_def raw_fields_after_def)

lemma deliver_policy_round:
  assumes "timestamps_ok jx" and js: "ser_fields fs = Ok js" "distinct (map fst fs)"
    and n: "\<And>n. n \<in> {''deliver_policy'', ''opt_start_seq'', ''opt_start_time''} \<Longrightarrow>
      map_of fs n = map_of (deliver_policy_fields jx dp) n"
  shows "deliver_policy_deserialize jx js = Ok dp"
  using assms(1) by (cases dp) (simp_all add: deliver_policy_deserialize_def required_found [OF js] n)

lemma ack_policy_round:
  assumes js: "ser_fields fs = Ok js" "distinct (map fst fs)"
    and n: "\<And>n. n \<in> {''ack_policy'', ''ack_wait'', ''max_ack_pending''} \<Longrightarrow> map_of fs n = map_of (ack_policy_fields ap) n"
    and ok: "\<forall>p\<in>set (ack_policy_fields ap). case snd p of None \<Rightarrow> True | Some r \<Rightarrow> is_ok r"
    and w: "case ap of Ack_Explicit wait _ \<Rightarrow> wait < 2 ^ 64 | Ack_All wait _ \<Rightarrow> wait < 2 ^ 64 | Ack_None \<Rightarrow> True"
  shows "ack_policy_deserialize js =
    (case ap of Ack_Explicit _ None \<Rightarrow> Err (Json_MissingField ''max_ack_pending'')
     | Ack_All _ None \<Rightarrow> Err (Json_MissingField ''max_ack_pending'') | _ \<Rightarrow> Ok ap)"
  using ok w by (cases ap)
    (auto simp: ack_policy_deserialize_def required_found [OF js] n field_unless_def split: option.splits)

lemma raw_other:
  "n \<in> {''deliver_policy'', ''opt_start_seq'', ''opt_start_time'', ''ack_policy'', ''ack_wait'', ''max_ack_pending''} \<Longrightarrow>
     map_of (raw_fields_before r) n = None \<and> map_of (raw_fields_after r) n = None"
  by (elim insertE emptyE) (simp_all add: raw_fields_before_def raw_fields_after_def)

lemma raw_lookup:
  "n \<in> {''deliver_policy'', ''opt_start_seq'', ''opt_start_time''} \<Longrightarrow>
     map_of (raw_fields jx r) n = map_of (deliver_policy_fields jx (rc_deliver_policy r)) n"
  "n \<in> {''ack_policy'', ''ack_wait'', ''max_ack_pending''} \<Longrightarrow>
     map_of (raw_fields jx r) n = map_of (ack_policy_fields (rc_ack_policy r)) n"
  "n \<notin> {''deliver_policy'', ''opt_start_seq'', ''opt_start_time''} \<union> {''ack_policy'', ''ack_wait'', ''max_ack_pending''} \<Longrightarrow>
     map_of (raw_fields jx r) n = map_of (raw_fields_before r @ raw_fields_after r) n"
proof -
  show "map_of (raw_fields jx r) n = map_of (deliver_policy_fields jx (rc_deliver_policy r)) n"
    if n: "n \<in> {''deliver_policy'', ''opt_start_seq'', ''opt_start_time''}"
  proof -
    have "n \<notin> {''ack_policy'', ''ack_wait'', ''max_ack_pending''}" using n by auto
    with raw_other [of n r] policy_other(2) [of n "rc_ack_policy r"] n show ?thesis
      by (auto simp: raw_fields_def map_add_def split: option.splits)
  qed
  show "map_of (raw_fields jx r) n = map_of (ack_policy_fields (rc_ack_policy r)) n"
    if n: "n \<in> {''ack_policy'', ''ack_wait'', ''max_ack_pending''}"
  proof -
    have "n \<notin> {''deliver_policy'', ''opt_start_seq'', ''opt_start_time''}" using n by auto
    with raw_other [of n r] policy_other(1) [of n jx "rc_deliver_policy r"] n show ?thesis
      by (auto simp: raw_fields_def map_add_def split: option.splits)
  qed
  show "map_of (raw_fields jx r) n = map_of (raw_fields_before r @ raw_fields_after r) n"
    if n: "n \<notin> {''deliver_policy'', ''opt_start_seq'', ''opt_start_time''} \<union> {''ack_policy'', ''ack_wait'', ''max_ack_pending''}"
    using policy_other(1) [of n jx "rc_deliver_policy r"] policy_other(2) [of n "rc_ack_policy r"] n
    by (auto simp: raw_fields_def map_add_def split: option.splits)
qed

lemma raw_round:
  assumes jx: "timestamps_ok jx" and "ser_struct (raw_fields jx r) = Ok j" and r: "raw_ok r"
  shows "raw_deserialize jx j =
    (if limits_given (rc_max_deliver r) (rc_ack_policy r) then Ok r
     else Err (Json_MissingField (case rc_ack_policy r of
         Ack_Explicit _ None \<Rightarrow> ''max_ack_pending'' | Ack_All _ None \<Rightarrow> ''max_ack_pending'' | _ \<Rightarrow> ''max_deliver'')))"
proof -
  obtain js where js: "ser_fields (raw_fields jx r) = Ok js" "j = J_Obj js"
    using assms(2) by (cases "ser_fields (raw_fields jx r)") (auto simp: ser_struct_def)
  have ok: "\<forall>p\<in>set (raw_fields jx r). case snd p of None \<Rightarrow> True | Some r \<Rightarrow> is_ok r"
    using ser_fields_Ok [of "raw_fields jx r"] js(1) by simp
  have ack: "ack_policy_deserialize js =
      (case rc_ack_policy r of Ack_Explicit _ None \<Rightarrow> Err (Json_MissingField ''max_ack_pending'')
       | Ack_All _ None \<Rightarrow> Err (Json_MissingField ''max_ack_pending'') | _ \<Rightarrow> Ok (rc_ack_policy r))"
    by (rule ack_policy_round [OF js(1) raw_distinct raw_lookup(2)])
      (use ok r in \<open>auto simp: raw_fields_def raw_ok_def\<close>)
  have dp: "deliver_policy_deserialize jx js = Ok (rc_deliver_policy r)"
    by (rule deliver_policy_round [OF jx js(1) raw_distinct raw_lookup(1)])
  have md: "rc_max_deliver r \<noteq> None \<Longrightarrow> is_ok (nullable_number_serialize (rc_max_deliver r))"
    using ok by (auto simp: raw_fields_def raw_fields_after_def)
  note req = required_found [OF js(1) raw_distinct] and dft = defaulted_found [OF js(1) raw_distinct]
  note [simp] = raw_lookup(3) raw_fields_before_def raw_fields_after_def
  have early: "defaulted js ''name'' [] de_string = Ok (rc_name r)"
      "defaulted js ''durable_name'' [] de_string = Ok (rc_durable_name r)"
      "defaulted js ''description'' [] de_string = Ok (rc_description r)"
      "required js ''max_deliver'' nullable_number_deserialize =
        (if rc_max_deliver r = None then Err (Json_MissingField ''max_deliver'') else Ok (rc_max_deliver r))"
    using md by (simp_all add: req dft)
  have numbers: "defaulted js ''backoff'' [] duration_vec_deserialize = Ok (rc_backoff r)"
      "defaulted js ''idle_heartbeat'' 0 duration_deserialize = Ok (rc_idle_heartbeat r)"
      "defaulted js ''max_expires'' 0 duration_deserialize = Ok (rc_max_request_expires r)"
      "defaulted js ''inactive_threshold'' 0 duration_deserialize = Ok (rc_inactive_threshold r)"
      "required js ''num_replicas'' option_nonzero_deserialize = Ok (rc_replicas r)"
      "optional js ''max_waiting'' de_signed = Ok (rc_max_waiting r)"
      "optional js ''max_batch'' de_signed = Ok (rc_max_request_batch r)"
      "optional js ''max_bytes'' de_signed = Ok (rc_max_request_max_bytes r)"
      "optional js ''rate_limit_bps'' de_nonzero = Ok (rc_rate_limit r)"
    using r by (auto simp: req dft optional_def raw_ok_def ser_option_def de_option_def)
  have texts: "optional js ''filter_subject'' de_subject = Ok (rc_filter_subject r)"
      "defaulted js ''filter_subjects'' [] (de_array de_subject) = Ok (rc_filter_subjects r)"
      "optional js ''deliver_subject'' de_subject = Ok (rc_deliver_subject r)"
      "optional js ''deliver_group'' de_queue_group = Ok (rc_deliver_group r)"
      "defaulted js ''metadata'' [] de_string_map = Ok (rc_metadata r)"
    using r by (auto simp: req dft optional_def raw_ok_def ser_option_def de_option_def)
  have flags: "required js ''replay_policy'' replay_policy_deserialize = Ok (rc_replay_policy r)"
      "defaulted js ''flow_control'' False de_bool = Ok (rc_flow_control r)"
      "defaulted js ''headers_only'' False de_bool = Ok (rc_headers_only r)"
      "defaulted js ''mem_storage'' Disk consumer_storage_deserialize = Ok (rc_storage r)"
    by (auto simp: req dft is_false_def)
  show ?thesis
    unfolding js(2) raw_deserialize_def de_object.simps and_then_simps early(1-3) dp ack
    by (auto simp: early(4) numbers texts flags limits_given_def split: ack_policy.splits option.splits)
qed

lemma consumer_config_round:
  assumes "timestamps_ok jx" and "consumer_config_serialize jx c = Ok j" and "consumer_config_ok c"
  shows "consumer_config_deserialize jx j =
    (if limits_given (cc_max_deliver c) (cc_ack_policy c) then Ok c
     else Err (Json_MissingField (case cc_ack_policy c of
         Ack_Explicit _ None \<Rightarrow> ''max_ack_pending'' | Ack_All _ None \<Rightarrow> ''max_ack_pending'' | _ \<Rightarrow> ''max_deliver'')))"
proof -
  have "rc_max_deliver (to_raw c) = cc_max_deliver c" "rc_ack_policy (to_raw c) = cc_ack_policy c"
    by (auto simp: to_raw_def split: prod.splits)
  moreover have "cc_name c \<noteq> []" using assms(3) by (simp add: consumer_config_ok_def)
  ultimately show ?thesis
    using raw_round [OF assms(1) assms(2) [unfolded consumer_config_serialize_def] raw_ok_to_raw [OF assms(3)]]
    by (auto simp: consumer_config_deserialize_def of_raw_to_raw)
qed

text \<open>What cannot be written: limits that the signed number of their width does not hold.\<close>

lemma nullable_number_ok:
  "is_ok (nullable_number_serialize (num :: 'a::len word option)) \<longleftrightarrow> (\<forall>n. num = Some n \<longrightarrow> uint n < 2 ^ (LENGTH('a) - 1))"
  by (auto simp: nullable_number_serialize_def split: option.splits)

lemma ser_struct_ok: "is_ok (ser_struct fs) \<longleftrightarrow> (\<forall>p\<in>set fs. case snd p of None \<Rightarrow> True | Some r \<Rightarrow> is_ok r)"
  unfolding ser_fields_Ok [symmetric] by (cases "ser_fields fs") (simp_all add: ser_struct_def)

lemma plain_ok [simp]: "is_ok (duration_serialize d)" "is_ok (duration_vec_serialize ds)" "is_ok (option_nonzero_serialize r)"
    "is_ok (compression_serialize k)" "is_ok (opposite_bool_serialize b)"
  by (simp_all add: duration_serialize_def duration_vec_serialize_def option_nonzero_serialize_def
      compression_serialize_def opposite_bool_serialize_def)

lemma ack_fields_ok:
  "(\<forall>p\<in>set (ack_policy_fields ap). case snd p of None \<Rightarrow> True | Some r \<Rightarrow> is_ok r) \<longleftrightarrow>
     (case ap of Ack_Explicit _ (Some n) \<Rightarrow> uint n < 2 ^ 31 | Ack_All _ (Some n) \<Rightarrow> uint n < 2 ^ 31 | _ \<Rightarrow> True)"
proof (cases ap)
  case (Ack_Explicit w p)
  then show ?thesis by (cases p) (simp_all add: nullable_number_ok)
next
  case (Ack_All w p)
  then show ?thesis by (cases p) (simp_all add: nullable_number_ok)
qed simp

lemma consumer_config_serialize_ok:
  "is_ok (consumer_config_serialize jx c) \<longleftrightarrow>
     (\<forall>n. cc_max_deliver c = Some n \<longrightarrow> uint n < 2 ^ 31) \<and>
     (case cc_ack_policy c of Ack_Explicit _ (Some n) \<Rightarrow> uint n < 2 ^ 31 | Ack_All _ (Some n) \<Rightarrow> uint n < 2 ^ 31 | _ \<Rightarrow> True)"
proof -
  let ?ok = "\<lambda>fs. \<forall>p\<in>set fs. case snd p of None \<Rightarrow> True | Some r \<Rightarrow> is_ok r"
  have "rc_max_deliver (to_raw c) = cc_max_deliver c" "rc_ack_policy (to_raw c) = cc_ack_policy c"
    by (auto simp: to_raw_def split: prod.splits)
  then have "?ok (raw_fields_before (to_raw c))"
      "?ok (raw_fields_after (to_raw c)) \<longleftrightarrow> (\<forall>n. cc_max_deliver c = Some n \<longrightarrow> uint n < 2 ^ 31)"
      "?ok (ack_policy_fields (rc_ack_policy (to_raw c))) \<longleftrightarrow>
        (case cc_ack_policy c of Ack_Explicit _ (Some n) \<Rightarrow> uint n < 2 ^ 31 | Ack_All _ (Some n) \<Rightarrow> uint n < 2 ^ 31 | _ \<Rightarrow> True)"
    unfolding ack_fields_ok by (simp_all add: raw_fields_before_def raw_fields_after_def nullable_number_ok)
  moreover have "?ok (deliver_policy_fields jx p)" for p by (cases p) simp_all
  ultimately show ?thesis
    unfolding consumer_config_serialize_def ser_struct_ok raw_fields_def set_append ball_Un by blast
qed

lemma stream_config_serialize_ok:
  "is_ok (stream_config_serialize c) \<longleftrightarrow>
     (\<forall>n. sc_max_consumers c = Some n \<or> sc_max_message_size c = Some n \<longrightarrow> uint n < 2 ^ 31) \<and>
     (\<forall>n. sc_max_messages c = Some n \<or> sc_max_bytes c = Some n \<or> sc_max_messages_per_subject c = Some n \<longrightarrow> uint n < 2 ^ 63)"
  by (auto simp: stream_config_serialize_def ser_struct_ok stream_config_fields_def nullable_number_ok)

end
