(* ===== verification/Jetstream.thy ===== *)
theory Jetstream
  imports Requests Connection Js_Resources
begin

text \<open>
  \<open>watermelon/src/client/jetstream/mod.rs\<close>, \<open>commands/message.rs\<close> and \<open>commands/publish.rs\<close>: requests to the
  JetStream API, messages that are acknowledged, and publishing with an acknowledgment of the server. The
  client is threaded through as for the requests it sends; \<open>js_env\<close> holds what is not in the repository, with
  \<open>je_pending\<close> whether a poll of a future that sends finds the channel of the commands full.
\<close>

record ('s, 'x, 'o, 'q, 'p, 't, 'w) js_env =
  je_ops :: "('s, 'x, 'o, 'q, 'p, 'w) client_ops"
  je_receivers :: "('x, 'q, 'w) receiver_ops"
  je_clock :: "'w clock_ops"
  je_json :: "'t json_text"
  je_unicase :: "bytes \<Rightarrow> bytes"
  je_pending :: "'w \<Rightarrow> bool \<times> 'w"

section \<open>Errors and responses\<close>

definition JS_STREAM_NOT_FOUND :: u16 where "JS_STREAM_NOT_FOUND = 10059"
definition JS_CONSUMER_NOT_FOUND :: u16 where "JS_CONSUMER_NOT_FOUND = 10014"

record jetstream_api_error =
  ae_status :: status_code
  ae_code :: u16
  ae_description :: bytes

definition api_error_deserialize :: "json \<Rightarrow> json_error + jetstream_api_error" where
  "api_error_deserialize j =
     and_then (de_object j) (\<lambda>fs.
     and_then (required fs ''code'' (\<lambda>j. status_code_deserialize (de_unsigned j) (\<lambda>e. e) (\<lambda>_. Json_Custom))) (\<lambda>status.
     and_then (required fs ''err_code'' de_unsigned) (\<lambda>code.
     and_then (required fs ''description'' de_string) (\<lambda>description.
     Ok \<lparr> ae_status = status, ae_code = code, ae_description = description \<rparr>))))"

datatype jetstream_publish_error = JetStreamNotEnabled | NoStreamMatches | StreamFull | MessagesDiscarded
  | Publish_Other bytes

datatype jetstream_error = Js_Subject subject_validate_error | Js_HeaderValue header_value_validate_error
  | Js_ClientClosed client_closed_error | Js_ResponseError response_error | Js_Json json_error
  | Js_Api jetstream_api_error | Js_PublishStatus jetstream_publish_error

text \<open>The untagged enum \<open>Response\<close>: the first variant that can be read, the error first.\<close>

datatype 'a js_response = Response_Error jetstream_api_error | Response_Ok 'a

definition response_deserialize :: "(json \<Rightarrow> json_error + 'a) \<Rightarrow> json \<Rightarrow> json_error + 'a js_response" where
  "response_deserialize de j =
     (case and_then (de_object j) (\<lambda>fs. required fs ''error'' api_error_deserialize) of
        Inr e \<Rightarrow> Ok (Response_Error e)
      | Inl _ \<Rightarrow> (case de j of Inr a \<Rightarrow> Ok (Response_Ok a) | Inl _ \<Rightarrow> Err Json_NoVariant))"

definition delete_consumer_response_deserialize :: "json \<Rightarrow> json_error + bool" where
  "delete_consumer_response_deserialize j = and_then (de_object j) (\<lambda>fs. required fs ''success'' de_bool)"

section \<open>The client\<close>

definition DEFAULT_REQUEST_TIMEOUT :: nat where "DEFAULT_REQUEST_TIMEOUT = from_secs 2"

record jetstream_client =
  js_prefix :: subject
  js_request_timeout :: nat

definition jetstream_new_with_prefix :: "subject \<Rightarrow> jetstream_client" where
  "jetstream_new_with_prefix prefix = \<lparr> js_prefix = prefix, js_request_timeout = DEFAULT_REQUEST_TIMEOUT \<rparr>"

definition jetstream_new :: "bool \<Rightarrow> jetstream_client option" where
  "jetstream_new dbg = map_option jetstream_new_with_prefix (subject_from_static dbg ''$JS.API'')"

definition jetstream_new_with_domain :: "bool \<Rightarrow> bytes \<Rightarrow> (subject_validate_error + jetstream_client) option" where
  "jetstream_new_with_domain dbg name =
     map_option (map_ok jetstream_new_with_prefix) (subject_try_from dbg (''$JS.'' @ name @ ''.API''))"

definition subject_for_request :: "bool \<Rightarrow> subject \<Rightarrow> jetstream_client \<Rightarrow> subject option" where
  "subject_for_request dbg endpoint jc =
     subject_from_dangerous_value dbg (subject_as_str (js_prefix jc) @ ''.'' @ subject_as_str endpoint)"

definition make_request :: "subject \<Rightarrow> jetstream_client \<Rightarrow> request" where
  "make_request subject jc = request_response_timeout (js_request_timeout jc) (request_subject subject)"

section \<open>Requests to the API\<close>

text \<open>What the functions of the client are made of: \<open>?\<close>, sending a request, waiting for its response, reading it.\<close>

type_synonym ('a, 'w) js_result = "((jetstream_error + 'a) \<times> client \<times> 'w) option"

definition js_then ::
    "('a, 'w) js_result \<Rightarrow> ('a \<Rightarrow> client \<Rightarrow> 'w \<Rightarrow> ('b, 'w) js_result) \<Rightarrow> ('b, 'w) js_result" where
  "js_then m f = do {
     (r, c, w) \<leftarrow> m;
     (case r of Inl e \<Rightarrow> Some (Err e, c, w) | Inr a \<Rightarrow> f a c w) }"

definition js_try :: "jetstream_error + 'a \<Rightarrow> client \<Rightarrow> 'w \<Rightarrow> ('a, 'w) js_result" where
  "js_try r c w = Some (r, c, w)"

definition js_subject :: "bool \<Rightarrow> bytes \<Rightarrow> client \<Rightarrow> 'w \<Rightarrow> (subject, 'w) js_result" where
  "js_subject dbg text c w = do {
     r \<leftarrow> subject_try_from dbg text;
     js_try (map_err Js_Subject r) c w }"

definition js_send ::
    "('s, 'x, 'o, 'q, 'p, 't, 'w) js_env \<Rightarrow> bool \<Rightarrow> request \<Rightarrow> client \<Rightarrow> 'w \<Rightarrow> (('x, 'q) response_fut, 'w) js_result" where
  "js_send e dbg r c w = do {
     (x, c, w) \<leftarrow> do_request (je_ops e) (je_receivers e) (je_clock e) dbg r c w;
     js_try (map_err Js_ClientClosed x) c w }"

definition await_response ::
    "('s, 'x, 'o, 'q, 'p, 't, 'w) js_env \<Rightarrow> bool \<Rightarrow> ('x, 'q) response_fut \<Rightarrow> client \<Rightarrow> 'w \<Rightarrow>
     ((response_error + server_message) \<times> client \<times> 'w) option" where
  "await_response e dbg f c w = do {
     (x, f, w) \<leftarrow> await (response_poll (je_clock e) (je_receivers e) dbg) f w;
     (case response_drop (je_ops e) (je_receivers e) f c w of (c, w) \<Rightarrow> Some (x, c, w)) }"

definition js_await ::
    "('s, 'x, 'o, 'q, 'p, 't, 'w) js_env \<Rightarrow> bool \<Rightarrow> ('x, 'q) response_fut \<Rightarrow> client \<Rightarrow> 'w \<Rightarrow> (server_message, 'w) js_result" where
  "js_await e dbg f c w = do {
     (x, c, w) \<leftarrow> await_response e dbg f c w;
     js_try (map_err Js_ResponseError x) c w }"

definition js_parse :: "('t, 'z) json_text_scheme \<Rightarrow> (json \<Rightarrow> json_error + 'a) \<Rightarrow> server_message \<Rightarrow> jetstream_error + 'a" where
  "js_parse jx de resp = map_err Js_Json (and_then (of_text jx (msg_payload (base resp))) de)"

definition js_call ::
    "('s, 'x, 'o, 'q, 'p, 't, 'w) js_env \<Rightarrow> bool \<Rightarrow> jetstream_client \<Rightarrow> subject \<Rightarrow> bytes \<Rightarrow> (json \<Rightarrow> json_error + 'a) \<Rightarrow>
     client \<Rightarrow> 'w \<Rightarrow> ('a js_response, 'w) js_result" where
  "js_call e dbg jc subject payload de c w =
     js_then (js_send e dbg (request_payload payload (make_request subject jc)) c w) (\<lambda>f c w.
     js_then (js_await e dbg f c w) (\<lambda>resp c w.
     js_try (js_parse (je_json e) (response_deserialize de) resp) c w))"

definition js_name :: "jetstream_client \<Rightarrow> bytes list \<Rightarrow> bytes" where
  "js_name jc parts = subject_as_str (js_prefix jc) @ concat parts"

definition create_stream ::
    "('s, 'x, 'o, 'q, 'p, 't, 'w) js_env \<Rightarrow> bool \<Rightarrow> jetstream_client \<Rightarrow> stream_config \<Rightarrow> client \<Rightarrow> 'w \<Rightarrow>
     ('t stream, 'w) js_result" where
  "create_stream e dbg jc config c w =
     js_then (js_subject dbg (js_name jc [''.STREAM.CREATE.'', sc_name config]) c w) (\<lambda>subject c w.
     js_then (js_try (map_err Js_Json (map_ok (to_text (je_json e)) (stream_config_serialize config))) c w) (\<lambda>payload c w.
     js_then (js_call e dbg jc subject payload (stream_deserialize (je_json e)) c w) (\<lambda>json c w.
     js_try (case json of Response_Ok stream \<Rightarrow> Ok stream | Response_Error error \<Rightarrow> Err (Js_Api error)) c w)))"

definition get_stream ::
    "('s, 'x, 'o, 'q, 'p, 't, 'w) js_env \<Rightarrow> bool \<Rightarrow> jetstream_client \<Rightarrow> bytes \<Rightarrow> client \<Rightarrow> 'w \<Rightarrow>
     ('t stream option, 'w) js_result" where
  "get_stream e dbg jc name c w =
     js_then (js_subject dbg (js_name jc [''.STREAM.INFO.'', name]) c w) (\<lambda>subject c w.
     js_then (js_call e dbg jc subject [] (stream_deserialize (je_json e)) c w) (\<lambda>json c w.
     js_try (case json of
         Response_Ok stream \<Rightarrow> Ok (Some stream)
       | Response_Error error \<Rightarrow> if ae_code error = JS_STREAM_NOT_FOUND then Ok None else Err (Js_Api error)) c w))"

text \<open>\<open>json!\<close> panics when the configuration cannot be serialized.\<close>

definition create_consumer ::
    "('s, 'x, 'o, 'q, 'p, 't, 'w) js_env \<Rightarrow> bool \<Rightarrow> jetstream_client \<Rightarrow> bytes \<Rightarrow> 't consumer_config \<Rightarrow> client \<Rightarrow> 'w \<Rightarrow>
     ('t consumer, 'w) js_result" where
  "create_consumer e dbg jc stream_name config c w =
     (let text = js_name jc [''.CONSUMER.CREATE.'', stream_name, ''.'', cc_name config];
          text = (case cc_filter_subjects config of [s] \<Rightarrow> text @ ''.'' @ subject_as_str s | _ \<Rightarrow> text)
      in js_then (js_subject dbg text c w) (\<lambda>subject c w. do {
        config \<leftarrow> json_interpolate (consumer_config_serialize (je_json e) config);
        let payload = to_text (je_json e) (J_Obj [(''stream_name'', J_Str stream_name), (''config'', config),
          (''action'', J_Str ''create''), (''pedantic'', J_Bool True)]);
        js_then (js_call e dbg jc subject payload (consumer_deserialize (je_json e)) c w) (\<lambda>json c w.
        js_try (case json of Response_Ok consumer \<Rightarrow> Ok consumer | Response_Error error \<Rightarrow> Err (Js_Api error)) c w) }))"

definition get_consumer ::
    "('s, 'x, 'o, 'q, 'p, 't, 'w) js_env \<Rightarrow> bool \<Rightarrow> jetstream_client \<Rightarrow> bytes \<Rightarrow> bytes \<Rightarrow> client \<Rightarrow> 'w \<Rightarrow>
     ('t consumer option, 'w) js_result" where
  "get_consumer e dbg jc stream_name consumer_name c w =
     js_then (js_subject dbg (js_name jc [''.CONSUMER.INFO.'', stream_name, ''.'', consumer_name]) c w) (\<lambda>subject c w.
     js_then (js_call e dbg jc subject [] (consumer_deserialize (je_json e)) c w) (\<lambda>json c w.
     js_try (case json of
         Response_Ok consumer \<Rightarrow> Ok (Some consumer)
       | Response_Error error \<Rightarrow> if ae_code error = JS_CONSUMER_NOT_FOUND then Ok None else Err (Js_Api error)) c w))"

definition delete_consumer ::
    "('s, 'x, 'o, 'q, 'p, 't, 'w) js_env \<Rightarrow> bool \<Rightarrow> jetstream_client \<Rightarrow> bytes \<Rightarrow> bytes \<Rightarrow> client \<Rightarrow> 'w \<Rightarrow> (unit, 'w) js_result" where
  "delete_consumer e dbg jc stream_name consumer_name c w =
     js_then (js_subject dbg (js_name jc [''.CONSUMER.DELETE.'', stream_name, ''.'', consumer_name]) c w) (\<lambda>subject c w.
     js_then (js_call e dbg jc subject [] delete_consumer_response_deserialize c w) (\<lambda>json c w.
     js_try (case json of Response_Ok _ \<Rightarrow> Ok () | Response_Error error \<Rightarrow> Err (Js_Api error)) c w))"

section \<open>\<open>JetstreamMessage\<close>\<close>

text \<open>The message holds a handle of the client until it is acknowledged: \<open>jm_client\<close> says that it still does.\<close>

datatype jetstream_message_ack_error = Ack_ClientClosed client_closed_error | NoReplySubject | AlreadyAcknowledged

record jetstream_message =
  jm_message :: server_message
  jm_client :: "unit option"
  jm_acknowledged :: bool

definition jetstream_message_new :: "server_message \<Rightarrow> jetstream_message" where
  "jetstream_message_new message = \<lparr> jm_message = message, jm_client = Some (), jm_acknowledged = False \<rparr>"

definition take_reply_subject :: "jetstream_message \<Rightarrow> (jetstream_message_ack_error + subject) \<times> jetstream_message" where
  "take_reply_subject m =
     (ok_or NoReplySubject (msg_reply_subject (base (jm_message m))),
      m\<lparr>jm_message := (jm_message m)\<lparr>base := (base (jm_message m))\<lparr>msg_reply_subject := None\<rparr>\<rparr>\<rparr>)"

definition take_client :: "jetstream_message \<Rightarrow> (jetstream_message_ack_error + unit) \<times> jetstream_message" where
  "take_client m = (ok_or NoReplySubject (jm_client m), m\<lparr>jm_client := None\<rparr>)"

definition ensure_not_acked :: "jetstream_message \<Rightarrow> jetstream_message_ack_error + unit" where
  "ensure_not_acked m = (if jm_acknowledged m then Err AlreadyAcknowledged else Ok ())"

definition mark_acknowledged :: "jetstream_message \<Rightarrow> jetstream_message" where
  "mark_acknowledged m = m\<lparr>jm_acknowledged := True\<rparr>"

text \<open>The body that \<open>ack\<close>, \<open>nak\<close>, \<open>nak_with_delay\<close>, \<open>term\<close> and \<open>term_with_reason\<close> share, up to the payload.\<close>

definition acknowledge ::
    "('s, 'x, 'o, 'q, 'p, 'w) client_ops \<Rightarrow> bytes \<Rightarrow> jetstream_message \<Rightarrow> 'w \<Rightarrow>
     ((jetstream_message_ack_error + unit) \<times> jetstream_message \<times> 'w) option" where
  "acknowledge t payload m w =
     (case take_reply_subject m of
        (Inl err, m) \<Rightarrow> Some (Err err, m, w)
      | (Inr reply_subject, m) \<Rightarrow>
          (case ensure_not_acked m of
             Inl err \<Rightarrow> Some (Err err, m, w)
           | Inr _ \<Rightarrow>
               (case take_client m of
                  (Inl err, m) \<Rightarrow> Some (Err err, m, w)
                | (Inr _, m) \<Rightarrow> do {
                    (r, w) \<leftarrow> do_publish t (publish_payload payload (publish_subject reply_subject)) w;
                    (case r of
                       Inl err \<Rightarrow> Some (Err (Ack_ClientClosed err), m, w)
                     | Inr _ \<Rightarrow> Some (Ok (), mark_acknowledged m, w)) })))"

definition ack where "ack t = acknowledge t ''+ACK''"
definition nak where "nak t = acknowledge t ''-NAK''"
definition nak_with_delay where
  "nak_with_delay t d = acknowledge t (''-NAK {\"delay\": '' @ dec d @ ''}'')"
definition ack_term where "ack_term t = acknowledge t ''+TERM''"
definition term_with_reason where "term_with_reason t reason = acknowledge t (''+TERM '' @ reason)"

definition progress ::
    "('s, 'x, 'o, 'q, 'p, 'w) client_ops \<Rightarrow> jetstream_message \<Rightarrow> 'w \<Rightarrow>
     ((jetstream_message_ack_error + unit) \<times> 'w) option" where
  "progress t m w =
     (case ok_or NoReplySubject (msg_reply_subject (base (jm_message m))) of
        Inl err \<Rightarrow> Some (Err err, w)
      | Inr reply_subject \<Rightarrow>
          (case ok_or NoReplySubject (jm_client m) of
             Inl err \<Rightarrow> Some (Err err, w)
           | Inr _ \<Rightarrow> do {
               (r, w) \<leftarrow> do_publish t (publish_payload ''+WPI'' (publish_subject reply_subject)) w;
               Some (map_err Ack_ClientClosed r, w) }))"

definition is_acked :: "jetstream_message \<Rightarrow> bool" where "is_acked m = jm_acknowledged m"

section \<open>Publishing\<close>

record pub_ack =
  pa_stream :: bytes
  pa_sequence :: u64
  pa_domain :: "bytes option"
  pa_duplicate :: "bool option"

definition pub_ack_deserialize :: "json \<Rightarrow> json_error + pub_ack" where
  "pub_ack_deserialize j =
     and_then (de_object j) (\<lambda>fs.
     and_then (required fs ''stream'' de_string) (\<lambda>stream.
     and_then (required fs ''seq'' de_unsigned) (\<lambda>sequence.
     and_then (optional fs ''domain'' de_string) (\<lambda>dom.
     and_then (optional fs ''duplicate'' de_bool) (\<lambda>duplicate.
     Ok \<lparr> pa_stream = stream, pa_sequence = sequence, pa_domain = dom, pa_duplicate = duplicate \<rparr>)))))"

record jetstream_publish =
  jp_subject :: subject
  jp_payload :: bytes
  jp_stream :: "bytes option"
  jp_expected_stream :: "bytes option"
  jp_expected_last_stream_sequence :: "u64 option"
  jp_expected_last_subject_sequence :: "u64 option"
  jp_expected_last_message_id :: "bytes option"
  jp_message_id :: "bytes option"
  jp_ttl :: "u32 option"

definition jetstream_publish_subject :: "subject \<Rightarrow> jetstream_publish" where
  "jetstream_publish_subject subject =
     \<lparr> jp_subject = subject, jp_payload = [], jp_stream = None, jp_expected_stream = None,
       jp_expected_last_stream_sequence = None, jp_expected_last_subject_sequence = None,
       jp_expected_last_message_id = None, jp_message_id = None, jp_ttl = None \<rparr>"

definition jp_set_stream :: "bytes \<Rightarrow> jetstream_publish \<Rightarrow> jetstream_publish" where
  "jp_set_stream stream p = p\<lparr>jp_stream := Some stream\<rparr>"

definition jp_set_expected_stream :: "bytes \<Rightarrow> jetstream_publish \<Rightarrow> jetstream_publish" where
  "jp_set_expected_stream stream p = p\<lparr>jp_expected_stream := Some stream\<rparr>"

definition jp_set_expected_last_stream_sequence :: "u64 \<Rightarrow> jetstream_publish \<Rightarrow> jetstream_publish" where
  "jp_set_expected_last_stream_sequence sequence p = p\<lparr>jp_expected_last_stream_sequence := Some sequence\<rparr>"

definition jp_set_expected_last_subject_sequence :: "u64 \<Rightarrow> jetstream_publish \<Rightarrow> jetstream_publish" where
  "jp_set_expected_last_subject_sequence sequence p = p\<lparr>jp_expected_last_subject_sequence := Some sequence\<rparr>"

definition jp_set_expected_last_message_id :: "bytes \<Rightarrow> jetstream_publish \<Rightarrow> jetstream_publish" where
  "jp_set_expected_last_message_id i p = p\<lparr>jp_expected_last_message_id := Some i\<rparr>"

definition jp_set_message_id :: "bytes \<Rightarrow> jetstream_publish \<Rightarrow> jetstream_publish" where
  "jp_set_message_id i p = p\<lparr>jp_message_id := Some i\<rparr>"

definition jp_set_ttl :: "u32 \<Rightarrow> jetstream_publish \<Rightarrow> jetstream_publish" where
  "jp_set_ttl seconds p = p\<lparr>jp_ttl := Some seconds\<rparr>"

definition jetstream_publish_payload :: "bytes \<Rightarrow> jetstream_publish \<Rightarrow> jetstream_publish" where
  "jetstream_publish_payload b p = p\<lparr>jp_payload := b\<rparr>"

text \<open>The serializer is \<open>serde_json::to_vec\<close>. A builder that holds a client is a pair of it and the message,
  whether the client is borrowed or owned.\<close>

definition jetstream_publish_payload_json ::
    "('v \<Rightarrow> 'j + bytes) \<Rightarrow> 'v \<Rightarrow> jetstream_publish \<Rightarrow> 'j + jetstream_publish" where
  "jetstream_publish_payload_json to_vec payload p = map_ok (\<lambda>b. jetstream_publish_payload b p) (to_vec payload)"

type_synonym 'h client_jetstream_publish = "'h \<times> jetstream_publish"

definition jetstream_publish_client :: "jetstream_publish \<Rightarrow> 'h \<Rightarrow> 'h client_jetstream_publish" where
  "jetstream_publish_client p h = (h, p)"

definition client_jetstream_publish_build :: "'h \<Rightarrow> subject \<Rightarrow> 'h client_jetstream_publish" where
  "client_jetstream_publish_build h subject = (h, jetstream_publish_subject subject)"

definition client_jetstream_publish_payload :: "bytes \<Rightarrow> 'h client_jetstream_publish \<Rightarrow> 'h client_jetstream_publish" where
  "client_jetstream_publish_payload b cp = jetstream_publish_client (jetstream_publish_payload b (snd cp)) (fst cp)"

text \<open>A value of the caller is checked; a number is printed and is not.\<close>

definition insert_text ::
    "bool \<Rightarrow> (bytes \<Rightarrow> bytes) \<Rightarrow> bytes \<Rightarrow> bytes option \<Rightarrow> header_map \<Rightarrow> (header_value_validate_error + header_map) option" where
  "insert_text dbg uc name x h =
     (case x of
        None \<Rightarrow> Some (Ok h)
      | Some s \<Rightarrow> do {
          n \<leftarrow> header_name_from_static dbg name;
          and_then_p (header_value_from_bytes dbg s) (\<lambda>v. map_option Ok (header_map_insert uc n v h)) })"

definition insert_number ::
    "bool \<Rightarrow> (bytes \<Rightarrow> bytes) \<Rightarrow> bytes \<Rightarrow> 'a::len word option \<Rightarrow> header_map \<Rightarrow>
     (header_value_validate_error + header_map) option" where
  "insert_number dbg uc name x h =
     (case x of
        None \<Rightarrow> Some (Ok h)
      | Some i \<Rightarrow> do {
          n \<leftarrow> header_name_from_static dbg name;
          v \<leftarrow> header_value_from_dangerous_value dbg (dec (unat i));
          map_option Ok (header_map_insert uc n v h) })"

definition build_headers ::
    "bool \<Rightarrow> (bytes \<Rightarrow> bytes) \<Rightarrow> jetstream_publish \<Rightarrow> (header_value_validate_error + header_map) option" where
  "build_headers dbg uc p =
     and_then_p (insert_text dbg uc ''Nats-Stream'' (jp_stream p) header_map_new) (\<lambda>h.
     and_then_p (insert_text dbg uc ''Nats-Expected-Stream'' (jp_expected_stream p) h) (\<lambda>h.
     and_then_p (insert_number dbg uc ''Nats-Expected-Last-Sequence'' (jp_expected_last_stream_sequence p) h) (\<lambda>h.
     and_then_p (insert_number dbg uc ''Nats-Expected-Last-Subject-Sequence'' (jp_expected_last_subject_sequence p) h) (\<lambda>h.
     and_then_p (insert_text dbg uc ''Nats-Expected-Last-Msg-Id'' (jp_expected_last_message_id p) h) (\<lambda>h.
     and_then_p (insert_text dbg uc ''Nats-Msg-Id'' (jp_message_id p) h) (\<lambda>h.
     insert_number dbg uc ''Nats-TTL'' (jp_ttl p) h))))))"

text \<open>\<open>String::from_utf8_lossy\<close>: each maximal part of a sequence that is cut short becomes U+FFFD.\<close>

definition utf8_bad_length :: "bytes \<Rightarrow> nat" where
  "utf8_bad_length b = (case b of b1 # b2 # r \<Rightarrow>
     if byte_val b1 = 224 \<and> between 160 191 b2 \<or> between 225 236 b1 \<and> cont b2 \<or>
        byte_val b1 = 237 \<and> between 128 159 b2 \<or> between 238 239 b1 \<and> cont b2 then 2
     else if byte_val b1 = 240 \<and> between 144 191 b2 \<or> between 241 243 b1 \<and> cont b2 \<or>
        byte_val b1 = 244 \<and> between 128 143 b2 then (if r \<noteq> [] \<and> cont (hd r) then 3 else 2)
     else 1
   | _ \<Rightarrow> 1)"

function from_utf8_lossy :: "bytes \<Rightarrow> bytes" where
  "from_utf8_lossy b =
     (if b = [] then []
      else if utf8_head b = 0
        then [CHR 0xEF, CHR 0xBF, CHR 0xBD] @ from_utf8_lossy (drop (utf8_bad_length b) b)
      else take (utf8_head b) b @ from_utf8_lossy (drop (utf8_head b) b))"
  by pat_completeness auto
termination
  by (relation "measure length") (auto simp: utf8_bad_length_def split: list.splits)

declare from_utf8_lossy.simps [simp del]

definition js_do_publish ::
    "('s, 'x, 'o, 'q, 'p, 't, 'w) js_env \<Rightarrow> bool \<Rightarrow> jetstream_publish \<Rightarrow> client \<Rightarrow> 'w \<Rightarrow> (pub_ack, 'w) js_result" where
  "js_do_publish e dbg p c w = do {
     hdrs \<leftarrow> build_headers dbg (je_unicase e) p;
     js_then (js_try (map_err Js_HeaderValue hdrs) c w) (\<lambda>hdrs c w.
     js_then (js_send e dbg (request_payload (jp_payload p) (request_headers hdrs (request_subject (jp_subject p)))) c w) (\<lambda>f c w. do {
       (x, c, w) \<leftarrow> await_response e dbg f c w;
       js_then (js_try (map_err (\<lambda>err. case err of
           NoResponders \<Rightarrow> Js_PublishStatus NoStreamMatches
         | err \<Rightarrow> Js_ResponseError err) x) c w) (\<lambda>response c w.
       (case status_code response of
          Some status \<Rightarrow> js_try (Err (Js_PublishStatus
            (if status = CONFLICT then NoStreamMatches
             else Publish_Other (from_utf8_lossy (msg_payload (base response)))))) c w
        | None \<Rightarrow>
            js_then (js_try (js_parse (je_json e) (response_deserialize pub_ack_deserialize) response) c w) (\<lambda>json c w.
            js_try (case json of Response_Ok a \<Rightarrow> Ok a | Response_Error error \<Rightarrow> Err (Js_Api error)) c w))) })) }"

end
