(* ===== verification/Js_Lists.thy ===== *)
theory Js_Lists
  imports Jetstream
begin

text \<open>
  \<open>commands/stream_list.rs\<close> and \<open>consumer_list.rs\<close>: streams that list what the server has, a page at a time. The two
  have the same body, \<open>page_poll\<close>, after what is checked first. The boxed future of a page is \<open>call\<close>: a request
  that waits to be sent, then the future of its response.
\<close>

section \<open>The future of a page\<close>

datatype ('x, 'q) call = Call_Sending request | Call_Waiting "('x, 'q) response_fut"

definition call_waiting_poll ::
    "('s, 'x, 'o, 'q, 'p, 't, 'w) js_env \<Rightarrow> bool \<Rightarrow> ('x, 'q) response_fut \<Rightarrow> client \<Rightarrow> 'w \<Rightarrow>
     ((jetstream_error + server_message) poll \<times> ('x, 'q) call \<times> client \<times> 'w) option" where
  "call_waiting_poll e dbg f c w = do {
     (r, f, w) \<leftarrow> response_poll (je_clock e) (je_receivers e) dbg f w;
     (case r of
        Pending \<Rightarrow> Some (Pending, Call_Waiting f, c, w)
      | Ready x \<Rightarrow>
          (case response_drop (je_ops e) (je_receivers e) f c w of (c, w) \<Rightarrow>
             Some (Ready (map_err Js_ResponseError x), Call_Waiting f, c, w))) }"

definition call_poll ::
    "('s, 'x, 'o, 'q, 'p, 't, 'w) js_env \<Rightarrow> bool \<Rightarrow> ('x, 'q) call \<Rightarrow> client \<Rightarrow> 'w \<Rightarrow>
     ((jetstream_error + server_message) poll \<times> ('x, 'q) call \<times> client \<times> 'w) option" where
  "call_poll e dbg call c w =
     (case call of
        Call_Waiting f \<Rightarrow> call_waiting_poll e dbg f c w
      | Call_Sending r \<Rightarrow>
          (case je_pending e w of (is_pending, w) \<Rightarrow>
             if is_pending then Some (Pending, call, c, w)
             else do {
               (x, c, w) \<leftarrow> do_request (je_ops e) (je_receivers e) (je_clock e) dbg r c w;
               (case x of
                  Inl err \<Rightarrow> Some (Ready (Err (Js_ClientClosed err)), call, c, w)
                | Inr f \<Rightarrow> call_waiting_poll e dbg f c w) }))"

section \<open>Pages\<close>

record ('x, 'q, 'a) pages =
  pg_client :: jetstream_client
  pg_offset :: u32
  pg_fetch :: "('x, 'q) call option"
  pg_buffer :: "'a list"
  pg_exhausted :: bool

text \<open>\<open>+=\<close> on a \<open>u32\<close>, which wraps unless overflow is checked.\<close>

definition add_assign :: "bool \<Rightarrow> 'a::len word \<Rightarrow> 'a word \<Rightarrow> 'a word option" where
  "add_assign dbg a b = (case checked_add a b of Some n \<Rightarrow> Some n | None \<Rightarrow> if dbg then None else Some (a + b))"

definition list_request ::
    "('s, 'x, 'o, 'q, 'p, 't, 'w) js_env \<Rightarrow> bool \<Rightarrow> jetstream_client \<Rightarrow> subject \<Rightarrow> u32 \<Rightarrow> request option" where
  "list_request e dbg jc endpoint off = do {
     subject \<leftarrow> subject_for_request dbg endpoint jc;
     Some (request_payload (to_text (je_json e) (J_Obj [(''offset'', ser_unsigned off)])) (make_request subject jc)) }"

definition page_loaded :: "bool \<Rightarrow> u32 \<Rightarrow> 'a list \<Rightarrow> ('x, 'q, 'a, 'z) pages_scheme \<Rightarrow> ('x, 'q, 'a, 'z) pages_scheme option" where
  "page_loaded dbg limit items s =
     (let s = s\<lparr>pg_fetch := None, pg_buffer := items\<rparr> in
      if length (pg_buffer s) < unat limit then Some (s\<lparr>pg_exhausted := True\<rparr>)
      else if pg_buffer s \<noteq> [] then map_option (\<lambda>off. s\<lparr>pg_offset := off\<rparr>) (add_assign dbg (pg_offset s) limit)
      else Some s)"

definition page_poll ::
    "('s, 'x, 'o, 'q, 'p, 't, 'w) js_env \<Rightarrow> bool \<Rightarrow> (u32 \<Rightarrow> request option) \<Rightarrow>
     (server_message \<Rightarrow> jetstream_error + u32 \<times> 'a list) \<Rightarrow> ('x, 'q, 'a, 'z) pages_scheme \<Rightarrow> client \<Rightarrow> 'w \<Rightarrow>
     ((jetstream_error + 'a) option poll \<times> ('x, 'q, 'a, 'z) pages_scheme \<times> client \<times> 'w) option" where
  "page_poll e dbg mk read s c w =
     (case pg_buffer s of
        a # buffer \<Rightarrow> Some (Ready (Some (Ok a)), s\<lparr>pg_buffer := buffer\<rparr>, c, w)
      | [] \<Rightarrow>
          if pg_exhausted s then Some (Ready None, s, c, w)
          else do {
            fetch \<leftarrow> (case pg_fetch s of Some fetch \<Rightarrow> Some fetch | None \<Rightarrow> map_option Call_Sending (mk (pg_offset s)));
            (r, fetch, c, w) \<leftarrow> call_poll e dbg fetch c w;
            (case r of
               Pending \<Rightarrow> Some (Pending, s\<lparr>pg_fetch := Some fetch\<rparr>, c, w)
             | Ready x \<Rightarrow>
                 (case and_then x read of
                    Inr (limit, items) \<Rightarrow> do { s \<leftarrow> page_loaded dbg limit items s; Some (Pending, s, c, w) }
                  | Inl err \<Rightarrow> Some (Ready (Some (Err err)), s\<lparr>pg_fetch := None\<rparr>, c, w))) })"

definition pages_is_terminated :: "('x, 'q, 'a, 'z) pages_scheme \<Rightarrow> bool" where
  "pages_is_terminated s \<longleftrightarrow> pg_buffer s = [] \<and> pg_exhausted s"

section \<open>\<open>Streams\<close>\<close>

type_synonym ('x, 'q, 't) streams = "('x, 'q, 't stream) pages"

definition streams_response_deserialize :: "('t, 'z) json_text_scheme \<Rightarrow> json \<Rightarrow> json_error + u32 \<times> 't stream list" where
  "streams_response_deserialize jx j =
     and_then (de_object j) (\<lambda>fs.
     and_then (required fs ''limit'' de_unsigned) (\<lambda>limit.
     and_then (required fs ''streams'' (de_array (stream_deserialize jx))) (\<lambda>items.
     Ok (limit, items))))"

definition streams_new :: "jetstream_client \<Rightarrow> ('x, 'q, 't) streams" where
  "streams_new jc = \<lparr> pg_client = jc, pg_offset = 0, pg_fetch = None, pg_buffer = [], pg_exhausted = False \<rparr>"

definition streams_request ::
    "('s, 'x, 'o, 'q, 'p, 't, 'w) js_env \<Rightarrow> bool \<Rightarrow> jetstream_client \<Rightarrow> u32 \<Rightarrow> request option" where
  "streams_request e dbg jc off = do {
     endpoint \<leftarrow> subject_from_static dbg ''STREAM.LIST'';
     list_request e dbg jc endpoint off }"

definition streams_poll_next ::
    "('s, 'x, 'o, 'q, 'p, 't, 'w) js_env \<Rightarrow> bool \<Rightarrow> ('x, 'q, 't) streams \<Rightarrow> client \<Rightarrow> 'w \<Rightarrow>
     ((jetstream_error + 't stream) option poll \<times> ('x, 'q, 't) streams \<times> client \<times> 'w) option" where
  "streams_poll_next e dbg s =
     page_poll e dbg (streams_request e dbg (pg_client s)) (js_parse (je_json e) (streams_response_deserialize (je_json e))) s"

section \<open>\<open>Consumers\<close>\<close>

record ('x, 'q, 'a) consumers_list = "('x, 'q, 'a) pages" +
  partial_subject :: "subject option"
  invalid_stream_name :: "subject_validate_error option"

type_synonym ('x, 'q, 't) consumers = "('x, 'q, 't consumer) consumers_list"

definition consumers_response_deserialize :: "('t, 'z) json_text_scheme \<Rightarrow> json \<Rightarrow> json_error + u32 \<times> 't consumer list" where
  "consumers_response_deserialize jx j =
     and_then (de_object j) (\<lambda>fs.
     and_then (required fs ''limit'' de_unsigned) (\<lambda>limit.
     and_then (required fs ''consumers'' (de_array (consumer_deserialize jx))) (\<lambda>items.
     Ok (limit, items))))"

definition consumers_new :: "bool \<Rightarrow> jetstream_client \<Rightarrow> bytes \<Rightarrow> ('x, 'q, 't) consumers option" where
  "consumers_new dbg jc stream_name = do {
     r \<leftarrow> subject_try_from dbg (''CONSUMER.LIST.'' @ stream_name);
     let (partial, invalid) = (case r of Inr subject \<Rightarrow> (Some subject, None) | Inl err \<Rightarrow> (None, Some err));
     Some \<lparr> pg_client = jc, pg_offset = 0, pg_fetch = None, pg_buffer = [], pg_exhausted = False,
            partial_subject = partial, invalid_stream_name = invalid \<rparr> }"

definition consumers_request ::
    "('s, 'x, 'o, 'q, 'p, 't, 'w) js_env \<Rightarrow> bool \<Rightarrow> jetstream_client \<Rightarrow> subject option \<Rightarrow> u32 \<Rightarrow> request option" where
  "consumers_request e dbg jc partial off = do {
     endpoint \<leftarrow> partial;
     list_request e dbg jc endpoint off }"

definition consumers_poll_next ::
    "('s, 'x, 'o, 'q, 'p, 't, 'w) js_env \<Rightarrow> bool \<Rightarrow> ('x, 'q, 't) consumers \<Rightarrow> client \<Rightarrow> 'w \<Rightarrow>
     ((jetstream_error + 't consumer) option poll \<times> ('x, 'q, 't) consumers \<times> client \<times> 'w) option" where
  "consumers_poll_next e dbg s c w =
     (case invalid_stream_name s of
        Some err \<Rightarrow> Some (Ready (Some (Err (Js_Subject err))),
          s\<lparr>invalid_stream_name := None, pg_exhausted := True\<rparr>, c, w)
      | None \<Rightarrow> page_poll e dbg (consumers_request e dbg (pg_client s) (partial_subject s))
          (js_parse (je_json e) (consumers_response_deserialize (je_json e))) s c w)"

section \<open>What a list yields\<close>

primrec list_run ::
    "('u \<Rightarrow> client \<Rightarrow> 'w \<Rightarrow> ((jetstream_error + 'a) option poll \<times> 'u \<times> client \<times> 'w) option) \<Rightarrow>
     nat \<Rightarrow> 'u \<Rightarrow> client \<Rightarrow> 'w \<Rightarrow> ((jetstream_error + 'a) option poll list \<times> 'u \<times> client \<times> 'w) option" where
  "list_run poll_next 0 s c w = Some ([], s, c, w)"
| "list_run poll_next (Suc k) s c w = do {
     (rs, s, c, w) \<leftarrow> list_run poll_next k s c w;
     (r, s, c, w) \<leftarrow> poll_next s c w;
     Some (rs @ [r], s, c, w) }"

definition listed :: "('e + 'a) option poll list \<Rightarrow> 'a list" where
  "listed rs = List.map_filter (\<lambda>r. case r of Ready (Some (Inr a)) \<Rightarrow> Some a | _ \<Rightarrow> None) rs"

text \<open>A server that has \<open>items\<close> and answers the requests of pages: \<open>asks call off w\<close> says that a call is the
  request of the page at an offset.\<close>

definition serves ::
    "('s, 'x, 'o, 'q, 'p, 't, 'w) js_env \<Rightarrow> bool \<Rightarrow> (u32 \<Rightarrow> request option) \<Rightarrow>
     (server_message \<Rightarrow> jetstream_error + u32 \<times> 'a list) \<Rightarrow> (('x, 'q) call \<Rightarrow> u32 \<Rightarrow> 'w \<Rightarrow> bool) \<Rightarrow> 'a list \<Rightarrow> bool" where
  "serves e dbg mk read asks items \<longleftrightarrow>
     (\<forall>off r w. mk off = Some r \<longrightarrow> asks (Call_Sending r) off w) \<and>
     (\<forall>call off c w r call' c' w'. asks call off w \<longrightarrow> call_poll e dbg call c w = Some (r, call', c', w') \<longrightarrow>
        (r = Pending \<longrightarrow> asks call' off w') \<and>
        (\<forall>m limit page. r = Ready (Ok m) \<longrightarrow> read m = Ok (limit, page) \<longrightarrow>
           page = take (unat limit) (drop (unat off) items)))"

definition pages_inv ::
    "(('x, 'q) call \<Rightarrow> u32 \<Rightarrow> 'w \<Rightarrow> bool) \<Rightarrow> 'a list \<Rightarrow> 'a list \<Rightarrow> ('x, 'q, 'a, 'z) pages_scheme \<Rightarrow> 'w \<Rightarrow> bool" where
  "pages_inv asks items out s w \<longleftrightarrow>
     out @ pg_buffer s = take (if pg_exhausted s then length items else unat (pg_offset s)) items \<and>
     unat (pg_offset s) \<le> length items \<and>
     (\<forall>call. pg_fetch s = Some call \<longrightarrow> asks call (pg_offset s) w)"

lemma add_assign_small:
  fixes a b :: "'a::len word"
  assumes "unat a + unat b < 2 ^ LENGTH('a)"
  shows "add_assign dbg a b = Some (a + b)" and "unat (a + b) = unat a + unat b"
  using assms by (simp_all add: add_assign_def checked_add_def unat_word_ariths)

lemma page_loaded_inv:
  assumes "pages_inv asks items out s w0" and "pg_buffer s = []" and "\<not> pg_exhausted s" and "length items < 2 ^ 32"
    and page: "page = take (unat limit) (drop (unat (pg_offset s)) items)"
  shows "\<exists>s'. page_loaded dbg limit page s = Some s' \<and> pages_inv asks items out s' w"
proof -
  let ?o = "unat (pg_offset s)"
  have o: "?o \<le> length items" "out = take ?o items" using assms(1-3) by (simp_all add: pages_inv_def)
  have len: "length page = min (unat limit) (length items - ?o)" using page by simp
  consider "length page < unat limit" | "length page = unat limit" "page \<noteq> []" | "unat limit = 0" "page = []"
    using len by (cases "page = []") (auto simp: min_def split: if_splits)
  then show ?thesis
  proof cases
    case 1
    with len have "page = drop ?o items" using page by (simp add: min_def split: if_splits)
    with o have "out @ page = items" by simp
    with 1 o(1) show ?thesis by (simp add: page_loaded_def pages_inv_def)
  next
    case 2
    with len o(1) have le: "?o + unat limit \<le> length items" by (simp add: min_def split: if_splits)
    with assms(4) have lt: "?o + unat limit < 2 ^ LENGTH(32)" by simp
    have "out @ page = take (?o + unat limit) items" using o page by (simp add: take_add)
    with 2 le assms(3) add_assign_small [OF lt] show ?thesis by (simp add: page_loaded_def pages_inv_def)
  next
    case 3
    with o assms(3) show ?thesis by (simp add: page_loaded_def pages_inv_def)
  qed
qed

lemma page_poll_inv:
  assumes srv: "serves e dbg mk read asks items" and inv: "pages_inv asks items out s w" and len: "length items < 2 ^ 32"
    and "page_poll e dbg mk read s c w = Some (r, s', c', w')"
  shows "pages_inv asks items (out @ listed [r]) s' w' \<and> (r = Ready None \<longrightarrow> out = items)"
proof (cases "pg_buffer s")
  case (Cons a buffer)
  with assms(4) have "r = Ready (Some (Ok a))" "s' = s\<lparr>pg_buffer := buffer\<rparr>" "w' = w"
    by (auto simp: page_poll_def)
  with inv Cons show ?thesis by (simp add: pages_inv_def listed_def map_filter_simps)
next
  case Nil
  show ?thesis
  proof (cases "pg_exhausted s")
    case True
    with assms(4) Nil inv show ?thesis by (auto simp: page_poll_def pages_inv_def listed_def map_filter_simps)
  next
    case False
    from assms(4) Nil False obtain fetch x call c1 w1 where
      f: "(case pg_fetch s of Some fetch \<Rightarrow> Some fetch | None \<Rightarrow> map_option Call_Sending (mk (pg_offset s))) = Some fetch"
      and p: "call_poll e dbg fetch c w = Some (x, call, c1, w1)"
      by (auto simp: page_poll_def split: bind_splits)
    have asks: "asks fetch (pg_offset s) w"
      using f srv inv by (auto simp: serves_def pages_inv_def split: option.splits)
    show ?thesis
    proof (cases x)
      case Pending
      with assms(4) Nil False f p have "r = Pending" "s' = s\<lparr>pg_fetch := Some call\<rparr>" "w' = w1"
        by (auto simp: page_poll_def)
      moreover from srv asks p Pending have "asks call (pg_offset s) w1" unfolding serves_def by blast
      ultimately show ?thesis using inv by (simp add: pages_inv_def listed_def map_filter_simps)
    next
      case (Ready y)
      show ?thesis
      proof (cases "and_then y read")
        case (Inl err)
        with assms(4) Nil False f p Ready have "r = Ready (Some (Err err))" "s' = s\<lparr>pg_fetch := None\<rparr>" "w' = w1"
          by (auto simp: page_poll_def)
        with inv show ?thesis by (simp add: pages_inv_def listed_def map_filter_simps)
      next
        case (Inr lp)
        obtain limit page where lp: "lp = (limit, page)" by (cases lp)
        with Inr obtain m where m: "y = Ok m" "read m = Ok (limit, page)" by (auto simp: and_then_Inr_iff)
        with srv asks p Ready have "page = take (unat limit) (drop (unat (pg_offset s)) items)"
          unfolding serves_def by blast
        from page_loaded_inv [OF inv Nil False len this, of dbg w1] obtain s1 where
          s1: "page_loaded dbg limit page s = Some s1" "pages_inv asks items out s1 w1" by blast
        with assms(4) Nil False f p Ready Inr lp have "r = Pending" "s' = s1" "w' = w1"
          by (auto simp: page_poll_def)
        with s1 show ?thesis by (simp add: listed_def map_filter_simps)
      qed
    qed
  qed
qed

lemma list_run_inv:
  assumes srv: "serves e dbg mk read asks items" and len: "length items < 2 ^ 32"
    and poll: "\<And>s c w. I s \<Longrightarrow> poll_next s c w = page_poll e dbg mk read s c w"
    and keep: "\<And>s c w r s' c' w'. I s \<Longrightarrow> page_poll e dbg mk read s c w = Some (r, s', c', w') \<Longrightarrow> I s'"
    and "I s" and "pages_inv asks items [] s w" and "list_run poll_next k s c w = Some (rs, s', c', w')"
  shows "pages_inv asks items (listed rs) s' w' \<and> (Ready None \<in> set rs \<longrightarrow> listed rs = items) \<and> I s'"
  using assms(7)
proof (induction k arbitrary: rs s' c' w')
  case 0
  with assms(5,6) show ?case by (simp add: listed_def map_filter_simps)
next
  case (Suc k)
  from Suc.prems obtain rs1 s1 c1 w1 r where 1: "list_run poll_next k s c w = Some (rs1, s1, c1, w1)"
      "poll_next s1 c1 w1 = Some (r, s', c', w')" "rs = rs1 @ [r]"
    by (auto split: bind_splits)
  note ih = Suc.IH [OF 1(1)]
  have p: "page_poll e dbg mk read s1 c1 w1 = Some (r, s', c', w')" using 1(2) poll ih by metis
  have l: "listed rs = listed rs1 @ listed [r]" by (simp add: 1(3) listed_def map_filter_def)
  from page_poll_inv [OF srv _ len p] ih have inv: "pages_inv asks items (listed rs) s' w'"
      and "r = Ready None \<longrightarrow> listed rs1 = items"
    unfolding l by blast+
  moreover have "listed rs = items" if "Ready None \<in> set rs1"
  proof -
    have "listed rs1 = items" using ih that by blast
    moreover from inv have "length (listed rs) \<le> length items"
      by (auto simp: pages_inv_def dest!: arg_cong [where f = length] split: if_splits)
    ultimately show ?thesis using l by simp
  qed
  moreover have "listed rs = items" if "r = Ready None"
    using that \<open>r = Ready None \<longrightarrow> listed rs1 = items\<close> l by (simp add: listed_def map_filter_simps)
  ultimately show ?case using keep [OF _ p] ih 1(3) by auto
qed

lemma pages_inv_prefix:
  assumes "pages_inv asks items out s w"
  shows "\<exists>n. out = take n items"
proof -
  from assms obtain n where "out @ pg_buffer s = take n items" by (simp add: pages_inv_def)
  then have "out = take (min (length out) n) items" by (metis append_eq_conv_conj take_take)
  then show ?thesis ..
qed

lemma page_loaded_keeps:
  "page_loaded dbg limit page s = Some s' \<Longrightarrow> pg_client s' = pg_client s \<and> pages.more s' = pages.more s"
  by (auto simp: page_loaded_def Let_def split: if_splits)

lemma page_poll_cases:
  assumes "page_poll e dbg mk read s c w = Some (r, s', c', w')"
  obtains (item) a where "r = Ready (Some (Ok a))" "s' = s\<lparr>pg_buffer := tl (pg_buffer s)\<rparr>"
  | (final) "r = Ready None" "s' = s" "pg_buffer s = []" "pg_exhausted s"
  | (wait) call where "r = Pending" "s' = s\<lparr>pg_fetch := Some call\<rparr>"
  | (page) limit page where "r = Pending" "page_loaded dbg limit page s = Some s'"
  | (failed) err where "r = Ready (Some (Err err))" "s' = s\<lparr>pg_fetch := None\<rparr>" "pg_buffer s = []" "\<not> pg_exhausted s"
proof (cases "pg_buffer s")
  case (Cons a buffer)
  with assms that(1) show ?thesis by (auto simp: page_poll_def)
next
  case Nil
  show ?thesis
  proof (cases "pg_exhausted s")
    case True
    with assms Nil that(2) show ?thesis by (auto simp: page_poll_def)
  next
    case False
    from assms Nil False obtain fetch x call c1 w1 where
      f: "(case pg_fetch s of Some fetch \<Rightarrow> Some fetch | None \<Rightarrow> map_option Call_Sending (mk (pg_offset s))) = Some fetch"
        "call_poll e dbg fetch c w = Some (x, call, c1, w1)"
      by (auto simp: page_poll_def split: bind_splits)
    show ?thesis
    proof (cases x)
      case Pending
      with assms Nil False f that(3) show ?thesis by (auto simp: page_poll_def)
    next
      case (Ready y)
      show ?thesis
      proof (cases "and_then y read")
        case (Inl err)
        with assms Nil False f Ready that(5) show ?thesis by (auto simp: page_poll_def)
      next
        case (Inr lp)
        with assms Nil False f Ready that(4) show ?thesis
          by (cases lp) (auto simp: page_poll_def split: bind_splits)
      qed
    qed
  qed
qed

lemma page_poll_keeps:
  "page_poll e dbg mk read s c w = Some (r, s', c', w') \<Longrightarrow> pg_client s' = pg_client s \<and> pages.more s' = pages.more s"
  by (erule page_poll_cases) (simp_all add: page_loaded_keeps)

lemma streams_run:
  assumes "serves e dbg (streams_request e dbg jc) (js_parse (je_json e) (streams_response_deserialize (je_json e))) asks items"
    and "length items < 2 ^ 32"
    and "list_run (streams_poll_next e dbg) k (streams_new jc) c w = Some (rs, s, c', w')"
  shows "(\<exists>n. listed rs = take n items) \<and> (Ready None \<in> set rs \<longrightarrow> listed rs = items)"
proof -
  have "pages_inv asks items [] (streams_new jc) w" by (simp add: pages_inv_def streams_new_def)
  moreover have "streams_poll_next e dbg s c w = page_poll e dbg (streams_request e dbg jc)
      (js_parse (je_json e) (streams_response_deserialize (je_json e))) s c w" if "pg_client s = jc" for s c w
    using that by (simp add: streams_poll_next_def)
  ultimately have "pages_inv asks items (listed rs) s w' \<and> (Ready None \<in> set rs \<longrightarrow> listed rs = items) \<and> pg_client s = jc"
    by (intro list_run_inv [where I = "\<lambda>s. pg_client s = jc", OF assms(1,2) _ _ _ _ assms(3)])
      (auto simp: streams_new_def dest: page_poll_keeps)
  then show ?thesis using pages_inv_prefix [of asks items "listed rs" s w'] by simp
qed

lemma consumers_fields_kept:
  fixes s s' :: "('x, 'q, 'a) consumers_list"
  assumes "pages.more s' = pages.more s"
  shows "partial_subject s' = partial_subject s \<and> invalid_stream_name s' = invalid_stream_name s"
  using assms by (cases s; cases s') simp

lemma consumers_poll_keeps:
  fixes s s' :: "('x, 'q, 'a) consumers_list"
  assumes "page_poll e dbg mk read s c w = Some (r, s', c', w')"
  shows "pg_client s' = pg_client s \<and> partial_subject s' = partial_subject s \<and>
    invalid_stream_name s' = invalid_stream_name s"
  using page_poll_keeps [OF assms] consumers_fields_kept [of s' s] by simp

lemma consumers_run:
  assumes "serves e dbg (consumers_request e dbg jc (Some endpoint))
      (js_parse (je_json e) (consumers_response_deserialize (je_json e))) asks items"
    and "length items < 2 ^ 32" and "consumers_new dbg jc stream_name = Some s0"
    and "subject_try_from dbg (''CONSUMER.LIST.'' @ stream_name) = Some (Ok endpoint)"
    and "list_run (consumers_poll_next e dbg) k s0 c w = Some (rs, s, c', w')"
  shows "(\<exists>n. listed rs = take n items) \<and> (Ready None \<in> set rs \<longrightarrow> listed rs = items)"
proof -
  let ?I = "\<lambda>s. pg_client s = jc \<and> partial_subject s = Some endpoint \<and> invalid_stream_name s = None"
  have s0: "?I s0" "pages_inv asks items [] s0 w"
    using assms(3,4) by (auto simp: consumers_new_def pages_inv_def Let_def)
  have "pages_inv asks items (listed rs) s w' \<and> (Ready None \<in> set rs \<longrightarrow> listed rs = items) \<and> ?I s"
    by (rule list_run_inv [where I = ?I, OF assms(1,2) _ _ s0 assms(5)])
      (auto simp: consumers_poll_next_def dest!: consumers_poll_keeps)
  then show ?thesis using pages_inv_prefix [of asks items "listed rs" s w'] by simp
qed

text \<open>Listing the consumers of a stream whose name is not valid: one error, then the end, and no request.\<close>

lemma consumers_invalid:
  assumes "validate_subject (''CONSUMER.LIST.'' @ stream_name) = Err err"
  shows "\<exists>s0 s1. consumers_new dbg jc stream_name = Some s0 \<and>
    consumers_poll_next e dbg s0 c w = Some (Ready (Some (Err (Js_Subject err))), s1, c, w) \<and>
    pages_is_terminated s1 \<and> (\<forall>c' w'. consumers_poll_next e dbg s1 c' w' = Some (Ready None, s1, c', w'))"
  using assms by (simp add: consumers_new_def subject_try_from_def consumers_poll_next_def pages_is_terminated_def page_poll_def)

text \<open>A page that cannot be fetched does not end the list: it asks again.\<close>

lemma list_error_not_final:
  assumes "page_poll e dbg mk read s c w = Some (Ready (Some (Err err)), s', c', w')"
  shows "pg_fetch s' = None \<and> pg_offset s' = pg_offset s \<and> \<not> pages_is_terminated s'"
  using assms by (rule page_poll_cases) (simp_all add: pages_is_terminated_def)

section \<open>A server with one stream\<close>

text \<open>The world is the list of the commands sent; a reply is read off the command it answers.\<close>

definition demo_config :: stream_config where
  "demo_config = \<lparr> sc_name = ''S'', sc_subjects = [Subject ''a''], sc_max_consumers = None, sc_max_messages = Some 5,
     sc_max_bytes = None, sc_max_age = 0, sc_max_messages_per_subject = None, sc_max_message_size = None,
     sc_discard_policy = Discard_Old, sc_storage = File, sc_replicas = 1, sc_duplicate_window = 0,
     sc_compression = None, sc_allow_direct = True, sc_mirror_direct = False, sc_sealed = False,
     sc_allow_delete = True, sc_allow_purge = True, sc_allow_rollup_hdrs = False \<rparr>"

definition demo_stream :: "unit stream" where
  "demo_stream = \<lparr> st_config = demo_config, st_created_at = () \<rparr>"

definition demo_page :: "json list \<Rightarrow> json" where
  "demo_page js = J_Obj [(''limit'', J_Num 1), (''streams'', J_Arr js)]"

definition demo_json :: "unit json_text" where
  "demo_json = \<lparr> to_text = (\<lambda>j. case j of J_Obj [(_, J_Num i)] \<Rightarrow> dec (nat i) | _ \<Rightarrow> []),
     of_text = (\<lambda>b. Ok (demo_page (if b = ''P0''
       then [J_Obj [(''config'', projr (stream_config_serialize demo_config)), (''created'', J_Str [])]] else []))),
     ts_to_text = (\<lambda>_. []), ts_of_text = (\<lambda>_. Ok ()), ts_constant = (\<lambda>_ _. ()) \<rparr>"

definition demo_reply :: "(unit, unit) handler_command \<Rightarrow> (unit + server_message) poll" where
  "demo_reply cmd = (case cmd of Cmd_RequestMultiplexed _ reply _ payload _ \<Rightarrow>
      Ready (Ok \<lparr> status_code = None, status_description = None, subscription_id = 1,
        base = \<lparr> msg_subject = reply, msg_reply_subject = None, msg_headers = header_map_new,
          msg_payload = ''P'' @ payload \<rparr> \<rparr>)
    | _ \<Rightarrow> Pending)"

definition demo_env :: "(unit, unit, unit, nat, unit, unit, (unit, unit) handler_command list) js_env" where
  "demo_env = \<lparr> je_ops = \<lparr> c_reserve = (\<lambda>w. Some (Ok (), w)), c_try_reserve = (\<lambda>w. (Ok (), w)),
       permit_send = (\<lambda>_ cmd w. w @ [cmd]), c_send = (\<lambda>cmd w. Some (Ok (), w @ [cmd])),
       c_try_send = (\<lambda>cmd w. (Ok (), w @ [cmd])), mpsc_channel = (\<lambda>_ w. (((), ()), w)),
       oneshot_channel = (\<lambda>w. (((), length w), w)), rand_fill = (\<lambda>n w. (replicate n (CHR ''a''), w)),
       big_endian = False, shutdown_try_send = (\<lambda>w. (True, w)), shutdown_closed = Some, abort_handler = (\<lambda>w. w) \<rparr>,
     je_receivers = \<lparr> recv_is_closed = (\<lambda>_ _. False), recv_poll_many = (\<lambda>_ _ w. (Pending, w)),
       oneshot_poll = (\<lambda>q w. (demo_reply (w ! q), w)) \<rparr>,
     je_clock = \<lparr> now = (\<lambda>w. (0, w)), poll_sleep = (\<lambda>d w. (False, w)) \<rparr>, je_json = demo_json,
     je_unicase = map to_ascii_lowercase, je_pending = (\<lambda>w. (False, w)) \<rparr>"

definition demo_asks :: "(unit, nat) call \<Rightarrow> u32 \<Rightarrow> (unit, unit) handler_command list \<Rightarrow> bool" where
  "demo_asks call off w = (case call of
      Call_Sending r \<Rightarrow> p_payload (rq_publish r) = dec (unat off) \<and> p_reply_subject (rq_publish r) = None
    | Call_Waiting f \<Rightarrow> False)"

lemma demo_read:
  "stream_deserialize demo_json (J_Obj [(''config'', projr (stream_config_serialize demo_config)), (''created'', J_Str [])]) =
     Ok demo_stream"
proof -
  have "is_ok (stream_config_serialize demo_config)"
    by (auto simp: stream_config_serialize_ok demo_config_def)
  then obtain j where j: "stream_config_serialize demo_config = Ok j" by (cases "stream_config_serialize demo_config") auto
  moreover have "stream_config_ok demo_config"
    by (simp add: stream_config_ok_def demo_config_def validate_subject_def is_separator_def is_eol_def)
  ultimately have "stream_config_deserialize j = Ok demo_config" by (rule stream_config_round)
  with j show ?thesis
    by (simp add: stream_deserialize_def required_def find_field_def de_timestamp_def demo_json_def demo_stream_def)
qed

lemma demo_call:
  assumes "p_reply_subject (rq_publish r) = None"
  shows "\<exists>f m w'. call_poll demo_env False (Call_Sending r) c w = Some (Ready (Ok m), Call_Waiting f, c, w') \<and>
    msg_payload (base m) = ''P'' @ p_payload (rq_publish r)"
proof -
  obtain reply where "inbox_subject False False (replicate 16 (CHR ''a'')) (c_multiplexed_subscription_prefix c) = Some reply"
    by (simp add: inbox_subject_def subject_from_dangerous_value_def)
  with assms show ?thesis
    by (simp add: call_poll_def demo_env_def do_request_def multiplexed_request_def do_multiplexed_request_def
        create_inbox_subject_def multiplexed_new_def response_fut_new_def call_waiting_poll_def response_poll_def
        multiplexed_poll_def demo_reply_def response_message_def response_drop_def multiplexed_drop_def)
qed

lemma dec_zero: "dec n = ''0'' \<longleftrightarrow> n = 0"
proof -
  have "digit 0 = CHR ''0''" by code_simp
  moreover have "n = 0" if "n < 10" "digit n = CHR ''0''"
    using arg_cong [OF that(2), of byte_val] that(1) by simp
  ultimately show ?thesis by (subst dec.simps) auto
qed

lemma demo_page_read:
  assumes "msg_payload (base m) = ''P'' @ dec n"
  shows "js_parse demo_json (streams_response_deserialize demo_json) m = Ok (1, take 1 (drop n [demo_stream]))"
proof -
  have "de_unsigned (J_Num 1) = (Ok (1 :: u32) :: json_error + u32)" by (simp add: de_unsigned_def)
  with demo_read assms show ?thesis
    by (cases n) (simp_all add: js_parse_def demo_json_def [abs_def] demo_page_def dec_zero streams_response_deserialize_def
        required_def find_field_def)
qed

lemma demo_serves:
  "serves demo_env False (streams_request demo_env False jc)
     (js_parse (je_json demo_env) (streams_response_deserialize (je_json demo_env))) demo_asks [demo_stream]"
proof -
  have json: "je_json demo_env = demo_json" by (simp add: demo_env_def)
  have to: "to_text demo_json (J_Obj [(''offset'', ser_unsigned off)]) = dec (unat off)" for off :: u32
    by (simp add: demo_json_def ser_unsigned_def)
  have "demo_asks (Call_Sending r) off w" if "streams_request demo_env False jc off = Some r" for off r w
    using that by (auto simp: streams_request_def list_request_def json to demo_asks_def request_payload_def make_request_def
        request_response_timeout_def request_subject_def split: bind_splits)
  moreover have "r \<noteq> Pending \<and> (\<forall>m limit page. r = Ready (Ok m) \<longrightarrow>
      js_parse (je_json demo_env) (streams_response_deserialize (je_json demo_env)) m = Ok (limit, page) \<longrightarrow>
      page = take (unat limit) (drop (unat off) [demo_stream]))"
    if "demo_asks call off w" "call_poll demo_env False call c w = Some (r, call', c', w')" for call off c w r call' c' w'
  proof -
    from that(1) obtain q where q: "call = Call_Sending q" "p_payload (rq_publish q) = dec (unat off)"
        "p_reply_subject (rq_publish q) = None" by (auto simp: demo_asks_def split: call.splits)
    from demo_call [OF q(3), of c w] that(2) q(1) obtain m where "r = Ready (Ok m)" "msg_payload (base m) = ''P'' @ p_payload (rq_publish q)"
      by auto
    with demo_page_read [of m "unat off"] q(2) show ?thesis by (simp add: json)
  qed
  ultimately show ?thesis unfolding serves_def by blast
qed

lemma demo_streams_request: "\<exists>q. streams_request demo_env False (jetstream_new_with_prefix (Subject ''$JS.API'')) off = Some q \<and>
    p_payload (rq_publish q) = dec (unat off) \<and> p_reply_subject (rq_publish q) = None"
  by (simp add: streams_request_def list_request_def subject_from_static_def expect_p_def subject_try_from_def
      validate_subject_def is_separator_def is_eol_def subject_for_request_def subject_from_dangerous_value_def demo_env_def
      demo_json_def ser_unsigned_def request_payload_def make_request_def request_response_timeout_def request_subject_def)

definition demo_client :: client where
  "demo_client = client_inner_new (client_builder_new :: unit client_builder) None raw_quick_info_new (Subject ''_INBOX.1'')"

text \<open>Four polls: a page, its stream, an empty page, the end.\<close>

lemma demo_fetch:
  fixes s :: "(unit, nat, unit) streams"
  assumes "pg_client s = jetstream_new_with_prefix (Subject ''$JS.API'')" and "pg_buffer s = []" and "\<not> pg_exhausted s"
    and "pg_fetch s = None"
  shows "\<exists>w'. streams_poll_next demo_env False s c w =
    map_option (\<lambda>s. (Pending, s, c, w')) (page_loaded False 1 (take 1 (drop (unat (pg_offset s)) [demo_stream])) s)"
proof -
  have json: "je_json demo_env = demo_json" by (simp add: demo_env_def)
  obtain q where q: "streams_request demo_env False (pg_client s) (pg_offset s) = Some q"
      "p_payload (rq_publish q) = dec (unat (pg_offset s))" "p_reply_subject (rq_publish q) = None"
    using demo_streams_request assms(1) by metis
  from demo_call [OF q(3), of c w] obtain f m w' where
    "call_poll demo_env False (Call_Sending q) c w = Some (Ready (Ok m), Call_Waiting f, c, w')"
    "msg_payload (base m) = ''P'' @ dec (unat (pg_offset s))" using q(2) by auto
  with demo_page_read [of m] q(1) assms(2-4) show ?thesis
    by (intro exI [of _ w']) (simp add: streams_poll_next_def page_poll_def json map_conv_bind_option o_def)
qed

lemma demo_run:
  "\<exists>s w. list_run (streams_poll_next demo_env False) 4 (streams_new (jetstream_new_with_prefix (Subject ''$JS.API'')))
     demo_client [] = Some ([Pending, Ready (Some (Ok demo_stream)), Pending, Ready None], s, demo_client, w)"
proof -
  let ?jc = "jetstream_new_with_prefix (Subject ''$JS.API'')"
  let ?s = "\<lambda>off b x. \<lparr> pg_client = ?jc, pg_offset = off, pg_fetch = None, pg_buffer = b, pg_exhausted = x \<rparr>
    :: (unit, nat, unit) streams"
  have "page_loaded False 1 [demo_stream] (?s 0 [] False) = Some (?s 1 [demo_stream] False)"
    by (simp add: page_loaded_def add_assign_def checked_add_def)
  with demo_fetch [of "?s 0 [] False" demo_client "[]"] obtain w1 where
    1: "streams_poll_next demo_env False (?s 0 [] False) demo_client [] = Some (Pending, ?s 1 [demo_stream] False, demo_client, w1)"
    by auto
  have 2: "streams_poll_next demo_env False (?s 1 [demo_stream] False) demo_client w1 =
      Some (Ready (Some (Ok demo_stream)), ?s 1 [] False, demo_client, w1)"
    by (simp add: streams_poll_next_def page_poll_def)
  have "page_loaded False 1 [] (?s 1 [] False) = Some (?s 1 [] True)"
    by (simp add: page_loaded_def)
  with demo_fetch [of "?s 1 [] False" demo_client w1] obtain w2 where
    3: "streams_poll_next demo_env False (?s 1 [] False) demo_client w1 = Some (Pending, ?s 1 [] True, demo_client, w2)"
    by auto
  have 4: "streams_poll_next demo_env False (?s 1 [] True) demo_client w2 = Some (Ready None, ?s 1 [] True, demo_client, w2)"
    by (simp add: streams_poll_next_def page_poll_def)
  from 1 2 3 4 show ?thesis by (simp add: numeral_eq_Suc streams_new_def)
qed

section \<open>Properties\<close>

text \<open>C16: When the server answers the request of a page at an offset with the page of its streams that
  starts there, however long, and has less than 2^32 of them, then whatever fails in between, a
  listing yields the streams in the order of the server, none left out or twice, and it ends only
  after all of them.\<close>

theorem list_complete:
  assumes "serves e dbg (streams_request e dbg jc) (js_parse (je_json e) (streams_response_deserialize (je_json e))) asks items"
    and "length items < 2 ^ 32"
    and "list_run (streams_poll_next e dbg) k (streams_new jc) c w = Some (rs, s, c', w')"
  shows "(\<exists>n. listed rs = take n items) \<and> (Ready None \<in> set rs \<longrightarrow> listed rs = items)"
  using assms by (rule streams_run)

lemma list_complete_witness:
  "\<exists>rs s w. list_run (streams_poll_next demo_env False) 4 (streams_new (jetstream_new_with_prefix (Subject ''$JS.API'')))
     demo_client [] = Some (rs, s, demo_client, w) \<and> Ready None \<in> set rs \<and> listed rs = [demo_stream]"
proof -
  from demo_run obtain s w where r: "list_run (streams_poll_next demo_env False) 4
      (streams_new (jetstream_new_with_prefix (Subject ''$JS.API''))) demo_client [] =
      Some ([Pending, Ready (Some (Ok demo_stream)), Pending, Ready None], s, demo_client, w)" by blast
  from list_complete [OF demo_serves _ this] r show ?thesis by auto
qed

end
