(* ===== verification/Js_Batch.thy ===== *)
theory Js_Batch
  imports Js_Lists
begin

text \<open>
  \<open>commands/consumer_batch.rs\<close> and \<open>consumer_stream.rs\<close>: asking a consumer for a batch of messages, the stream of
  a batch, and the stream that asks for one batch after the other. The future of a new batch has two points at
  which it waits for room in the channel of the commands.
\<close>

section \<open>\<open>ConsumerBatch::new\<close>\<close>

text \<open>\<open>Duration::saturating_add\<close>.\<close>

definition DURATION_MAX :: nat where "DURATION_MAX = 2 ^ 64 * 1000000000 - 1"

definition duration_saturating_add :: "nat \<Rightarrow> nat \<Rightarrow> nat" where
  "duration_saturating_add a b = min (a + b) DURATION_MAX"

record 'x consumer_batch =
  cb_subscription :: "'x client_subscription"
  cb_timeout :: nat
  pending_msgs :: nat

datatype consumer_batch_error = Batch_ServerError server_error | UnexpectedStatus server_message

definition batch_payload :: "('t, 'z) json_text_scheme \<Rightarrow> nat \<Rightarrow> nat \<Rightarrow> bytes option" where
  "batch_payload jx expires max_msgs =
     map_option (to_text jx)
       (if expires = 0 then Some (J_Obj [(''batch'', J_Num (int max_msgs)), (''no_wait'', J_Bool True)])
        else do {
          ns \<leftarrow> json_interpolate (Ok (J_Num (int expires)));
          Some (J_Obj [(''batch'', J_Num (int max_msgs)), (''expires'', ns), (''no_wait'', J_Bool True)]) })"

text \<open>The subject of the request, the inbox of the messages and the payload.\<close>

type_synonym batch_request = "subject \<times> subject \<times> bytes"

definition batch_prepare ::
    "('s, 'x, 'o, 'q, 'p, 't, 'w) js_env \<Rightarrow> bool \<Rightarrow> jetstream_client \<Rightarrow> 't consumer \<Rightarrow> nat \<Rightarrow> nat \<Rightarrow> client \<Rightarrow> 'w \<Rightarrow>
     (batch_request, 'w) js_result" where
  "batch_prepare e dbg jc consumer expires max_msgs c w =
     js_then (js_subject dbg (js_name jc
       [''.CONSUMER.MSG.NEXT.'', co_stream_name consumer, ''.'', cc_name (co_config consumer)]) c w) (\<lambda>subject c w. do {
     (incoming_subject, w) \<leftarrow> client_create_inbox_subject (je_ops e) dbg c w;
     payload \<leftarrow> batch_payload (je_json e) expires max_msgs;
     js_try (Ok (subject, incoming_subject, payload)) c w })"

definition batch_subscribe ::
    "('s, 'x, 'o, 'q, 'p, 't, 'w) js_env \<Rightarrow> batch_request \<Rightarrow> client \<Rightarrow> 'w \<Rightarrow> ('x client_subscription, 'w) js_result" where
  "batch_subscribe e = (\<lambda>(_, incoming_subject, _) c w. do {
     (r, c, w) \<leftarrow> subscribe (je_ops e) incoming_subject None c w;
     js_try (map_err Js_ClientClosed r) c w })"

definition batch_publish ::
    "('s, 'x, 'o, 'q, 'p, 't, 'w) js_env \<Rightarrow> jetstream_client \<Rightarrow> nat \<Rightarrow> nat \<Rightarrow> batch_request \<Rightarrow> 'x client_subscription \<Rightarrow>
     client \<Rightarrow> 'w \<Rightarrow> ('x consumer_batch, 'w) js_result" where
  "batch_publish e jc expires max_msgs = (\<lambda>(subject, incoming_subject, payload) sub c w. do {
     (r, w) \<leftarrow> do_publish (je_ops e)
       (publish_payload payload (publish_reply_subject (Some incoming_subject) (publish_subject subject))) w;
     (case r of
        Inl err \<Rightarrow>
          (case subscription_drop (je_ops e) (je_receivers e) sub c w of (c, w) \<Rightarrow> js_try (Err (Js_ClientClosed err)) c w)
      | Inr _ \<Rightarrow>
          (case now (je_clock e) w of (t, w) \<Rightarrow>
             js_try (Ok \<lparr> cb_subscription = sub,
               cb_timeout = t + duration_saturating_add expires (js_request_timeout jc),
               pending_msgs = max_msgs \<rparr>) c w)) })"

definition consumer_batch_new ::
    "('s, 'x, 'o, 'q, 'p, 't, 'w) js_env \<Rightarrow> bool \<Rightarrow> jetstream_client \<Rightarrow> 't consumer \<Rightarrow> nat \<Rightarrow> nat \<Rightarrow> client \<Rightarrow> 'w \<Rightarrow>
     ('x consumer_batch, 'w) js_result" where
  "consumer_batch_new e dbg jc consumer expires max_msgs c w =
     js_then (batch_prepare e dbg jc consumer expires max_msgs c w) (\<lambda>r c w.
     js_then (batch_subscribe e r c w) (\<lambda>sub c w.
     batch_publish e jc expires max_msgs r sub c w))"

section \<open>The stream of a batch\<close>

definition is_graceful_conflict :: "server_message \<Rightarrow> bool" where
  "is_graceful_conflict msg =
     (case status_description msg of
        None \<Rightarrow> False
      | Some desc \<Rightarrow> eq_ignore_ascii_case desc ''Batch Completed'' \<or> eq_ignore_ascii_case desc ''Server Shutdown'' \<or>
          eq_ignore_ascii_case desc ''Leadership Change'')"

type_synonym batch_item = "(consumer_batch_error + jetstream_message) option"

definition batch_message :: "server_message \<Rightarrow> 'x consumer_batch \<Rightarrow> batch_item poll \<times> 'x consumer_batch" where
  "batch_message msg b =
     (case status_code msg of
        None \<Rightarrow> (Ready (Some (Ok (jetstream_message_new msg))), b\<lparr>pending_msgs := pending_msgs b - 1\<rparr>)
      | Some code \<Rightarrow>
          if code = OK then (Ready (Some (Ok (jetstream_message_new msg))), b\<lparr>pending_msgs := pending_msgs b - 1\<rparr>)
          else if code = IDLE_HEARTBEAT then (Pending, b)
          else if code = TIMEOUT \<or> code = NOT_FOUND then (Ready None, b\<lparr>pending_msgs := 0\<rparr>)
          else if code = CONFLICT \<and> is_graceful_conflict msg then (Ready None, b\<lparr>pending_msgs := 0\<rparr>)
          else (Ready (Some (Err (UnexpectedStatus msg))), b))"

definition batch_poll_next ::
    "('s, 'x, 'o, 'q, 'p, 't, 'w) js_env \<Rightarrow> bool \<Rightarrow> 'x consumer_batch \<Rightarrow> 'w \<Rightarrow>
     (batch_item poll \<times> 'x consumer_batch \<times> 'w) option" where
  "batch_poll_next e dbg b w =
     (if pending_msgs b = 0 then Some (Ready None, b, w)
      else do {
        (r, sub, w) \<leftarrow> subscription_poll_next (je_receivers e) dbg (cb_subscription b) w;
        let b = b\<lparr>cb_subscription := sub\<rparr>;
        Some (case r of
            Pending \<Rightarrow>
              (case poll_sleep (je_clock e) (cb_timeout b) w of (elapsed, w) \<Rightarrow>
                 if elapsed then (Ready None, b\<lparr>pending_msgs := 0\<rparr>, w) else (Pending, b, w))
          | Ready (Some (Inr msg)) \<Rightarrow> (case batch_message msg b of (r, b) \<Rightarrow> (r, b, w))
          | Ready (Some (Inl err)) \<Rightarrow> (Ready (Some (Err (Batch_ServerError err))), b\<lparr>pending_msgs := 0\<rparr>, w)
          | Ready None \<Rightarrow> (Ready None, b\<lparr>pending_msgs := 0\<rparr>, w)) })"

definition batch_is_terminated :: "'x consumer_batch \<Rightarrow> bool" where
  "batch_is_terminated b \<longleftrightarrow> pending_msgs b = 0"

section \<open>\<open>ConsumerStream\<close>\<close>

datatype 'x batch_future =
    Batch_Start
  | Batch_Subscribing batch_request
  | Batch_Publishing batch_request "'x client_subscription"

datatype 'x consumer_stream_status =
    Polling "'x batch_future"
  | RunningBatch "'x consumer_batch"
  | Broken

datatype consumer_stream_error = BatchError consumer_batch_error | Jetstream jetstream_error

record ('x, 't) consumer_stream =
  cs_status :: "'x consumer_stream_status"
  cs_consumer :: "'t consumer"
  cs_client :: jetstream_client
  cs_expires :: nat
  cs_max_msgs :: nat

definition batch_publishing_poll ::
    "('s, 'x, 'o, 'q, 'p, 't, 'w) js_env \<Rightarrow> jetstream_client \<Rightarrow> nat \<Rightarrow> nat \<Rightarrow> batch_request \<Rightarrow> 'x client_subscription \<Rightarrow>
     client \<Rightarrow> 'w \<Rightarrow> ((jetstream_error + 'x consumer_batch) poll \<times> 'x batch_future \<times> client \<times> 'w) option" where
  "batch_publishing_poll e jc expires max_msgs req sub c w =
     (case je_pending e w of (is_pending, w) \<Rightarrow>
        if is_pending then Some (Pending, Batch_Publishing req sub, c, w)
        else do {
          (r, c, w) \<leftarrow> batch_publish e jc expires max_msgs req sub c w;
          Some (Ready r, Batch_Publishing req sub, c, w) })"

definition batch_subscribing_poll ::
    "('s, 'x, 'o, 'q, 'p, 't, 'w) js_env \<Rightarrow> jetstream_client \<Rightarrow> nat \<Rightarrow> nat \<Rightarrow> batch_request \<Rightarrow>
     client \<Rightarrow> 'w \<Rightarrow> ((jetstream_error + 'x consumer_batch) poll \<times> 'x batch_future \<times> client \<times> 'w) option" where
  "batch_subscribing_poll e jc expires max_msgs req c w =
     (case je_pending e w of (is_pending, w) \<Rightarrow>
        if is_pending then Some (Pending, Batch_Subscribing req, c, w)
        else do {
          (r, c, w) \<leftarrow> batch_subscribe e req c w;
          (case r of
             Inl err \<Rightarrow> Some (Ready (Err err), Batch_Subscribing req, c, w)
           | Inr sub \<Rightarrow> batch_publishing_poll e jc expires max_msgs req sub c w) })"

definition batch_future_poll ::
    "('s, 'x, 'o, 'q, 'p, 't, 'w) js_env \<Rightarrow> bool \<Rightarrow> jetstream_client \<Rightarrow> 't consumer \<Rightarrow> nat \<Rightarrow> nat \<Rightarrow> 'x batch_future \<Rightarrow>
     client \<Rightarrow> 'w \<Rightarrow> ((jetstream_error + 'x consumer_batch) poll \<times> 'x batch_future \<times> client \<times> 'w) option" where
  "batch_future_poll e dbg jc consumer expires max_msgs fut c w =
     (case fut of
        Batch_Publishing req sub \<Rightarrow> batch_publishing_poll e jc expires max_msgs req sub c w
      | Batch_Subscribing req \<Rightarrow> batch_subscribing_poll e jc expires max_msgs req c w
      | Batch_Start \<Rightarrow> do {
          (r, c, w) \<leftarrow> batch_prepare e dbg jc consumer expires max_msgs c w;
          (case r of
             Inl err \<Rightarrow> Some (Ready (Err err), Batch_Start, c, w)
           | Inr req \<Rightarrow> batch_subscribing_poll e jc expires max_msgs req c w) })"

definition consumer_stream_new :: "'t consumer \<Rightarrow> jetstream_client \<Rightarrow> nat \<Rightarrow> nat \<Rightarrow> ('x, 't) consumer_stream" where
  "consumer_stream_new consumer jc expires max_msgs =
     \<lparr> cs_status = Polling Batch_Start, cs_consumer = consumer, cs_client = jc, cs_expires = expires,
       cs_max_msgs = max_msgs \<rparr>"

text \<open>Leaving \<open>RunningBatch\<close> drops the batch, and with it the subscription.\<close>

definition consumer_stream_poll_next ::
    "('s, 'x, 'o, 'q, 'p, 't, 'w) js_env \<Rightarrow> bool \<Rightarrow> ('x, 't) consumer_stream \<Rightarrow> client \<Rightarrow> 'w \<Rightarrow>
     ((consumer_stream_error + jetstream_message) option poll \<times> ('x, 't) consumer_stream \<times> client \<times> 'w) option" where
  "consumer_stream_poll_next e dbg s c w =
     (case cs_status s of
        RunningBatch b \<Rightarrow> do {
          (r, b, w) \<leftarrow> batch_poll_next e dbg b w;
          let drp = subscription_drop (je_ops e) (je_receivers e) (cb_subscription b) c w;
          Some (case r of
              Pending \<Rightarrow> (Pending, s\<lparr>cs_status := RunningBatch b\<rparr>, c, w)
            | Ready (Some (Inr msg)) \<Rightarrow> (Ready (Some (Ok msg)), s\<lparr>cs_status := RunningBatch b\<rparr>, c, w)
            | Ready (Some (Inl err)) \<Rightarrow>
                (case drp of (c, w) \<Rightarrow> (Ready (Some (Err (BatchError err))), s\<lparr>cs_status := Broken\<rparr>, c, w))
            | Ready None \<Rightarrow>
                (case drp of (c, w) \<Rightarrow> (Pending, s\<lparr>cs_status := Polling Batch_Start\<rparr>, c, w))) }
      | Polling fut \<Rightarrow> do {
          (r, fut, c, w) \<leftarrow> batch_future_poll e dbg (cs_client s) (cs_consumer s) (cs_expires s) (cs_max_msgs s) fut c w;
          Some (case r of
              Pending \<Rightarrow> (Pending, s\<lparr>cs_status := Polling fut\<rparr>, c, w)
            | Ready (Inr b) \<Rightarrow> (Pending, s\<lparr>cs_status := RunningBatch b\<rparr>, c, w)
            | Ready (Inl err) \<Rightarrow> (Ready (Some (Err (Jetstream err))), s\<lparr>cs_status := Broken\<rparr>, c, w)) }
      | Broken \<Rightarrow> Some (Ready None, s, c, w))"

definition consumer_stream_is_terminated :: "('x, 't) consumer_stream \<Rightarrow> bool" where
  "consumer_stream_is_terminated s \<longleftrightarrow> cs_status s = Broken"

section \<open>What a batch yields\<close>

primrec batch_run ::
    "('s, 'x, 'o, 'q, 'p, 't, 'w) js_env \<Rightarrow> bool \<Rightarrow> nat \<Rightarrow> 'x consumer_batch \<Rightarrow> 'w \<Rightarrow>
     (batch_item poll list \<times> 'x consumer_batch \<times> 'w) option" where
  "batch_run e dbg 0 b w = Some ([], b, w)"
| "batch_run e dbg (Suc k) b w = do {
     (r, b, w) \<leftarrow> batch_poll_next e dbg b w;
     (rs, b, w) \<leftarrow> batch_run e dbg k b w;
     Some (r # rs, b, w) }"

definition batch_messages :: "batch_item poll list \<Rightarrow> server_message list" where
  "batch_messages rs =
     List.map_filter (\<lambda>r. case r of Ready (Some (Inr m)) \<Rightarrow> Some (jm_message m) | _ \<Rightarrow> None) rs"

definition is_batch_message :: "server_message \<Rightarrow> bool" where
  "is_batch_message m \<longleftrightarrow> status_code m = None \<or> status_code m = Some OK"

definition messages_of :: "item list \<Rightarrow> server_message list" where
  "messages_of items = List.map_filter (\<lambda>i. case i of Inr m \<Rightarrow> if is_batch_message m then Some m else None | Inl _ \<Rightarrow> None) items"

text \<open>The answers after which a batch is over.\<close>

definition batch_over :: "batch_item poll \<Rightarrow> bool" where
  "batch_over r \<longleftrightarrow> r = Ready None \<or> (\<exists>err. r = Ready (Some (Err (Batch_ServerError err))))"

lemma batch_messages_Cons:
  "batch_messages (r # rs) = (case r of Ready (Some (Inr m)) \<Rightarrow> [jm_message m] | _ \<Rightarrow> []) @ batch_messages rs"
  by (simp add: batch_messages_def map_filter_simps split: poll.splits option.splits sum.splits)

lemma batch_messages_append: "batch_messages (xs @ ys) = batch_messages xs @ batch_messages ys"
  by (simp add: batch_messages_def map_filter_def)

lemma messages_of_append: "messages_of (xs @ ys) = messages_of xs @ messages_of ys"
  by (simp add: messages_of_def map_filter_def)

lemma batch_message_cases:
  assumes "batch_message msg b = (r, b')" and "pending_msgs b \<noteq> 0"
  shows "cb_subscription b' = cb_subscription b \<and> batch_messages [r] = messages_of [Inr msg] \<and>
    length (batch_messages [r]) + pending_msgs b' \<le> pending_msgs b \<and> (batch_over r \<longrightarrow> pending_msgs b' = 0) \<and>
    (pending_msgs b' = 0 \<or> length (batch_messages [r]) + pending_msgs b' = pending_msgs b)"
  using assms
  by (auto simp: batch_message_def batch_messages_Cons messages_of_def is_batch_message_def map_filter_simps
      jetstream_message_new_def batch_messages_def OK_def IDLE_HEARTBEAT_def batch_over_def split: option.splits if_splits)

lemma batch_poll_total: "\<exists>r b' w'. batch_poll_next e dbg b w = Some (r, b', w')"
proof (cases "batch_poll_next e dbg b w")
  case None
  obtain r sub w1 where "subscription_poll_next (je_receivers e) dbg (cb_subscription b) w = Some (r, sub, w1)"
    using poll_next_total [of "je_receivers e" dbg "cb_subscription b" w] by auto
  with None show ?thesis by (simp add: batch_poll_next_def Let_def split: if_splits)
next
  case (Some x)
  then show ?thesis by (cases x) auto
qed

text \<open>A poll yields what it takes from the subscription, when that is a message without a status or with status 200.\<close>

lemma batch_poll_step:
  assumes ok: "receiver_ok (je_receivers e) (s_receiver (cb_subscription b)) out"
    and clk: "\<forall>d w r w'. poll_sleep (je_clock e) d w = (r, w') \<longrightarrow> out w' = out w"
    and p: "batch_poll_next e dbg b w = Some (r, b', w')"
  shows "s_receiver (cb_subscription b') = s_receiver (cb_subscription b) \<and>
    (\<exists>items new. out w' = out w @ new \<and>
       rev (receiver_queue (cb_subscription b)) @ new = items @ rev (receiver_queue (cb_subscription b')) \<and>
       batch_messages [r] = messages_of items) \<and>
    length (batch_messages [r]) + pending_msgs b' \<le> pending_msgs b \<and> (batch_over r \<longrightarrow> pending_msgs b' = 0) \<and>
    (pending_msgs b' = 0 \<or> length (batch_messages [r]) + pending_msgs b' = pending_msgs b)"
proof (cases "pending_msgs b = 0")
  case True
  with p show ?thesis
    by (auto simp: batch_over_def batch_poll_next_def batch_messages_Cons messages_of_def batch_messages_def map_filter_simps
        intro!: exI [of _ "[]"])
next
  case False
  obtain q sub w1 where q: "subscription_poll_next (je_receivers e) dbg (cb_subscription b) w = Some (q, sub, w1)"
    using poll_next_total [of "je_receivers e" dbg "cb_subscription b" w] by auto
  from poll_next_order [OF ok q] obtain new where n: "s_receiver sub = s_receiver (cb_subscription b)"
      "out w1 = out w @ new" "rev (receiver_queue (cb_subscription b)) @ new = yielded q @ rev (receiver_queue sub)"
    by blast
  have "out w' = out w1 \<and> cb_subscription b' = sub \<and> batch_messages [r] = messages_of (yielded q) \<and>
      length (batch_messages [r]) + pending_msgs b' \<le> pending_msgs b \<and> (batch_over r \<longrightarrow> pending_msgs b' = 0) \<and>
    (pending_msgs b' = 0 \<or> length (batch_messages [r]) + pending_msgs b' = pending_msgs b)"
  proof (cases q)
    case Pending
    with p q False clk show ?thesis
      by (auto simp: batch_over_def batch_poll_next_def Let_def batch_messages_Cons batch_messages_def messages_of_def yielded_def
          map_filter_simps split: prod.splits if_splits)
  next
    case (Ready x)
    show ?thesis
    proof (cases "\<exists>msg. x = Some (Inr msg)")
      case True
      then obtain msg where x: "x = Some (Inr msg)" ..
      obtain r1 b1 where m: "batch_message msg (b\<lparr>cb_subscription := sub\<rparr>) = (r1, b1)" by fastforce
      from batch_message_cases [OF m] p q False Ready x m show ?thesis
        by (auto simp: batch_poll_next_def Let_def yielded_def)
    next
      case other: False
      with p q False Ready show ?thesis
        by (auto simp: batch_over_def batch_poll_next_def Let_def batch_messages_Cons batch_messages_def messages_of_def yielded_def
            map_filter_simps split: option.splits sum.splits)
    qed
  qed
  with n show ?thesis by (intro conjI exI [of _ "yielded q"] exI [of _ new]) auto
qed

lemma batch_run_step:
  assumes "receiver_ok (je_receivers e) (s_receiver (cb_subscription b)) out"
    and clk: "\<forall>d w r w'. poll_sleep (je_clock e) d w = (r, w') \<longrightarrow> out w' = out w"
  shows "\<exists>rs b' w' items new. batch_run e dbg k b w = Some (rs, b', w') \<and> out w' = out w @ new \<and>
    rev (receiver_queue (cb_subscription b)) @ new = items @ rev (receiver_queue (cb_subscription b')) \<and>
    batch_messages rs = messages_of items \<and> length (batch_messages rs) + pending_msgs b' \<le> pending_msgs b \<and>
    ((\<exists>r\<in>set rs. batch_over r) \<longrightarrow> batch_is_terminated b') \<and>
    (batch_is_terminated b' \<or> length (batch_messages rs) + pending_msgs b' = pending_msgs b)"
  using assms(1)
proof (induction k arbitrary: b w)
  case 0
  show ?case by (auto simp: batch_messages_def messages_of_def map_filter_simps)
next
  case (Suc k)
  obtain r b1 w1 where 1: "batch_poll_next e dbg b w = Some (r, b1, w1)" using batch_poll_total [of e dbg b w] by auto
  from batch_poll_step [OF Suc.prems clk 1] obtain i1 n1 where
    s1: "s_receiver (cb_subscription b1) = s_receiver (cb_subscription b)" "out w1 = out w @ n1"
      "rev (receiver_queue (cb_subscription b)) @ n1 = i1 @ rev (receiver_queue (cb_subscription b1))"
      "batch_messages [r] = messages_of i1" "length (batch_messages [r]) + pending_msgs b1 \<le> pending_msgs b"
      "batch_over r \<longrightarrow> pending_msgs b1 = 0"
      "pending_msgs b1 = 0 \<or> length (batch_messages [r]) + pending_msgs b1 = pending_msgs b" by blast
  have "receiver_ok (je_receivers e) (s_receiver (cb_subscription b1)) out" using Suc.prems s1(1) by simp
  from Suc.IH [OF this, of w1] obtain rs b' w' i2 n2 where
    s2: "batch_run e dbg k b1 w1 = Some (rs, b', w')" "out w' = out w1 @ n2"
      "rev (receiver_queue (cb_subscription b1)) @ n2 = i2 @ rev (receiver_queue (cb_subscription b'))"
      "batch_messages rs = messages_of i2" "length (batch_messages rs) + pending_msgs b' \<le> pending_msgs b1"
      "(\<exists>r\<in>set rs. batch_over r) \<longrightarrow> batch_is_terminated b'"
      "batch_is_terminated b' \<or> length (batch_messages rs) + pending_msgs b' = pending_msgs b1" by blast
  have "rev (receiver_queue (cb_subscription b)) @ n1 @ n2 = (i1 @ i2) @ rev (receiver_queue (cb_subscription b'))"
    using s1(3) s2(3) by (metis append.assoc)
  moreover have both: "batch_messages (r # rs) = batch_messages [r] @ batch_messages rs"
    using batch_messages_append [of "[r]" rs] by simp
  then have "batch_messages (r # rs) = messages_of (i1 @ i2)"
    using s1(4) s2(4) by (simp add: messages_of_append)
  moreover have "length (batch_messages (r # rs)) = length (batch_messages [r]) + length (batch_messages rs)"
    unfolding both by simp
  ultimately show ?case
    using 1 s1(2,5,6,7) s2(1,2,5,6,7)
    by (intro exI [of _ "r # rs"] exI [of _ b'] exI [of _ w'] exI [of _ "i1 @ i2"] exI [of _ "n1 @ n2"])
      (auto simp: batch_is_terminated_def)
qed

section \<open>When a stream ends\<close>

primrec stream_run ::
    "('s, 'x, 'o, 'q, 'p, 't, 'w) js_env \<Rightarrow> bool \<Rightarrow> nat \<Rightarrow> ('x, 't) consumer_stream \<Rightarrow> client \<Rightarrow> 'w \<Rightarrow>
     ((consumer_stream_error + jetstream_message) option poll list \<times> ('x, 't) consumer_stream \<times> client \<times> 'w) option" where
  "stream_run e dbg 0 s c w = Some ([], s, c, w)"
| "stream_run e dbg (Suc k) s c w = do {
     (r, s, c, w) \<leftarrow> consumer_stream_poll_next e dbg s c w;
     (rs, s, c, w) \<leftarrow> stream_run e dbg k s c w;
     Some (r # rs, s, c, w) }"

definition goes_on :: "(consumer_stream_error + jetstream_message) option poll \<Rightarrow> bool" where
  "goes_on r \<longleftrightarrow> r = Pending \<or> (\<exists>m. r = Ready (Some (Ok m)))"

lemma stream_poll_cases:
  assumes "consumer_stream_poll_next e dbg s c w = Some (r, s', c', w')"
  shows "if cs_status s = Broken then r = Ready None \<and> s' = s
    else (goes_on r \<and> cs_status s' \<noteq> Broken \<or> (\<exists>err. r = Ready (Some (Err err))) \<and> cs_status s' = Broken)"
  using assms by (auto simp: consumer_stream_poll_next_def goes_on_def Let_def
      split: consumer_stream_status.splits bind_splits poll.splits option.splits sum.splits prod.splits)

lemma stream_run_broken:
  assumes "cs_status s = Broken"
  shows "stream_run e dbg k s c w = Some (replicate k (Ready None), s, c, w)"
  using assms by (induction k) (simp_all add: consumer_stream_poll_next_def)

lemma stream_run_shape:
  assumes "stream_run e dbg k s c w = Some (rs, s', c', w')" and "cs_status s \<noteq> Broken"
  shows "\<exists>as bs. rs = as @ bs \<and> (\<forall>r\<in>set as. goes_on r) \<and>
    (bs = [] \<and> \<not> consumer_stream_is_terminated s' \<or>
     (\<exists>err n. bs = Ready (Some (Err err)) # replicate n (Ready None)) \<and> consumer_stream_is_terminated s')"
  using assms
proof (induction k arbitrary: rs s c w)
  case 0
  then show ?case by (auto simp: consumer_stream_is_terminated_def)
next
  case (Suc k)
  from Suc.prems(1) obtain r s1 c1 w1 rs1 where 1: "consumer_stream_poll_next e dbg s c w = Some (r, s1, c1, w1)"
      "stream_run e dbg k s1 c1 w1 = Some (rs1, s', c', w')" "rs = r # rs1"
    by (auto split: bind_splits)
  show ?case
  proof (cases "cs_status s1 = Broken")
    case True
    with stream_poll_cases [OF 1(1)] Suc.prems(2) obtain err where "r = Ready (Some (Err err))"
      by (auto simp: goes_on_def)
    moreover have "rs1 = replicate k (Ready None) \<and> s' = s1"
      using 1(2) by (simp add: stream_run_broken [OF True])
    ultimately show ?thesis using 1(3) True
      by (intro exI [of _ "[]"] exI [of _ rs]) (auto simp: consumer_stream_is_terminated_def)
  next
    case False
    with stream_poll_cases [OF 1(1)] Suc.prems(2) have "goes_on r" by auto
    moreover from Suc.IH [OF 1(2) False] obtain as bs where "rs1 = as @ bs" "\<forall>r\<in>set as. goes_on r"
        "bs = [] \<and> \<not> consumer_stream_is_terminated s' \<or>
         (\<exists>err n. bs = Ready (Some (Err err)) # replicate n (Ready None)) \<and> consumer_stream_is_terminated s'" by blast
    ultimately show ?thesis using 1(3) by (intro exI [of _ "r # as"] exI [of _ bs]) auto
  qed
qed

text \<open>A stream of batches of no messages asks for one after the other and yields none.\<close>

definition empty_batches :: "('x, 't) consumer_stream \<Rightarrow> bool" where
  "empty_batches s \<longleftrightarrow> cs_max_msgs s = 0 \<and>
     (case cs_status s of RunningBatch b \<Rightarrow> batch_is_terminated b | _ \<Rightarrow> True)"

lemma batch_publishing_pending:
  assumes "batch_publishing_poll e jc expires n req sub c w = Some (Ready (Ok b), fut, c', w')"
  shows "pending_msgs b = n"
  using assms by (auto simp: batch_publishing_poll_def batch_publish_def js_try_def
      split: prod.splits if_splits bind_splits sum.splits)

lemma batch_future_pending:
  assumes "batch_future_poll e dbg jc consumer expires n fut c w = Some (Ready (Ok b), fut', c', w')"
  shows "pending_msgs b = n"
  using assms by (auto simp: batch_future_poll_def batch_subscribing_poll_def
      split: batch_future.splits prod.splits if_splits bind_splits sum.splits dest: batch_publishing_pending)

lemma zero_batch_step:
  assumes "consumer_stream_poll_next e dbg s c w = Some (r, s', c', w')" and "empty_batches s"
  shows "empty_batches s' \<and> (\<forall>m. r \<noteq> Ready (Some (Ok m)))"
  using assms
  by (auto simp: consumer_stream_poll_next_def empty_batches_def batch_is_terminated_def batch_poll_next_def Let_def
      split: consumer_stream_status.splits bind_splits poll.splits option.splits sum.splits prod.splits
      dest: batch_future_pending)

lemma zero_batch_never_yields:
  assumes "stream_run e dbg k s c w = Some (rs, s', c', w')" and "empty_batches s"
  shows "\<forall>m. Ready (Some (Ok m)) \<notin> set rs"
  using assms
proof (induction k arbitrary: rs s c w)
  case (Suc k)
  from Suc.prems(1) obtain r s1 c1 w1 rs1 where 1: "consumer_stream_poll_next e dbg s c w = Some (r, s1, c1, w1)"
      "stream_run e dbg k s1 c1 w1 = Some (rs1, s', c', w')" "rs = r # rs1"
    by (auto split: bind_splits)
  from zero_batch_step [OF 1(1) Suc.prems(2)] Suc.IH [OF 1(2)] 1(3) show ?case by auto
qed simp

section \<open>A batch of two messages\<close>

definition batch_reply :: "status_code option \<Rightarrow> server_message" where
  "batch_reply status = \<lparr> status_code = status, status_description = None, subscription_id = 1,
     base = \<lparr> msg_subject = Subject ''a'', msg_reply_subject = None, msg_headers = header_map_new, msg_payload = [] \<rparr> \<rparr>"

definition batch_replies :: "item list" where
  "batch_replies = [Inr (batch_reply None), Inr (batch_reply (Some IDLE_HEARTBEAT)), Inr (batch_reply (Some OK))]"

definition batch_env :: "(unit, unit, unit, nat, unit, unit, (unit, unit) handler_command list) js_env" where
  "batch_env = demo_env\<lparr>je_receivers := (je_receivers demo_env)\<lparr>recv_poll_many :=
     (\<lambda>_ _ w. if w = [] then (Ready batch_replies, [Cmd_Unsubscribe 1 None]) else (Pending, w))\<rparr>\<rparr>"

definition demo_batch :: "nat \<Rightarrow> unit consumer_batch" where
  "demo_batch n = \<lparr> cb_subscription = subscription_new 1 (), cb_timeout = 0, pending_msgs = n \<rparr>"

lemma batch_demo_run:
  "\<exists>b' w'. batch_run batch_env True 3 (demo_batch 2) [] =
     Some ([Ready (Some (Ok (jetstream_message_new (batch_reply None)))), Pending,
       Ready (Some (Ok (jetstream_message_new (batch_reply (Some OK)))))], b', w')"
proof -
  let ?b = "\<lambda>q n. (demo_batch n)\<lparr>cb_subscription := (subscription_new 1 ())\<lparr>receiver_queue := q\<rparr>\<rparr>"
  let ?m = "batch_reply None" and ?h = "batch_reply (Some IDLE_HEARTBEAT)" and ?o = "batch_reply (Some OK)"
  let ?w = "[Cmd_Unsubscribe 1 None]"
  have "subscription_poll_next (je_receivers batch_env) True (cb_subscription (demo_batch 2)) [] =
      Some (Ready (Some (Inr ?m)), (subscription_new 1 ())\<lparr>receiver_queue := [Inr ?o, Inr ?h]\<rparr>, ?w)"
    by (simp add: subscription_poll_next_def demo_batch_def subscription_new_def vec_pop_def batch_env_def batch_replies_def)
  then have 1: "batch_poll_next batch_env True (demo_batch 2) [] =
      Some (Ready (Some (Ok (jetstream_message_new ?m))), ?b [Inr ?o, Inr ?h] 1, ?w)"
    by (simp add: batch_poll_next_def demo_batch_def batch_message_def batch_reply_def)
  have poll: "subscription_poll_next (je_receivers batch_env) True ((subscription_new 1 ())\<lparr>receiver_queue := q @ [i]\<rparr>) w =
      Some (Ready (Some i), (subscription_new 1 ())\<lparr>receiver_queue := q\<rparr>, w)" for q i w
    by (simp add: subscription_poll_next_def vec_pop_def)
  note poll [of "[Inr ?o]" "Inr ?h", unfolded append.simps]
  then have 2: "batch_poll_next batch_env True (?b [Inr ?o, Inr ?h] 1) w = Some (Pending, ?b [Inr ?o] 1, w)" for w
    by (simp add: batch_poll_next_def demo_batch_def) (simp add: batch_message_def batch_reply_def OK_def IDLE_HEARTBEAT_def)
  note poll [of "[]" "Inr ?o", unfolded append.simps]
  then have 3: "batch_poll_next batch_env True (?b [Inr ?o] 1) w =
      Some (Ready (Some (Ok (jetstream_message_new ?o))), ?b [] 0, w)" for w
    by (simp add: batch_poll_next_def demo_batch_def) (simp add: batch_message_def batch_reply_def)
  from 1 2 3 show ?thesis by (simp add: numeral_eq_Suc)
qed

definition bad_consumer :: "unit consumer" where
  "bad_consumer = \<lparr> co_stream_name = ''a b'', co_config =
     \<lparr> cc_durability = Ephemeral, cc_name = ''c'', cc_description = [], cc_deliver_policy = Deliver_All,
       cc_ack_policy = Ack_None, cc_max_deliver = None, cc_backoff = [], cc_filter_subjects = [],
       cc_replay_policy = Instant, cc_rate_limit = None, cc_headers_only = False,
       cc_specs = Pull None None 0 None, cc_inactive_threshold = 0, cc_replicas = None, cc_storage = Disk,
       cc_metadata = [] \<rparr>, co_created_at = () \<rparr>"

lemma stream_demo_run:
  "\<exists>err s. stream_run batch_env True 2 (consumer_stream_new bad_consumer (jetstream_new_with_prefix (Subject ''$JS.API'')) 0 1)
     demo_client [] = Some ([Ready (Some (Err err)), Ready None], s, demo_client, [])"
proof -
  have "\<exists>x. subject_try_from True ''$JS.API.CONSUMER.MSG.NEXT.a b.c'' = Some (Err x)"
    by (simp add: subject_try_from_def validate_subject_def is_separator_def)
  then show ?thesis
    by (auto simp: numeral_eq_Suc consumer_stream_poll_next_def consumer_stream_new_def batch_future_poll_def
        batch_prepare_def js_then_def js_subject_def js_try_def js_name_def jetstream_new_with_prefix_def bad_consumer_def)
qed

text \<open>A stream of batches yields messages until its first error, which it yields once, and then it is at
  its end for good; it never ends otherwise, so the end of a batch only makes it ask for the next one.\<close>

lemma consumer_stream_ends:
  assumes "stream_run e dbg k (consumer_stream_new consumer jc expires max_msgs) c w = Some (rs, s, c', w')"
  shows "\<exists>as bs. rs = as @ bs \<and> (\<forall>r\<in>set as. goes_on r) \<and>
    (bs = [] \<and> \<not> consumer_stream_is_terminated s \<or>
     (\<exists>err n. bs = Ready (Some (Err err)) # replicate n (Ready None)) \<and> consumer_stream_is_terminated s)"
  using assms by (rule stream_run_shape) (simp add: consumer_stream_new_def)

section \<open>Properties\<close>

text \<open>C17: However often a batch is polled, it does not panic and it yields, in the order the
  subscription took them out of its channel, the messages without a status or with status 200 and
  no others, never more than it asked for; while it goes on it counts exactly what is missing,
  and once it yielded an error of the server or its end it stays at its end.\<close>

theorem batch_yields:
  assumes "receiver_ok (je_receivers e) (s_receiver (cb_subscription b)) out"
    and "\<forall>d w r w'. poll_sleep (je_clock e) d w = (r, w') \<longrightarrow> out w' = out w"
  shows "\<exists>rs b' w' items new. batch_run e dbg k b w = Some (rs, b', w') \<and> out w' = out w @ new \<and>
    rev (receiver_queue (cb_subscription b)) @ new = items @ rev (receiver_queue (cb_subscription b')) \<and>
    batch_messages rs = messages_of items \<and> length (batch_messages rs) + pending_msgs b' \<le> pending_msgs b \<and>
    ((\<exists>r\<in>set rs. batch_over r) \<longrightarrow> batch_is_terminated b') \<and>
    (batch_is_terminated b' \<or> length (batch_messages rs) + pending_msgs b' = pending_msgs b)"
  using assms by (rule batch_run_step)

lemma batch_yields_witness:
  "\<exists>b' w'. batch_run batch_env True 3 (demo_batch 2) [] =
     Some ([Ready (Some (Ok (jetstream_message_new (batch_reply None)))), Pending,
       Ready (Some (Ok (jetstream_message_new (batch_reply (Some OK)))))], b', w') \<and> batch_is_terminated b'"
proof -
  let ?out = "\<lambda>w. if w = [] then [] else batch_replies"
  have ok: "receiver_ok (je_receivers batch_env) (s_receiver (cb_subscription (demo_batch 2))) ?out"
    by (simp add: receiver_ok_def batch_env_def)
  have clk: "\<forall>d w r w'. poll_sleep (je_clock batch_env) d w = (r, w') \<longrightarrow> ?out w' = ?out w"
    by (simp add: batch_env_def demo_env_def)
  from batch_demo_run obtain b' w' where r: "batch_run batch_env True 3 (demo_batch 2) [] =
     Some ([Ready (Some (Ok (jetstream_message_new (batch_reply None)))), Pending,
       Ready (Some (Ok (jetstream_message_new (batch_reply (Some OK)))))], b', w')" (is "_ = Some (?rs, _, _)") by blast
  from batch_yields [OF ok clk, of True 3 "[]"] r have "length (batch_messages ?rs) + pending_msgs b' \<le> pending_msgs (demo_batch 2)"
    by auto
  then have "batch_is_terminated b'"
    by (simp add: batch_messages_Cons batch_messages_def map_filter_simps batch_is_terminated_def demo_batch_def)
  with r show ?thesis by blast
qed

end
