(* ===== verification/Js_Config.thy ===== *)
theory Js_Config
  imports Js_Batch
begin

text \<open>
  What the configurations read from the answers of the server satisfy, and what happens to a configuration that
  cannot be written.
\<close>

section \<open>What a deserializer yields\<close>

definition yields :: "('j \<Rightarrow> 'e + 'a) \<Rightarrow> ('a \<Rightarrow> bool) \<Rightarrow> bool" where
  "yields de P \<longleftrightarrow> (\<forall>j a. de j = Ok a \<longrightarrow> P a)"

lemma yieldsD: "yields de P \<Longrightarrow> de j = Ok a \<Longrightarrow> P a"
  by (auto simp: yields_def)

text \<open>The same of a single result, to follow a chain of \<open>?\<close>.\<close>

definition gives :: "'e + 'a \<Rightarrow> ('a \<Rightarrow> bool) \<Rightarrow> bool" where
  "gives r P \<longleftrightarrow> (\<forall>a. r = Ok a \<longrightarrow> P a)"

lemma gives_and_then: "gives r Q \<Longrightarrow> (\<And>a. Q a \<Longrightarrow> gives (f a) P) \<Longrightarrow> gives (and_then r f) P"
  by (auto simp: gives_def and_then_Inr_iff)

lemma gives_map_ok: "gives r (\<lambda>a. P (f a)) \<Longrightarrow> gives (map_ok f r) P"
  by (auto simp: gives_def map_ok_Inr_iff)

lemma gives_Ok: "P a \<Longrightarrow> gives (Ok a) P"
  by (simp add: gives_def)

lemma gives_any: "gives r (\<lambda>_. True)"
  by (simp add: gives_def)

lemma required_gives: "yields de P \<Longrightarrow> gives (required fs n de) P"
  by (auto simp: gives_def yields_def required_def and_then_Inr_iff split: option.splits)

lemma defaulted_gives: "yields de P \<Longrightarrow> P d \<Longrightarrow> gives (defaulted fs n d de) P"
  by (auto simp: gives_def yields_def defaulted_def and_then_Inr_iff split: option.splits)

lemma optional_gives: "yields de P \<Longrightarrow> gives (optional fs n de) (\<lambda>a. \<forall>b. a = Some b \<longrightarrow> P b)"
  unfolding optional_def
  by (rule defaulted_gives [where de = "de_option de"])
    (auto simp: yields_def de_option_def map_ok_Inr_iff split: if_splits)

lemma de_array_yields:
  assumes "yields de P"
  shows "yields (de_array de) (\<lambda>as. \<forall>a\<in>set as. P a)"
proof -
  have "de_list de js = Ok as \<longrightarrow> (\<forall>a\<in>set as. P a)" for js as
    using assms by (induction js arbitrary: as) (auto simp: yields_def and_then_Inr_iff map_ok_Inr_iff)
  then have "de_array de j = Ok as \<longrightarrow> (\<forall>a\<in>set as. P a)" for j as
    by (cases j) auto
  then show ?thesis by (simp add: yields_def)
qed

lemma de_subject_yields: "yields de_subject (\<lambda>s. validate_subject (subject_as_str s) = Ok ())"
  by (auto simp: yields_def de_subject_def and_then_Inr_iff map_ok_Inr_iff)

lemma de_queue_group_yields:
  "yields de_queue_group (\<lambda>g. validate_queue_group (queue_group_as_str g) = Ok ())"
  by (auto simp: yields_def de_queue_group_def and_then_Inr_iff map_ok_Inr_iff)

lemma de_nonzero_yields: "yields de_nonzero (\<lambda>n. n \<noteq> 0)"
  by (auto simp: yields_def de_nonzero_def and_then_Inr_iff split: if_splits)

lemma de_int_range: "de_int lo hi j = Ok i \<Longrightarrow> lo \<le> i \<and> i < hi"
  by (cases j) (auto split: if_splits)

lemma duration_yields: "yields duration_deserialize (\<lambda>d. d < 2 ^ 64)"
  by (auto simp: yields_def duration_deserialize_def map_ok_Inr_iff dest!: de_int_range)

lemma duration_vec_yields: "yields duration_vec_deserialize (\<lambda>ds. \<forall>d\<in>set ds. d < 2 ^ 64)"
proof -
  have "yields (de_int 0 (2 ^ 64)) (\<lambda>i. nat i < 2 ^ 64)" by (auto simp: yields_def dest!: de_int_range)
  from de_array_yields [OF this] show ?thesis
    by (auto simp: yields_def duration_vec_deserialize_def map_ok_Inr_iff)
qed

lemma option_nonzero_yields: "yields option_nonzero_deserialize (\<lambda>n. n \<noteq> Some 0)"
  by (auto simp: yields_def option_nonzero_deserialize_def map_ok_Inr_iff)

lemma nullable_number_yields:
  "yields (nullable_number_deserialize :: json \<Rightarrow> json_error + 'a::len word option)
     (\<lambda>x. \<forall>n. x = Some n \<longrightarrow> uint n < 2 ^ (LENGTH('a) - 1))"
proof (unfold yields_def, intro allI impI)
  fix j x and n :: "'a word"
  assume "(nullable_number_deserialize j :: json_error + 'a word option) = Ok x" "x = Some n"
  then obtain i where i: "de_int (- (2 ^ (LENGTH('a) - 1))) (2 ^ (LENGTH('a) - 1)) j = Ok i" "0 \<le> i" "n = of_int i"
    by (auto simp: nullable_number_deserialize_def and_then_Inr_iff split: if_splits)
  from de_int_range [OF i(1)] have h: "i < 2 ^ (LENGTH('a) - 1)" by simp
  then have "i < 2 ^ LENGTH('a)" by (rule less_le_trans) simp
  with i(2,3) h show "uint n < 2 ^ (LENGTH('a) - 1)" by (simp add: uint_word_of_int_eq take_bit_int_eq_self)
qed

lemma de_string_map_yields: "yields de_string_map (bt_wf (\<lambda>k. k))"
proof -
  have "bt_wf (\<lambda>k. k) m \<longrightarrow> de_string_map_from m fs = Ok m' \<longrightarrow> bt_wf (\<lambda>k. k) m'" for m fs m'
    by (induction m fs rule: de_string_map_from.induct) (auto simp: and_then_Inr_iff bt_wf_insert)
  from this [of "[]"] show ?thesis by (auto simp: yields_def de_string_map_def and_then_Inr_iff)
qed

lemmas read_values =
  required_gives [OF de_array_yields [OF de_subject_yields]] required_gives [OF de_nonzero_yields]
  required_gives [OF duration_yields] required_gives [OF nullable_number_yields]
  required_gives [OF option_nonzero_yields] optional_gives [OF de_subject_yields]
  optional_gives [OF de_queue_group_yields] optional_gives [OF de_nonzero_yields]
  defaulted_gives [OF duration_vec_yields, where d = "[]", simplified]
  defaulted_gives [OF de_array_yields [OF de_subject_yields], where d = "[]", simplified]
  defaulted_gives [OF duration_yields, where d = 0, simplified]
  defaulted_gives [OF de_string_map_yields, where d = "[]", simplified]

section \<open>Configurations\<close>

lemma stream_config_read: "gives (stream_config_deserialize j) (\<lambda>c. stream_config_ok c \<and> is_ok (stream_config_serialize c))"
  unfolding stream_config_deserialize_def
  by ((rule gives_and_then, rule read_values gives_any)+, rule gives_Ok)
    (auto simp: stream_config_ok_def stream_config_serialize_ok)

definition pending_in_range :: "ack_policy \<Rightarrow> bool" where
  "pending_in_range ap \<longleftrightarrow>
     (case ap of Ack_Explicit d x \<Rightarrow> d < 2 ^ 64 \<and> (\<forall>n. x = Some n \<longrightarrow> uint n < 2 ^ 31)
      | Ack_All d x \<Rightarrow> d < 2 ^ 64 \<and> (\<forall>n. x = Some n \<longrightarrow> uint n < 2 ^ 31) | Ack_None \<Rightarrow> True)"

lemma ack_policy_read: "gives (ack_policy_deserialize fs) pending_in_range"
proof -
  have "gives (and_then (required fs ''ack_wait'' duration_deserialize) (\<lambda>wait.
      map_ok (K wait) (required fs ''max_ack_pending'' nullable_number_deserialize))) pending_in_range"
    if "\<And>d x. pending_in_range (K d x) \<longleftrightarrow> d < 2 ^ 64 \<and> (\<forall>n. x = Some n \<longrightarrow> uint n < 2 ^ 31)"
    for K :: "nat \<Rightarrow> u32 option \<Rightarrow> ack_policy"
    using required_gives [OF duration_yields, of fs "''ack_wait''"]
      required_gives [OF nullable_number_yields [where 'a = 32], of fs "''max_ack_pending''"]
    by (auto simp: gives_def and_then_Inr_iff map_ok_Inr_iff that)
  from this [of Ack_Explicit] this [of Ack_All] show ?thesis
    unfolding ack_policy_deserialize_def
    by (intro gives_and_then [OF gives_any]) (auto simp: pending_in_range_def gives_def)
qed

lemma raw_read:
  "gives (raw_deserialize jx j) (\<lambda>r. raw_ok r \<and> (\<forall>n. rc_max_deliver r = Some n \<longrightarrow> uint n < 2 ^ 31) \<and>
     pending_in_range (rc_ack_policy r))"
  unfolding raw_deserialize_def
  by ((rule gives_and_then, rule read_values ack_policy_read gives_any)+, rule gives_Ok)
    (auto simp: raw_ok_def pending_in_range_def split: ack_policy.splits)

lemma of_raw_read:
  assumes "of_raw r = Ok c" and "raw_ok r"
  shows "consumer_config_ok c \<and> cc_max_deliver c = rc_max_deliver r \<and> cc_ack_policy c = rc_ack_policy r"
  using assms
  by (auto simp: of_raw_def and_then_Inr_iff consumer_config_ok_def raw_ok_def Let_def
      split: option.splits list.splits if_splits)

lemma consumer_config_read:
  "gives (consumer_config_deserialize jx j) (\<lambda>c. consumer_config_ok c \<and> is_ok (consumer_config_serialize jx c))"
  unfolding consumer_config_deserialize_def
proof (rule gives_and_then [OF raw_read])
  fix r :: "'a raw_consumer_config"
  assume "raw_ok r \<and> (\<forall>n. rc_max_deliver r = Some n \<longrightarrow> uint n < 2 ^ 31) \<and> pending_in_range (rc_ack_policy r)"
  then show "gives (of_raw r) (\<lambda>c. consumer_config_ok c \<and> is_ok (consumer_config_serialize jx c))"
    by (auto simp: gives_def consumer_config_serialize_ok pending_in_range_def
        dest!: of_raw_read split: ack_policy.splits option.splits)
qed

section \<open>Answers of the server\<close>

lemma js_then_simps [simp]:
  "js_then None f = None" "js_then (Some (Err err, c, w)) f = Some (Err err, c, w)" "js_then (Some (Ok a, c, w)) f = f a c w"
  by (simp_all add: js_then_def)

lemma js_then_try [simp]: "js_then (js_try (Ok a) c w) f = f a c w"
  by (simp add: js_try_def)

lemma js_subject_valid [simp]: "validate_subject text = Ok () \<Longrightarrow> js_subject dbg text c w = js_try (Ok (Subject text)) c w"
  by (simp add: js_subject_def subject.try_from_eq)

lemma js_then_assoc: "js_then (js_then m f) g = js_then m (\<lambda>a c w. js_then (f a c w) g)"
  by (cases m) (auto simp: js_then_def split: sum.splits)

text \<open>The request of a subject with a payload is sent and answered by a message whose payload is a JSON object.\<close>

definition api_answer ::
    "('s, 'x, 'o, 'q, 'p, 't, 'w) js_env \<Rightarrow> bool \<Rightarrow> jetstream_client \<Rightarrow> bytes \<Rightarrow> bytes \<Rightarrow> client \<Rightarrow> 'w \<Rightarrow>
     (bytes \<times> json) list \<Rightarrow> client \<Rightarrow> 'w \<Rightarrow> bool" where
  "api_answer e dbg jc text payload c w fs c' w' \<longleftrightarrow> validate_subject text = Ok () \<and>
     (\<exists>m. js_then (js_send e dbg (request_payload payload (make_request (Subject text) jc)) c w) (js_await e dbg) = Some (Ok m, c', w') \<and>
       of_text (je_json e) (msg_payload (base m)) = Ok (J_Obj fs))"

lemma js_call_answer:
  assumes "api_answer e dbg jc text payload c w fs c' w'"
  shows "js_call e dbg jc (Subject text) payload de c w =
    Some (map_err Js_Json (response_deserialize de (J_Obj fs)), c', w')"
proof -
  from assms obtain m where m: "js_then (js_send e dbg (request_payload payload (make_request (Subject text) jc)) c w)
      (js_await e dbg) = Some (Ok m, c', w')" "of_text (je_json e) (msg_payload (base m)) = Ok (J_Obj fs)"
    by (auto simp: api_answer_def)
  have "js_call e dbg jc (Subject text) payload de c w =
      js_then (js_then (js_send e dbg (request_payload payload (make_request (Subject text) jc)) c w) (js_await e dbg))
        (\<lambda>resp c w. js_try (js_parse (je_json e) (response_deserialize de) resp) c w)"
    unfolding js_call_def js_then_assoc ..
  then show ?thesis unfolding m(1) by (simp add: js_try_def js_parse_def m(2))
qed

lemma response_of_error:
  "required fs ''error'' api_error_deserialize = Ok err \<Longrightarrow> response_deserialize de (J_Obj fs) = Ok (Response_Error err)"
  by (simp add: response_deserialize_def)

lemma response_of_value:
  "find_field fs ''error'' = Ok None \<Longrightarrow> de (J_Obj fs) = Ok a \<Longrightarrow> response_deserialize de (J_Obj fs) = Ok (Response_Ok a)"
  by (simp add: response_deserialize_def required_def)

lemma get_stream_answer:
  assumes "api_answer e dbg jc (js_name jc [''.STREAM.INFO.'', name]) [] c w fs c' w'"
  shows "(required fs ''error'' api_error_deserialize = Ok err \<longrightarrow> get_stream e dbg jc name c w =
      Some (if ae_code err = JS_STREAM_NOT_FOUND then Ok None else Err (Js_Api err), c', w')) \<and>
    (find_field fs ''error'' = Ok None \<and> stream_deserialize (je_json e) (J_Obj fs) = Ok st \<longrightarrow>
      get_stream e dbg jc name c w = Some (Ok (Some st), c', w'))"
  using assms js_call_answer [OF assms, of "stream_deserialize (je_json e)"]
  by (simp add: get_stream_def api_answer_def response_of_error response_of_value js_try_def)

lemma get_consumer_answer:
  assumes "api_answer e dbg jc (js_name jc [''.CONSUMER.INFO.'', stream_name, ''.'', name]) [] c w fs c' w'"
  shows "(required fs ''error'' api_error_deserialize = Ok err \<longrightarrow> get_consumer e dbg jc stream_name name c w =
      Some (if ae_code err = JS_CONSUMER_NOT_FOUND then Ok None else Err (Js_Api err), c', w')) \<and>
    (find_field fs ''error'' = Ok None \<and> consumer_deserialize (je_json e) (J_Obj fs) = Ok co \<longrightarrow>
      get_consumer e dbg jc stream_name name c w = Some (Ok (Some co), c', w'))"
  using assms js_call_answer [OF assms, of "consumer_deserialize (je_json e)"]
  by (simp add: get_consumer_def api_answer_def response_of_error response_of_value js_try_def)

lemma delete_consumer_answer:
  assumes "api_answer e dbg jc (js_name jc [''.CONSUMER.DELETE.'', stream_name, ''.'', name]) [] c w fs c' w'"
  shows "(required fs ''error'' api_error_deserialize = Ok err \<longrightarrow>
      delete_consumer e dbg jc stream_name name c w = Some (Err (Js_Api err), c', w')) \<and>
    (find_field fs ''error'' = Ok None \<and> required fs ''success'' de_bool = Ok b \<longrightarrow>
      delete_consumer e dbg jc stream_name name c w = Some (Ok (), c', w'))"
  using assms js_call_answer [OF assms, of delete_consumer_response_deserialize]
  by (simp add: delete_consumer_def api_answer_def response_of_error response_of_value js_try_def
      delete_consumer_response_deserialize_def)

section \<open>Configurations that cannot be written\<close>

definition consumer_create_name :: "jetstream_client \<Rightarrow> bytes \<Rightarrow> 't consumer_config \<Rightarrow> bytes" where
  "consumer_create_name jc stream_name config = js_name jc ([''.CONSUMER.CREATE.'', stream_name, ''.'', cc_name config] @
     (case cc_filter_subjects config of [s] \<Rightarrow> [''.'', subject_as_str s] | _ \<Rightarrow> []))"

lemma create_consumer_panics:
  assumes "validate_subject (consumer_create_name jc stream_name config) = Ok ()"
    and "\<not> is_ok (consumer_config_serialize (je_json e) config)"
  shows "create_consumer e dbg jc stream_name config c w = None"
proof -
  have "json_interpolate (consumer_config_serialize (je_json e) config) = None"
    using assms(2) by (auto simp: json_interpolate_def to_value_def and_then_def is_ok_def split: sum.splits)
  with assms(1) show ?thesis
    by (simp add: create_consumer_def Let_def consumer_create_name_def js_name_def split: list.splits)
qed

lemma create_stream_fails:
  assumes "validate_subject (js_name jc [''.STREAM.CREATE.'', sc_name config]) = Ok ()"
    and "\<not> is_ok (stream_config_serialize config)"
  shows "\<exists>err. create_stream e dbg jc config c w = Some (Err (Js_Json err), c, w)"
  using assms by (auto simp: create_stream_def js_try_def is_ok_def split: sum.splits)

lemma bad_names:
  assumes "validate_subject (consumer_create_name jc stream_name config) = Err err"
  shows "create_consumer e dbg jc stream_name config c w = Some (Err (Js_Subject err), c, w)"
  using assms by (simp add: create_consumer_def Let_def consumer_create_name_def js_name_def js_subject_def
      subject.try_from_eq js_try_def split: list.splits)

section \<open>A configuration with limits, and a server that knows nothing\<close>

definition limited_config :: "unit consumer_config" where
  "limited_config = (co_config bad_consumer)\<lparr>cc_ack_policy := Ack_Explicit 5 (Some 10), cc_max_deliver := Some 3\<rparr>"

definition demo_js :: jetstream_client where
  "demo_js = jetstream_new_with_prefix (Subject ''$JS.API'')"

definition lookup_fields :: "(bytes \<times> json) list" where
  "lookup_fields = [(''error'', J_Obj [(''code'', J_Num 404), (''err_code'', J_Num 10059), (''description'', J_Str [])])]"

definition lookup_env :: "(unit, unit, unit, nat, unit, unit, (unit, unit) handler_command list) js_env" where
  "lookup_env = demo_env\<lparr>je_json := demo_json\<lparr>of_text := \<lambda>_. Ok (J_Obj lookup_fields)\<rparr>\<rparr>"

lemma demo_timestamps: "timestamps_ok demo_json"
  by (simp add: timestamps_ok_def demo_json_def)

lemma demo_configs_ok:
  "stream_config_ok demo_config" "consumer_config_ok limited_config"
  "is_ok (stream_config_serialize demo_config)" "is_ok (consumer_config_serialize demo_json limited_config)"
  by (simp_all add: stream_config_ok_def demo_config_def validate_subject_def is_separator_def is_eol_def
      consumer_config_ok_def limited_config_def bad_consumer_def stream_config_serialize_ok consumer_config_serialize_ok)

lemma demo_configs_read:
  "\<exists>j j'. stream_config_deserialize j = Ok demo_config \<and> consumer_config_deserialize demo_json j' = Ok limited_config"
proof -
  obtain j j' where j: "stream_config_serialize demo_config = Ok j" "consumer_config_serialize demo_json limited_config = Ok j'"
    using demo_configs_ok(3,4) by (auto simp: is_ok_def split: sum.splits)
  from stream_config_round [OF j(1) demo_configs_ok(1)] consumer_config_round [OF demo_timestamps j(2) demo_configs_ok(2)]
  show ?thesis by (auto simp: limits_given_def limited_config_def)
qed

lemma demo_names:
  "validate_subject (consumer_create_name demo_js ''S'' (limited_config\<lparr>cc_max_deliver := Some (2 ^ 31)\<rparr>)) = Ok ()"
  "validate_subject (js_name demo_js [''.STREAM.CREATE.'', sc_name (demo_config\<lparr>sc_max_messages := Some (2 ^ 63)\<rparr>)]) = Ok ()"
  "validate_subject (js_name demo_js [''.STREAM.INFO.'', ''S'']) = Ok ()"
  "validate_subject (js_name demo_js [''.CONSUMER.INFO.'', ''S'', ''.'', ''C'']) = Ok ()"
  "validate_subject (js_name demo_js [''.CONSUMER.DELETE.'', ''S'', ''.'', ''C'']) = Ok ()"
  by (simp_all add: consumer_create_name_def js_name_def demo_js_def jetstream_new_with_prefix_def limited_config_def
      bad_consumer_def demo_config_def validate_subject_def is_separator_def is_eol_def)

lemma lookup_answer:
  assumes "validate_subject text = Ok ()"
  shows "\<exists>w'. api_answer lookup_env False demo_js text [] demo_client w lookup_fields demo_client w'"
proof -
  obtain reply where "inbox_subject False False (replicate 16 (CHR ''a'')) (c_multiplexed_subscription_prefix demo_client) = Some reply"
    by (simp add: inbox_subject_def subject_from_dangerous_value_def)
  with assms show ?thesis
    by (simp add: api_answer_def js_send_def js_await_def await_response_def lookup_env_def demo_env_def do_request_def
        multiplexed_request_def do_multiplexed_request_def create_inbox_subject_def multiplexed_new_def
        response_fut_new_def response_poll_def multiplexed_poll_def demo_reply_def response_message_def
        response_drop_def multiplexed_drop_def js_try_def request_payload_def make_request_def
        request_response_timeout_def request_subject_def await.simps)
qed

lemma lookup_error:
  "required lookup_fields ''error'' api_error_deserialize =
     Ok \<lparr> ae_status = NOT_FOUND, ae_code = JS_STREAM_NOT_FOUND, ae_description = [] \<rparr>"
  by (simp add: required_def find_field_def lookup_fields_def api_error_deserialize_def status_code_deserialize_def
      status_code_try_from_def de_unsigned_def NOT_FOUND_def JS_STREAM_NOT_FOUND_def)

section \<open>Properties\<close>

text \<open>C28: Whatever JSON the server sends, a configuration of a stream or of a consumer that is read
  from it has valid subjects and queue groups, a name, no zero where the type has none, durations
  and limits in range and sorted metadata; so it can always be written again.\<close>

theorem configs_well_formed:
  "(stream_config_deserialize j = Ok sc \<longrightarrow> stream_config_ok sc \<and> is_ok (stream_config_serialize sc)) \<and>
   (consumer_config_deserialize jx j = Ok cc \<longrightarrow> consumer_config_ok cc \<and> is_ok (consumer_config_serialize jx cc))"
  using stream_config_read [of j] consumer_config_read [of jx j] by (simp add: gives_def)

lemma configs_well_formed_witness:
  "\<exists>j j'. stream_config_deserialize j = Ok demo_config \<and> is_ok (stream_config_serialize demo_config) \<and>
     consumer_config_deserialize demo_json j' = Ok limited_config \<and> is_ok (consumer_config_serialize demo_json limited_config)"
proof -
  obtain j j' where j: "stream_config_deserialize j = Ok demo_config" "consumer_config_deserialize demo_json j' = Ok limited_config"
    using demo_configs_read by blast
  from configs_well_formed [of j demo_config demo_json limited_config]
    configs_well_formed [of j' demo_config demo_json limited_config] j show ?thesis by blast
qed

text \<open>C29: A well formed configuration of a stream that was written is read back unchanged. So is one
  of a consumer when its limits on deliveries and on pending acknowledgments are given; one
  without them is written without their fields, which reading requires.\<close>

theorem configs_round_trip:
  assumes "timestamps_ok jx"
  shows "(stream_config_serialize sc = Ok j \<and> stream_config_ok sc \<longrightarrow> stream_config_deserialize j = Ok sc) \<and>
    (consumer_config_serialize jx cc = Ok j \<and> consumer_config_ok cc \<longrightarrow> consumer_config_deserialize jx j =
      (if limits_given (cc_max_deliver cc) (cc_ack_policy cc) then Ok cc
       else Err (Json_MissingField (case cc_ack_policy cc of
           Ack_Explicit _ None \<Rightarrow> ''max_ack_pending'' | Ack_All _ None \<Rightarrow> ''max_ack_pending'' | _ \<Rightarrow> ''max_deliver''))))"
  using stream_config_round [of sc j] consumer_config_round [OF assms, of cc j] by blast

lemma configs_round_trip_witness:
  "(\<exists>j. stream_config_serialize demo_config = Ok j \<and> stream_config_deserialize j = Ok demo_config) \<and>
   (\<exists>j. consumer_config_serialize demo_json limited_config = Ok j \<and> consumer_config_deserialize demo_json j = Ok limited_config)"
proof -
  obtain j j' where "stream_config_serialize demo_config = Ok j" "consumer_config_serialize demo_json limited_config = Ok j'"
    using demo_configs_ok(3,4) by (auto simp: is_ok_def split: sum.splits)
  with configs_round_trip [OF demo_timestamps, of demo_config j limited_config]
    configs_round_trip [OF demo_timestamps, of demo_config j' limited_config] demo_configs_ok(1,2) show ?thesis
    by (auto simp: limits_given_def limited_config_def)
qed

text \<open>C30: When the server answers a lookup with an error, a stream or a consumer that it does not know
  is none and any other error is handed to the caller with its status, code and description; an
  answer without an error is the stream or the consumer it describes, and deleting a consumer
  succeeds, whatever the success field of the answer says.\<close>

theorem lookup_outcome:
  "(api_answer e dbg jc (js_name jc [''.STREAM.INFO.'', name]) [] c w fs c' w' \<longrightarrow>
     (required fs ''error'' api_error_deserialize = Ok err \<longrightarrow> get_stream e dbg jc name c w =
        Some (if ae_code err = JS_STREAM_NOT_FOUND then Ok None else Err (Js_Api err), c', w')) \<and>
     (find_field fs ''error'' = Ok None \<and> stream_deserialize (je_json e) (J_Obj fs) = Ok st \<longrightarrow>
        get_stream e dbg jc name c w = Some (Ok (Some st), c', w'))) \<and>
   (api_answer e dbg jc (js_name jc [''.CONSUMER.INFO.'', stream_name, ''.'', name]) [] c w fs c' w' \<longrightarrow>
     (required fs ''error'' api_error_deserialize = Ok err \<longrightarrow> get_consumer e dbg jc stream_name name c w =
        Some (if ae_code err = JS_CONSUMER_NOT_FOUND then Ok None else Err (Js_Api err), c', w')) \<and>
     (find_field fs ''error'' = Ok None \<and> consumer_deserialize (je_json e) (J_Obj fs) = Ok co \<longrightarrow>
        get_consumer e dbg jc stream_name name c w = Some (Ok (Some co), c', w'))) \<and>
   (api_answer e dbg jc (js_name jc [''.CONSUMER.DELETE.'', stream_name, ''.'', name]) [] c w fs c' w' \<longrightarrow>
     (required fs ''error'' api_error_deserialize = Ok err \<longrightarrow>
        delete_consumer e dbg jc stream_name name c w = Some (Err (Js_Api err), c', w')) \<and>
     (find_field fs ''error'' = Ok None \<and> required fs ''success'' de_bool = Ok b \<longrightarrow>
        delete_consumer e dbg jc stream_name name c w = Some (Ok (), c', w')))"
  by (intro conjI impI get_stream_answer get_consumer_answer delete_consumer_answer)

lemma lookup_outcome_witness:
  "\<exists>err. ae_code err = JS_STREAM_NOT_FOUND \<and>
     (\<exists>w'. get_stream lookup_env False demo_js ''S'' demo_client [] = Some (Ok None, demo_client, w')) \<and>
     (\<exists>w'. get_consumer lookup_env False demo_js ''S'' ''C'' demo_client [] = Some (Err (Js_Api err), demo_client, w')) \<and>
     (\<exists>w'. delete_consumer lookup_env False demo_js ''S'' ''C'' demo_client [] = Some (Err (Js_Api err), demo_client, w'))"
proof -
  let ?err = "\<lparr> ae_status = NOT_FOUND, ae_code = JS_STREAM_NOT_FOUND, ae_description = [] \<rparr>"
  note lookups = lookup_outcome [of lookup_env False demo_js "''S''" demo_client "[]" lookup_fields demo_client _ ?err]
    lookup_outcome [of lookup_env False demo_js "''C''" demo_client "[]" lookup_fields demo_client _ ?err _ "''S''"]
  from lookup_answer [OF demo_names(3)] lookup_answer [OF demo_names(4)] lookup_answer [OF demo_names(5)]
  obtain w1 w2 w3 where
    "api_answer lookup_env False demo_js (js_name demo_js [''.STREAM.INFO.'', ''S'']) [] demo_client [] lookup_fields demo_client w1"
    "api_answer lookup_env False demo_js (js_name demo_js [''.CONSUMER.INFO.'', ''S'', ''.'', ''C'']) [] demo_client [] lookup_fields demo_client w2"
    "api_answer lookup_env False demo_js (js_name demo_js [''.CONSUMER.DELETE.'', ''S'', ''.'', ''C'']) [] demo_client [] lookup_fields demo_client w3"
    by blast
  with lookups lookup_error show ?thesis
    by (intro exI [of _ ?err])
      (auto simp: JS_STREAM_NOT_FOUND_def JS_CONSUMER_NOT_FOUND_def)
qed



end
