(* ===== verification/Js_Messages.thy ===== *)
theory Js_Messages
  imports Js_Batch Request_Spec
begin

text \<open>
  What the acknowledgments of a JetStream message send, over any sequence of them, and what the headers of a
  JetStream publish are.
\<close>

section \<open>Acknowledgments\<close>

datatype ack_op = Op_Ack | Op_Nak | Op_NakDelay nat | Op_Term | Op_TermReason bytes | Op_Progress

fun ack_op_run ::
    "('s, 'x, 'o, 'q, 'p, 'w) client_ops \<Rightarrow> ack_op \<Rightarrow> jetstream_message \<Rightarrow> 'w \<Rightarrow>
     ((jetstream_message_ack_error + unit) \<times> jetstream_message \<times> 'w) option" where
  "ack_op_run t Op_Ack m w = ack t m w"
| "ack_op_run t Op_Nak m w = nak t m w"
| "ack_op_run t (Op_NakDelay d) m w = nak_with_delay t d m w"
| "ack_op_run t Op_Term m w = ack_term t m w"
| "ack_op_run t (Op_TermReason reason) m w = term_with_reason t reason m w"
| "ack_op_run t Op_Progress m w = map_option (\<lambda>(r, w). (r, m, w)) (progress t m w)"

primrec ack_ops_run ::
    "('s, 'x, 'o, 'q, 'p, 'w) client_ops \<Rightarrow> ack_op list \<Rightarrow> jetstream_message \<Rightarrow> 'w \<Rightarrow>
     ((jetstream_message_ack_error + unit) list \<times> jetstream_message \<times> 'w) option" where
  "ack_ops_run t [] m w = Some ([], m, w)"
| "ack_ops_run t (op # ops) m w = do {
     (r, m, w) \<leftarrow> ack_op_run t op m w;
     (rs, m, w) \<leftarrow> ack_ops_run t ops m w;
     Some (r # rs, m, w) }"

text \<open>The words of the protocol.\<close>

fun ack_op_payload :: "ack_op \<Rightarrow> bytes" where
  "ack_op_payload Op_Ack = ''+ACK''"
| "ack_op_payload Op_Nak = ''-NAK''"
| "ack_op_payload (Op_NakDelay d) = ''-NAK {\"delay\": '' @ dec d @ ''}''"
| "ack_op_payload Op_Term = ''+TERM''"
| "ack_op_payload (Op_TermReason reason) = ''+TERM '' @ reason"
| "ack_op_payload Op_Progress = ''+WPI''"

definition ack_command :: "subject \<Rightarrow> ack_op \<Rightarrow> ('s, 'o) handler_command" where
  "ack_command reply op = Cmd_Publish \<lparr> msg_subject = reply, msg_reply_subject = None,
     msg_headers = header_map_new, msg_payload = ack_op_payload op \<rparr>"

text \<open>What is sent: the command of each operation that succeeded.\<close>

definition acks_sent :: "subject \<Rightarrow> ack_op list \<Rightarrow> (jetstream_message_ack_error + unit) list \<Rightarrow> ('s, 'o) handler_command list" where
  "acks_sent reply ops rs = map (\<lambda>(op, r). ack_command reply op) (filter (\<lambda>(op, r). is_ok r) (zip ops rs))"

text \<open>What each operation may answer: nothing but a missing reply subject once the message was acknowledged,
  successfully or not.\<close>

fun acks_answers :: "bool \<Rightarrow> ack_op list \<Rightarrow> (jetstream_message_ack_error + unit) list \<Rightarrow> bool" where
  "acks_answers live [] [] \<longleftrightarrow> True"
| "acks_answers live (op # ops) (r # rs) \<longleftrightarrow>
     (if live then r = Ok () \<or> r = Err (Ack_ClientClosed ClientClosedError) else r = Err NoReplySubject) \<and>
     acks_answers (live \<and> op = Op_Progress) ops rs"
| "acks_answers live _ _ \<longleftrightarrow> False"

abbreviation message_reply :: "jetstream_message \<Rightarrow> subject option" where
  "message_reply m \<equiv> msg_reply_subject (base (jm_message m))"

definition message_live :: "jetstream_message \<Rightarrow> bool" where
  "message_live m \<longleftrightarrow> message_reply m \<noteq> None \<and> jm_client m \<noteq> None \<and> \<not> jm_acknowledged m"

lemma enqueue_command_ok:
  assumes "channel_ok t chan used" and "enqueue_command t cmd w = Some (r, w')"
  shows "(r = Ok () \<and> chan w' = chan w @ [cmd]) \<or> (r = Err ClientClosedError \<and> chan w' = chan w)"
proof -
  obtain r0 where r0: "c_send t cmd w = Some (r0, w')" "r = map_err (\<lambda>_. ClientClosedError) r0"
    using assms(2) by (auto simp: enqueue_command_def split: bind_splits)
  with channel_okD(4) [OF assms(1) r0(1)] show ?thesis by (cases r0) auto
qed

lemma ack_op_closed:
  assumes "message_reply m = None"
  shows "\<exists>m'. ack_op_run t op m w = Some (Err NoReplySubject, m', w) \<and> message_reply m' = None \<and>
    jm_acknowledged m' = jm_acknowledged m"
  using assms by (cases op) (simp_all add: ack_def nak_def nak_with_delay_def ack_term_def term_with_reason_def
      acknowledge_def take_reply_subject_def progress_def)

lemma acknowledge_live:
  assumes "message_live m" and "message_reply m = Some reply"
  shows "acknowledge t p m w = do {
    (r, w) \<leftarrow> enqueue_command t (Cmd_Publish \<lparr> msg_subject = reply, msg_reply_subject = None,
       msg_headers = header_map_new, msg_payload = p \<rparr>) w;
    Some (map_err Ack_ClientClosed r, m\<lparr>jm_message := (jm_message m)\<lparr>base := (base (jm_message m))\<lparr>msg_reply_subject := None\<rparr>\<rparr>,
      jm_client := None, jm_acknowledged := is_ok r\<rparr>, w) }"
proof -
  let ?cmd = "Cmd_Publish \<lparr> msg_subject = reply, msg_reply_subject = None,
    msg_headers = header_map_new, msg_payload = p \<rparr>"
  from assms have "take_reply_subject m = (Ok reply, m\<lparr>jm_message := (jm_message m)\<lparr>base := (base (jm_message m))\<lparr>msg_reply_subject := None\<rparr>\<rparr>\<rparr>)"
      "jm_client m = Some ()" "\<not> jm_acknowledged m"
    by (auto simp: take_reply_subject_def message_live_def)
  then show ?thesis
    by (cases "enqueue_command t ?cmd w") (auto simp: acknowledge_def ensure_not_acked_def take_client_def do_publish_def
      into_message_base_def publish_payload_def publish_subject_def mark_acknowledged_def split: sum.splits)
qed

lemma ack_op_live:
  assumes ok: "channel_ok t chan used" and "message_live m" and "message_reply m = Some reply"
    and "ack_op_run t op m w = Some (r, m', w')"
  shows "(r = Ok () \<and> chan w' = chan w @ [ack_command reply op] \<or>
      r = Err (Ack_ClientClosed ClientClosedError) \<and> chan w' = chan w) \<and>
    (if op = Op_Progress then m' = m else message_reply m' = None \<and> (jm_acknowledged m' \<longleftrightarrow> is_ok r))"
proof (cases "op = Op_Progress")
  case True
  with assms(2-4) obtain r0 where "enqueue_command t (ack_command reply op) w = Some (r0, w')" "r = map_err Ack_ClientClosed r0" "m' = m"
    by (auto simp: progress_def message_live_def do_publish_def into_message_base_def publish_payload_def
        publish_subject_def ack_command_def split: bind_splits)
  with enqueue_command_ok [OF ok this(1)] True show ?thesis by auto
next
  case False
  then have "ack_op_run t op m w = acknowledge t (ack_op_payload op) m w"
    by (cases op) (simp_all add: ack_def nak_def nak_with_delay_def ack_term_def term_with_reason_def)
  with assms(4) have "acknowledge t (ack_op_payload op) m w = Some (r, m', w')" by simp
  then obtain r0 where
    "enqueue_command t (ack_command reply op) w = Some (r0, w')" "r = map_err Ack_ClientClosed r0"
    "message_reply m' = None" "jm_acknowledged m' = is_ok r0"
    unfolding acknowledge_live [OF assms(2,3)] by (auto simp: ack_command_def split: bind_splits)
  with enqueue_command_ok [OF ok this(1)] False show ?thesis by auto
qed

lemma acks_closed:
  assumes "message_reply m = None"
  shows "\<exists>m'. ack_ops_run t ops m w = Some (map (\<lambda>_. Err NoReplySubject) ops, m', w) \<and>
    acks_answers False ops (map (\<lambda>_. Err NoReplySubject) ops) \<and> jm_acknowledged m' = jm_acknowledged m"
  using assms
proof (induction ops arbitrary: m)
  case (Cons op ops)
  from ack_op_closed [OF Cons.prems, of t op w] obtain m1 where 1: "ack_op_run t op m w = Some (Err NoReplySubject, m1, w)"
      "message_reply m1 = None" "jm_acknowledged m1 = jm_acknowledged m" by blast
  with Cons.IH [OF 1(2)] show ?case by auto
qed simp

lemma acks_sent_Nil [simp]: "acks_sent reply ops (map (\<lambda>_. Err e) ops) = []"
  by (simp add: acks_sent_def zip_map2 filter_map o_def case_prod_unfold filter_empty_conv)

lemma acks_live:
  assumes "channel_ok t chan used" and "message_live m" and "message_reply m = Some reply"
    and "ack_ops_run t ops m w = Some (rs, m', w')"
  shows "acks_answers True ops rs \<and> chan w' = chan w @ acks_sent reply ops rs \<and>
    (jm_acknowledged m' \<longleftrightarrow> (\<exists>op. (op, Ok ()) \<in> set (zip ops rs) \<and> op \<noteq> Op_Progress))"
  using assms(2-4)
proof (induction ops arbitrary: m w rs)
  case Nil
  then show ?case by (auto simp: acks_sent_def message_live_def)
next
  case (Cons op ops)
  from Cons.prems(3) obtain r m1 w1 rs1 where 1: "ack_op_run t op m w = Some (r, m1, w1)"
      "ack_ops_run t ops m1 w1 = Some (rs1, m', w')" "rs = r # rs1"
    by (auto split: bind_splits)
  note live = ack_op_live [OF assms(1) Cons.prems(1,2) 1(1)]
  show ?case
  proof (cases "op = Op_Progress")
    case True
    with live have "m1 = m" by simp
    from Cons.IH [OF Cons.prems(1,2) 1(2) [unfolded this]] live True 1(3) show ?thesis
      by (auto simp: acks_sent_def)
  next
    case False
    with live have m1: "message_reply m1 = None" "jm_acknowledged m1 \<longleftrightarrow> is_ok r" by auto
    from acks_closed [OF m1(1), of t ops w1] 1(2) have c: "rs1 = map (\<lambda>_. Err NoReplySubject) ops" "w' = w1"
        "acks_answers False ops rs1" "jm_acknowledged m' = jm_acknowledged m1" by auto
    have "acks_sent reply (op # ops) rs = (if is_ok r then [ack_command reply op] else []) @ acks_sent reply ops rs1"
      using 1(3) by (simp add: acks_sent_def)
    moreover have "(x, Ok ()) \<notin> set (zip ops rs1)" for x using c(1) by (auto simp: zip_map2)
    ultimately show ?thesis using live False c m1(2) 1(3) by auto
  qed
qed

lemma acknowledge_None: "acknowledge t p m w = None \<Longrightarrow> \<exists>cmd w. c_send t cmd w = None"
  by (auto simp: acknowledge_def do_publish_def enqueue_command_def split: bind_splits prod.splits sum.splits)

lemma progress_None: "progress t m w = None \<Longrightarrow> \<exists>cmd w. c_send t cmd w = None"
  by (auto simp: progress_def do_publish_def enqueue_command_def split: bind_splits sum.splits)

lemma ack_ops_return:
  assumes "\<forall>cmd w. c_send t cmd w \<noteq> None"
  shows "ack_ops_run t ops m w \<noteq> None"
proof (induction ops arbitrary: m w)
  case (Cons op ops)
  have "ack_op_run t op m w \<noteq> None"
  proof
    assume "ack_op_run t op m w = None"
    then have "(\<exists>p. acknowledge t p m w = None) \<or> progress t m w = None"
      by (cases op) (auto simp: ack_def nak_def nak_with_delay_def ack_term_def term_with_reason_def)
    with acknowledge_None progress_None assms show False by metis
  qed
  then obtain r m1 w1 where "ack_op_run t op m w = Some (r, m1, w1)" by auto
  with Cons.IH [of m1 w1] show ?case by auto
qed simp

section \<open>The headers of a publish\<close>

text \<open>What is to be in the headers: the names and, where one was set, the text of the value.\<close>

definition publish_header_texts :: "jetstream_publish \<Rightarrow> (bytes \<times> bytes option) list" where
  "publish_header_texts p =
     [(''Nats-Stream'', jp_stream p),
      (''Nats-Expected-Stream'', jp_expected_stream p),
      (''Nats-Expected-Last-Sequence'', map_option (\<lambda>n. dec (unat n)) (jp_expected_last_stream_sequence p)),
      (''Nats-Expected-Last-Subject-Sequence'', map_option (\<lambda>n. dec (unat n)) (jp_expected_last_subject_sequence p)),
      (''Nats-Expected-Last-Msg-Id'', jp_expected_last_message_id p),
      (''Nats-Msg-Id'', jp_message_id p),
      (''Nats-TTL'', map_option (\<lambda>n. dec (unat n)) (jp_ttl p))]"

fun insert_texts ::
    "bool \<Rightarrow> (bytes \<Rightarrow> bytes) \<Rightarrow> (bytes \<times> bytes option) list \<Rightarrow> header_map \<Rightarrow>
     (header_value_validate_error + header_map) option" where
  "insert_texts dbg uc [] h = Some (Ok h)"
| "insert_texts dbg uc ((n, x) # ps) h = and_then_p (insert_text dbg uc n x h) (insert_texts dbg uc ps)"

lemma number_valid: "validate_header_value_bytes (dec n) = Ok ()"
  using dec_not_special [of _ n] by (auto simp: validate_header_value_iff is_eol_def)

lemma insert_number_text:
  "insert_number dbg uc name x = insert_text dbg uc name (map_option (\<lambda>n. dec (unat n)) x)"
  by (auto simp: fun_eq_iff insert_number_def insert_text_def number_valid header_value.from_dangerous_value_eq
      header_value.try_from_eq split: option.splits)

lemma and_then_p_Ok [simp]: "and_then_p r (\<lambda>h. Some (Ok h)) = r"
  by (cases r) (auto simp: and_then_p_def split: sum.splits)

lemma build_headers_texts:
  "build_headers dbg uc p = insert_texts dbg uc (publish_header_texts p) header_map_new"
  unfolding build_headers_def publish_header_texts_def insert_texts.simps insert_number_text and_then_p_Ok ..

lemma insert_text_eq:
  assumes "validate_header_name n = Ok ()"
  shows "insert_text dbg uc n x h =
    (case x of
       None \<Rightarrow> Some (Ok h)
     | Some s \<Rightarrow> if \<exists>b\<in>set s. is_eol b then Some (Err HeaderValue_IllegalCharacter)
         else map_option Ok (header_map_insert uc (HeaderName n) (HeaderValue s) h))"
proof -
  have "validate_header_value_bytes s = (if \<exists>b\<in>set s. is_eol b then Err HeaderValue_IllegalCharacter else Ok ())" for s
    by (induction s) (auto simp: is_eol_def)
  with assms show ?thesis
    by (simp add: insert_text_def header_name.from_static_eq header_value.try_from_eq split: option.splits)
qed

definition texts_ok :: "(bytes \<times> bytes option) list \<Rightarrow> bool" where
  "texts_ok ps \<longleftrightarrow> (\<forall>(n, x)\<in>set ps. \<forall>s. x = Some s \<longrightarrow> (\<forall>b\<in>set s. \<not> is_eol b))"

definition texts_under :: "(bytes \<Rightarrow> bytes) \<Rightarrow> (bytes \<times> bytes option) list \<Rightarrow> header_name \<Rightarrow> header_value list" where
  "texts_under uc ps k = concat (map (\<lambda>(n, x). case x of Some s \<Rightarrow> if uc n = hkey uc k then [HeaderValue s] else [] | None \<Rightarrow> []) ps)"

lemma insert_texts_spec:
  assumes "\<forall>n\<in>fst ` set ps. validate_header_name n = Ok ()" and "distinct (map uc (map fst ps))"
    and "header_map_inv uc h" and "\<forall>k. hkey uc k \<in> uc ` fst ` set ps \<longrightarrow> header_map_view uc h k = []"
  shows "if texts_ok ps
    then \<exists>h'. insert_texts dbg uc ps h = Some (Ok h') \<and> header_map_inv uc h' \<and>
      (\<forall>k. header_map_view uc h' k = header_map_view uc h k @ texts_under uc ps k)
    else insert_texts dbg uc ps h = Some (Err HeaderValue_IllegalCharacter)"
  using assms
proof (induction ps arbitrary: h)
  case Nil
  then show ?case by (simp add: texts_ok_def texts_under_def)
next
  case (Cons p ps)
  obtain n x where p: "p = (n, x)" by fastforce
  have n: "validate_header_name n = Ok ()" using Cons.prems(1) p by simp
  have ok: "texts_ok (p # ps) \<longleftrightarrow> (\<forall>s. x = Some s \<longrightarrow> (\<forall>b\<in>set s. \<not> is_eol b)) \<and> texts_ok ps"
    by (simp add: texts_ok_def p)
  show ?case
  proof (cases x)
    case None
    with Cons.IH [of h] Cons.prems p n ok show ?thesis by (auto simp: insert_text_eq texts_under_def)
  next
    case (Some s)
    show ?thesis
    proof (cases "\<exists>b\<in>set s. is_eol b")
      case True
      with Some p n ok show ?thesis by (auto simp: insert_text_eq)
    next
      case False
      from header_map_insert_spec [OF Cons.prems(3), of "HeaderName n" "HeaderValue s"] obtain h1 where
        h1: "header_map_insert uc (HeaderName n) (HeaderValue s) h = Some h1" "header_map_inv uc h1"
        "\<And>k. header_map_view uc h1 k = (if hkey uc k = uc n then [HeaderValue s] else header_map_view uc h k)"
        by (auto simp: hkey_def)
      have "\<forall>k. hkey uc k \<in> uc ` fst ` set ps \<longrightarrow> header_map_view uc h1 k = []"
        using Cons.prems(2,4) h1(3) p by auto
      from Cons.IH [OF _ _ h1(2) this] have IH: "if texts_ok ps
          then \<exists>h'. insert_texts dbg uc ps h1 = Some (Ok h') \<and> header_map_inv uc h' \<and>
            (\<forall>k. header_map_view uc h' k = header_map_view uc h1 k @ texts_under uc ps k)
          else insert_texts dbg uc ps h1 = Some (Err HeaderValue_IllegalCharacter)"
        using Cons.prems(1,2) by auto
      have step: "insert_texts dbg uc (p # ps) h = insert_texts dbg uc ps h1"
        using False Some p n h1(1) by (simp add: insert_text_eq)
      have "header_map_view uc h1 k @ texts_under uc ps k = header_map_view uc h k @ texts_under uc (p # ps) k" for k
        using Cons.prems(4) h1(3) [of k] Some p by (auto simp: texts_under_def hkey_def)
      with IH step ok False Some show ?thesis by (auto split: if_splits)
    qed
  qed
qed

lemma publish_names_valid: "\<forall>n\<in>fst ` set (publish_header_texts p). validate_header_name n = Ok ()"
  by (simp add: publish_header_texts_def validate_header_name_def)

lemma build_headers_spec:
  assumes "distinct (map uc (map fst (publish_header_texts p)))"
  shows "if texts_ok (publish_header_texts p)
    then \<exists>h. build_headers dbg uc p = Some (Ok h) \<and> header_map_inv uc h \<and>
      (\<forall>k. header_map_get_all uc k h = texts_under uc (publish_header_texts p) k)
    else build_headers dbg uc p = Some (Err HeaderValue_IllegalCharacter)"
proof -
  have "header_map_view uc header_map_new k = []" for k
    by (simp add: header_map_view_def header_map_get_all_def header_map_new_def)
  then show ?thesis
    using insert_texts_spec [OF publish_names_valid assms header_map_new_inv, of dbg]
    by (auto simp: build_headers_texts header_map_view_def split: if_splits)
qed

section \<open>A message that was delivered\<close>

definition delivered :: server_message where
  "delivered = \<lparr> status_code = None, status_description = None, subscription_id = 1,
     base = \<lparr> msg_subject = Subject ''a'', msg_reply_subject = Some (Subject ''r''), msg_headers = header_map_new,
       msg_payload = [] \<rparr> \<rparr>"

lemma delivered_acks:
  "\<exists>m w'. ack_ops_run list_ops [Op_Progress, Op_Ack, Op_Nak] (jetstream_message_new delivered) ([], 0) =
     Some ([Ok (), Ok (), Err NoReplySubject], m, w')"
  by (simp add: delivered_def jetstream_message_new_def progress_def ack_def nak_def acknowledge_def take_reply_subject_def
      ensure_not_acked_def take_client_def mark_acknowledged_def do_publish_def enqueue_command_def list_ops_def)

section \<open>Properties\<close>

text \<open>C18: A message is acknowledged at most once, whatever the sequence of acknowledgments and
  progress reports: the operations return when the channel of the commands accepts or refuses,
  exactly those that succeeded are published to the reply subject, in order and with the words of
  the protocol, and after the first acknowledgment, successful or not, every operation answers
  that there is no reply subject. A message without a reply subject publishes nothing.\<close>

theorem message_acknowledged:
  assumes "channel_ok t chan used"
  shows "((\<forall>cmd w. c_send t cmd w \<noteq> None) \<longrightarrow> ack_ops_run t ops (jetstream_message_new msg) w \<noteq> None) \<and>
    (ack_ops_run t ops (jetstream_message_new msg) w = Some (rs, m, w') \<longrightarrow>
       (case msg_reply_subject (base msg) of
          None \<Rightarrow> acks_answers False ops rs \<and> chan w' = chan w \<and> \<not> is_acked m
        | Some reply \<Rightarrow> acks_answers True ops rs \<and> chan w' = chan w @ acks_sent reply ops rs \<and>
            (is_acked m \<longleftrightarrow> (\<exists>op. (op, Ok ()) \<in> set (zip ops rs) \<and> op \<noteq> Op_Progress))))"
proof (cases "msg_reply_subject (base msg)")
  case None
  then have "message_reply (jetstream_message_new msg) = None" by (simp add: jetstream_message_new_def)
  from acks_closed [OF this, of t ops w] None ack_ops_return [of t ops "jetstream_message_new msg" w] show ?thesis
    by (auto simp: is_acked_def jetstream_message_new_def)
next
  case (Some reply)
  then have "message_live (jetstream_message_new msg)" "message_reply (jetstream_message_new msg) = Some reply"
    by (simp_all add: message_live_def jetstream_message_new_def)
  from acks_live [OF assms this, of ops w rs m w'] Some ack_ops_return [of t ops "jetstream_message_new msg" w] show ?thesis
    by (simp add: is_acked_def)
qed

lemma message_acknowledged_witness:
  "\<exists>m w'. ack_ops_run list_ops [Op_Progress, Op_Ack, Op_Nak] (jetstream_message_new delivered) ([], 0) =
     Some ([Ok (), Ok (), Err NoReplySubject], m, w') \<and>
     fst w' = [ack_command (Subject ''r'') Op_Progress, ack_command (Subject ''r'') Op_Ack] \<and> is_acked m"
proof -
  let ?ops = "[Op_Progress, Op_Ack, Op_Nak]"
  obtain m w' where r: "ack_ops_run list_ops ?ops (jetstream_message_new delivered) ([], 0) =
      Some ([Ok (), Ok (), Err NoReplySubject], m, w')" using delivered_acks by blast
  have "\<forall>cmd w. c_send list_ops cmd w \<noteq> None" by (auto simp: list_ops_def)
  with message_acknowledged [OF list_ops_ok, of ?ops delivered "([], 0)"] r show ?thesis
    by (auto simp: delivered_def acks_sent_def)
qed

text \<open>C32: The headers of a JetStream publish are a well formed map with exactly the options that were
  set, the numbers in decimal, each under its name whatever the case; when a text has a line end
  the publish fails before anything is sent. Nothing panics.\<close>

theorem publish_headers:
  assumes "distinct (map (je_unicase e) (map fst (publish_header_texts p)))"
  shows "if texts_ok (publish_header_texts p)
    then \<exists>h. build_headers dbg (je_unicase e) p = Some (Ok h) \<and> header_map_inv (je_unicase e) h \<and>
      (\<forall>k. header_map_get_all (je_unicase e) k h = texts_under (je_unicase e) (publish_header_texts p) k)
    else js_do_publish e dbg p c w = Some (Err (Js_HeaderValue HeaderValue_IllegalCharacter), c, w)"
  using build_headers_spec [OF assms, of dbg] by (auto simp: js_do_publish_def js_try_def js_then_def split: if_splits)

lemma publish_headers_witness:
  "\<exists>h. build_headers True (je_unicase demo_env) (jp_set_ttl 5 (jetstream_publish_subject (Subject ''a''))) = Some (Ok h) \<and>
     header_map_get_all (je_unicase demo_env) (HeaderName ''nats-ttl'') h = [HeaderValue ''5'']"
proof -
  let ?p = "jp_set_ttl 5 (jetstream_publish_subject (Subject ''a''))"
  have uc: "je_unicase demo_env = map to_ascii_lowercase" by (simp add: demo_env_def)
  have five: "dec 5 = ''5''" by code_simp
  have d: "distinct (map (je_unicase demo_env) (map fst (publish_header_texts ?p)))"
    unfolding uc publish_header_texts_def list.map fst_conv by code_simp
  have t: "texts_ok (publish_header_texts ?p)"
    by (simp add: texts_ok_def publish_header_texts_def jp_set_ttl_def jetstream_publish_subject_def five is_eol_def)
  have "texts_under (map to_ascii_lowercase) (publish_header_texts ?p) (HeaderName ''nats-ttl'') = [HeaderValue ''5'']"
    by code_simp
  with publish_headers [OF d, of True] t uc show ?thesis by auto
qed

end
