(* ===== verification/Spec2Isabelle.thy ===== *)
theory Spec2Isabelle
  imports Decoder_Spec Wire Encoder Header_Map Names Status_Code Server_Error Server_Addr Uint
    Streaming Websocket Connection Sockets Happy_Eyeballs Timers Quick_Info Handler_Spec Handler_Net
    Nkeys Authenticator Connector Client Client_Task System
    Subscription Requests Request_Spec
    Json Js_Resources Jetstream Js_Lists Js_Batch Js_Config Js_Messages
begin

text \<open>
  A verification development for watermelon, a NATS client in Rust.

  \<^bold>\<open>The program.\<close> Five crates. \<open>watermelon-proto\<close> has the data of the protocol and its text: validated
  names, headers, addresses, an incremental decoder of server operations and encoders of client
  operations. \<open>watermelon-net\<close> puts them on a byte stream or a websocket, makes the \<open>CONNECT\<close> handshake and
  races connection attempts. \<open>watermelon-mini\<close> wraps the socket in TLS and compression. \<open>watermelon\<close> has the
  task that owns a connection (the handler), which takes commands from the clients over a channel, writes
  operations, dispatches what the server sends and reconnects, and the clients themselves.

  \<^bold>\<open>How the model is made.\<close> A byte is a \<open>char\<close>, bytes and strings are lists of them, a \<open>usize\<close> or \<open>u64\<close> is a
  \<open>64 word\<close> where its width matters and a \<open>nat\<close> where it is a length. A \<open>Result\<close> is a sum (\<open>Ok\<close> and \<open>Err\<close> abbreviate
  \<open>Inr\<close> and \<open>Inl\<close>), a panic or an endless loop is \<open>None\<close>, and \<open>debug_assert!\<close> fails only when the flag \<open>dbg\<close> is
  set. Code that is not in the repository is a record of operations: \<open>ext\<close> and \<open>json_ext\<close> (memchr, itoa,
  unicase, serde_json), \<open>socket_ops\<close> (AsyncRead and AsyncWrite), \<open>ws_ops\<close> (tokio_websockets), \<open>clock_ops\<close>,
  \<open>tokio\<close>, \<open>client_ops\<close> and \<open>env\<close> (tokio's timers, channels and budget), \<open>he_ops\<close> (resolver, join set), \<open>zstd_codec\<close>, \<open>json_text\<close>,
  \<open>url_ext\<close>; what is documented of them is a predicate (\<open>ext_ok\<close>, \<open>clock_ok\<close>, \<open>channel_ok\<close>, \<open>receiver_ok\<close>, \<open>timestamps_ok\<close>, \<open>join_set_ok\<close>, \<open>codec_ok\<close>) or a
  locale (\<open>byte_sink\<close>), and each has an instance. They act on a world that every call threads through. An
  \<open>async\<close> function is the loop that polls until it is ready; loops that may not end are partial functions
  in the option monad, so that returning is a claim and is proved where it holds.

  \<^bold>\<open>The theories.\<close>
  \<^item> \<open>Prelude\<close>, \<open>Rust_Std\<close>, \<open>Btree_Map\<close>, \<open>Ext\<close>, \<open>Std_Net\<close>: results, panics, the standard library's functions on
    bytes, UTF-8, machine arithmetic, \<open>BTreeMap\<close> as a sorted list, the parameters, IP addresses.
  \<^item> \<open>Uint\<close> (\<open>util/uint.rs\<close>, \<open>subscription_id.rs\<close>): the unrolled decimal parser equals a plain one.
  \<^item> \<open>Text_Split\<close> (\<open>util/crlf.rs\<close>, \<open>lines_iter.rs\<close>, \<open>split_spaces.rs\<close>), \<open>Buf_List\<close> (\<open>util/buf_list.rs\<close>), \<open>Names\<close>
    (\<open>subject.rs\<close>, \<open>queue_group.rs\<close>, \<open>headers/name.rs\<close>, \<open>headers/value.rs\<close>), \<open>Header_Map\<close> (\<open>headers/map.rs\<close>),
    \<open>Status_Code\<close>, \<open>Server_Error\<close>, \<open>Server_Addr\<close>, \<open>Proto_Types\<close> (\<open>message.rs\<close>, \<open>connect.rs\<close>, \<open>server_info.rs\<close>,
    \<open>proto/client.rs\<close>, \<open>proto/server.rs\<close>): one definition per operation; grammars, invariants and
    reference semantics.
  \<^item> \<open>Decoder\<close> and \<open>Decoder_Spec\<close> (\<open>proto/decoder\<close>): the status machine; it never panics in release builds,
    what it returns is well formed, and cutting its input into chunks does not change what it decodes.
  \<^item> \<open>Encoder\<close> and \<open>Wire\<close> (\<open>proto/encoder\<close>): the locale \<open>frame_writer\<close> is what a writer promises, interpreted
    by both encoders; text of an operation, round trips through the decoder, no protocol injection.
  \<^item> \<open>Streaming\<close>, \<open>Websocket\<close>, \<open>Connection\<close>, \<open>Sockets\<close> (\<open>watermelon-net/src/connection\<close>, \<open>watermelon-mini\<close>'s
    socket wrappers): bytes are neither lost, repeated nor reordered between the encoder and the socket,
    reads return, the handshake sends what it should. \<open>byte_sink\<close> is the contract of a socket; wrapping
    two of them in \<open>ConnectionSecurity\<close> gives one again.
  \<^item> \<open>Happy_Eyeballs\<close> (\<open>happy_eyeballs.rs\<close>): every address resolved is tried once.
  \<^item> \<open>Quick_Info\<close>, \<open>Timers\<close> (\<open>client/quick_info.rs\<close>, \<open>handler/pinger.rs\<close>, \<open>handler/delayed.rs\<close>).
  \<^item> \<open>Handler\<close>, \<open>Handler_Spec\<close>, \<open>Handler_Net\<close> (\<open>handler/mod.rs\<close>): the future of the connection task. The locale
    \<open>handler_step\<close> lifts a relation that every part respects to a whole poll; it is interpreted by the queue
    of answers owed and by the invariant of the tables. \<open>Handler_Net\<close> puts the handler on a connection.
  \<^item> \<open>Nkeys\<close>, \<open>Authenticator\<close>, \<open>Connector\<close> (\<open>watermelon-nkeys\<close>, \<open>proto/authenticator.rs\<close>, \<open>proto/connector.rs\<close>): seeds and
    signatures, credentials files, and the way from an address to a connection that has made the handshake.
  \<^item> \<open>Client\<close>, \<open>Client_Task\<close> (\<open>client/mod.rs\<close>, \<open>client/builder.rs\<close>): the handle that sends commands, and the task that
    polls the handler and connects again. \<open>System\<close> puts both together: the handler is polled while clients
    take steps, given by their own operations, and the invariant of the subscription identifiers holds throughout.
  \<^item> \<open>Subscription\<close>, \<open>Requests\<close>, \<open>Request_Spec\<close> (\<open>subscription.rs\<close>, \<open>multiplexed_subscription.rs\<close>,
    \<open>client/commands\<close>): the streams of messages and the builders that publish and request. Every operation is a
    sequence of the steps of \<open>System\<close>, and what the handler makes of a request reaches its response.
  \<^item> \<open>Json\<close>, \<open>Js_Resources\<close>, \<open>Js_Config\<close> (\<open>client/jetstream/resources\<close>): JSON as a datatype, the deserializers
    that serde derives field by field, the configurations of streams and consumers. What is read is well
    formed and can be written again, and what is written is read back where its limits are given.
  \<^item> \<open>Jetstream\<close>, \<open>Js_Lists\<close>, \<open>Js_Batch\<close>, \<open>Js_Messages\<close> (\<open>client/jetstream\<close>): requests to the API, lists page by
    page, batches of messages and the stream of batches, acknowledgments, publishing. The futures that a
    stream polls are datatypes with a constructor for each point at which they wait. \<open>js_env\<close> holds the
    parameters.
  \<^bold>\<open>Bounds.\<close> No fuel is used. Loops over the socket are partial functions; that a read ends is proved with
  the measure \<open>decoder_measure\<close>, which every chunk read decreases.

  \<^bold>\<open>Not modelled.\<close> What is in other repositories: the socket, TLS, websocket framing, compression, Ed25519, the text of
  JSON, tokio's scheduler and channels, each a parameter as above. Formatting and serde glue (\<open>Display\<close>, \<open>Debug\<close>, \<open>Serialize\<close>) is left out
  where it only prints a field, and so are the wake-ups of tasks. Tests, the test kit, which runs a server
  process, and the example program are not part of the client.
\<close>

end
